theory Spec2Isabelle
  imports Complex_Main "HOL-Library.AList" "HOL-Library.Multiset"
begin

section \<open>Conventions of the embedding\<close>

text \<open>
  The four simulation programs compute with C++ \<^verbatim>\<open>double\<close>. The embedding reads a
  \<^verbatim>\<open>double\<close> as a real number and every arithmetic operation as the exact
  operation on reals; rounding, infinities and NaN are outside the model. Where the
  source divides, the theorems below are stated for non-zero divisors, or the division
  is made explicit as a partial operation (\<open>ddiv\<close>).

  Unsigned 32-bit counters are natural numbers; where the source adds to such a counter
  the wrap-around \<open>mod 2 ^ 32\<close> is written out. C++ \<^verbatim>\<open>int\<close> is \<open>int\<close>.
\<close>


section \<open>d-lora-simulation.cc: link metric model\<close>

text \<open>
  \<^verbatim>\<open>double CalculateToA (int sf, double bw, uint32_t payloadSize)\<close>.
  \<^verbatim>\<open>std::pow(2, sf)\<close> is the integer power \<open>2 powi sf\<close>; \<^verbatim>\<open>std::ceil\<close> is the
  ceiling, read back as a real. The local constants keep the source's names and values
  (the source sets \<open>H = 0\<close>).
\<close>

definition CalculateToA :: "int \<Rightarrow> real \<Rightarrow> nat \<Rightarrow> real" where
  "CalculateToA sf bw payloadSize =
    (let symbolDuration = 2 powi sf / bw;
         npre = 8;
         preambleDuration = (npre + 4.25) * symbolDuration;
         PS = real payloadSize;
         CRC = 1;
         H = 0;
         DE = 0;
         CR = 1;
         term1 = 8.0 * PS - 4.0 * real_of_int sf + 28.0 + 16.0 * CRC - 20.0 * H;
         term2 = 4.0 * (real_of_int sf - 2.0 * DE);
         npay = 8.0 + max (real_of_int \<lceil>term1 / term2\<rceil> * (CR + 4.0)) 0.0;
         payloadDuration = npay * symbolDuration
     in preambleDuration + payloadDuration)"

section \<open>d-lora-simulation.cc: the D-LoRa agent\<close>

text \<open>
  A \<^verbatim>\<open>std::map\<close> is the list of its entries. \<open>at_map m d k\<close> is the read \<^verbatim>\<open>m[k]\<close>:
  the value stored under \<open>k\<close>, or the value-initialised default \<open>d\<close> for an absent key.
  (\<^verbatim>\<open>operator[]\<close> also inserts that default; no later read or sum can tell the
  inserted zero from the default, so the model leaves the list as it is.)
\<close>

definition at_map :: "('k \<times> 'v) list \<Rightarrow> 'v \<Rightarrow> 'k \<Rightarrow> 'v" where
  "at_map m d k = (case map_of m k of None \<Rightarrow> d | Some v \<Rightarrow> v)"

definition C_WEIGHT_FACTOR :: real where
  "C_WEIGHT_FACTOR = 2.0"

text \<open>\<^verbatim>\<open>std::numeric_limits<double>::max()\<close>, the largest finite double.\<close>

definition DBL_MAX :: real where
  "DBL_MAX = (2 - 1 / 2 ^ 52) * 2 ^ 1023"

text \<open>
  The first loop of \<^verbatim>\<open>SelectArm\<close>: \<^verbatim>\<open>totalSelections += val\<close> over the entries of
  \<^verbatim>\<open>numSelections\<close>, in \<^verbatim>\<open>uint32_t\<close>.
\<close>

definition totalSelections_of :: "('a \<times> nat) list \<Rightarrow> nat" where
  "totalSelections_of numSelections =
     fold (\<lambda>(key, val) total. (total + val) mod 2 ^ 32) numSelections 0"

text \<open>
  The score \<^verbatim>\<open>ucbValue\<close> of one arm, as the body of the second loop computes it.
  \<^verbatim>\<open>totalSelections + 1\<close> is a \<^verbatim>\<open>uint32_t\<close> sum.
\<close>

definition ucbValue :: "('a \<times> real) list \<Rightarrow> ('a \<times> nat) list \<Rightarrow> nat \<Rightarrow> 'a \<Rightarrow> real" where
  "ucbValue expectedRewards numSelections totalSelections arm =
     (if at_map numSelections 0 arm = 0 then DBL_MAX
      else at_map expectedRewards 0 arm
           + C_WEIGHT_FACTOR
             * sqrt (ln (real ((totalSelections + 1) mod 2 ^ 32))
                     / (2.0 * real (at_map numSelections 0 arm))))"

text \<open>The second loop, with its two variables \<^verbatim>\<open>maxUCB\<close> and \<^verbatim>\<open>selectedArm\<close>.\<close>

fun SelectArm_loop ::
  "('a \<times> real) list \<Rightarrow> ('a \<times> nat) list \<Rightarrow> nat \<Rightarrow> 'a list \<Rightarrow> real \<times> 'a \<Rightarrow> real \<times> 'a" where
  "SelectArm_loop expectedRewards numSelections totalSelections [] (maxUCB, selectedArm) =
     (maxUCB, selectedArm)"
| "SelectArm_loop expectedRewards numSelections totalSelections (arm # rest) (maxUCB, selectedArm) =
     (if ucbValue expectedRewards numSelections totalSelections arm > maxUCB
      then SelectArm_loop expectedRewards numSelections totalSelections rest
             (ucbValue expectedRewards numSelections totalSelections arm, arm)
      else SelectArm_loop expectedRewards numSelections totalSelections rest (maxUCB, selectedArm))"

text \<open>
  \<^verbatim>\<open>T SelectArm (expectedRewards, numSelections, armSet)\<close>. \<^verbatim>\<open>armSet[0]\<close> of an empty
  vector is undefined behaviour: \<open>None\<close>.
\<close>

definition SelectArm :: "('a \<times> real) list \<Rightarrow> ('a \<times> nat) list \<Rightarrow> 'a list \<Rightarrow> 'a option" where
  "SelectArm expectedRewards numSelections armSet =
     (case armSet of
        [] \<Rightarrow> None
      | arm0 # _ \<Rightarrow>
          Some (snd (SelectArm_loop expectedRewards numSelections
                       (totalSelections_of numSelections) armSet (- 1.0, arm0))))"

text \<open>
  \<^verbatim>\<open>void UpdateArm (expectedRewards, numSelections, arm, reward)\<close>: the counter is
  incremented first and the running mean divides by the new counter.
\<close>

definition UpdateArm ::
  "('a \<times> real) list \<Rightarrow> ('a \<times> nat) list \<Rightarrow> 'a \<Rightarrow> real \<Rightarrow> ('a \<times> real) list \<times> ('a \<times> nat) list" where
  "UpdateArm expectedRewards numSelections arm reward =
     (let numSelections' =
            AList.update arm ((at_map numSelections 0 arm + 1) mod 2 ^ 32) numSelections;
          expectedRewards' =
            AList.update arm
              (at_map expectedRewards 0 arm
               + (reward - at_map expectedRewards 0 arm) / real (at_map numSelections' 0 arm))
              expectedRewards
      in (expectedRewards', numSelections'))"

text \<open>
  The constructor of \<^verbatim>\<open>DLoRaAgent\<close> for one dimension: every arm of the set gets
  expected reward 0.0 and 0 selections.
\<close>

definition init_rewards :: "'a list \<Rightarrow> ('a \<times> real) list" where
  "init_rewards armSet = fold (\<lambda>arm m. AList.update arm 0.0 m) armSet []"

definition init_selections :: "'a list \<Rightarrow> ('a \<times> nat) list" where
  "init_selections armSet = fold (\<lambda>arm m. AList.update arm 0 m) armSet []"

text \<open>
  One decision cycle of a dimension as \<^verbatim>\<open>LoRaEndDeviceApp::SendPacket\<close> drives it:
  \<^verbatim>\<open>SelectArm\<close>, then \<^verbatim>\<open>UpdateArm\<close> of the selected arm with the reward of the
  cycle. \<open>dimension_run\<close> repeats it for a list of rewards and returns the arms selected,
  in order, with the final statistics.
\<close>

fun dimension_run ::
  "'a list \<Rightarrow> ('a \<times> real) list \<Rightarrow> ('a \<times> nat) list \<Rightarrow> real list
   \<Rightarrow> ('a list \<times> ('a \<times> real) list \<times> ('a \<times> nat) list) option" where
  "dimension_run armSet expectedRewards numSelections [] = Some ([], expectedRewards, numSelections)"
| "dimension_run armSet expectedRewards numSelections (reward # rewards) =
     (case SelectArm expectedRewards numSelections armSet of
        None \<Rightarrow> None
      | Some arm \<Rightarrow>
          (case UpdateArm expectedRewards numSelections arm reward of
             (expectedRewards', numSelections') \<Rightarrow>
               (case dimension_run armSet expectedRewards' numSelections' rewards of
                  None \<Rightarrow> None
                | Some (arms, r) \<Rightarrow> Some (arm # arms, r))))"


text \<open>
  The reward functions of \<^verbatim>\<open>UpdateRewards\<close>. The weights \<^verbatim>\<open>g_xi\<close>, \<^verbatim>\<open>g_zeta\<close>,
  \<^verbatim>\<open>g_eta\<close> and the arm sets are globals of the program and parameters here; \<^verbatim>\<open>main\<close>
  sets the weights to 0, 1.8, 3.5 or 10.
\<close>

definition CalculateRewardSF :: "real \<Rightarrow> int list \<Rightarrow> int \<Rightarrow> bool \<Rightarrow> real" where
  "CalculateRewardSF g_xi SF_SET sf success =
     (let r_sf = (if success then 1.0 else 0.0)
      in if g_xi > 0
         then (let sum_2_sf = fold (\<lambda>s acc. acc + 2 powi s) SF_SET 0
               in r_sf + g_xi * (2 powi sf / sum_2_sf))
         else r_sf)"

definition CalculateRewardBW :: "real \<Rightarrow> real list \<Rightarrow> real \<Rightarrow> bool \<Rightarrow> real" where
  "CalculateRewardBW g_zeta BW_SET bw success =
     (let r_bw = (if success then 1.0 else 0.0)
      in if g_zeta > 0
         then (let sum_bw = fold (\<lambda>b acc. acc + b) BW_SET 0
               in r_bw + g_zeta * (bw / sum_bw))
         else r_bw)"

definition CalculateRewardCF :: "real \<Rightarrow> bool \<Rightarrow> real" where
  "CalculateRewardCF cf success = (if success then 1.0 else 0.0)"

definition CalculateRewardTP :: "real \<Rightarrow> real list \<Rightarrow> real \<Rightarrow> bool \<Rightarrow> real" where
  "CalculateRewardTP g_eta TP_SET tp success =
     (let r_tp = (if success then 1.0 else 0.0)
      in if g_eta > 0
         then (let sum_tp = fold (\<lambda>t acc. acc + t) TP_SET 0
               in r_tp + g_eta * (1.0 - tp / sum_tp))
         else r_tp)"

section \<open>lora-ucb1-simulation.cc: ADR-Lite and the gateway\<close>

text \<open>
  The fields of \<^verbatim>\<open>LoRaDevice\<close> that ADR-Lite and the dispatch in
  \<^verbatim>\<open>SelectAndTransmit\<close> read or write.
\<close>

record LoRaDevice =
  m_deviceId :: int
  m_algorithm :: string
  m_currentTransmissionRound :: int
  m_successHistory :: "bool list"
  m_adrParameterList :: "(real \<times> int) list"
  m_adrIndex :: int

text \<open>
  The constructor: the ladder is built only for ADR-Lite, transmit powers in the outer
  loop and channels in the inner loop, and the index starts at the last entry.
\<close>

definition channelsOrdered :: "real list" where
  "channelsOrdered = [920.6, 922.2, 921.0, 921.4, 921.8]"

definition tpsOrdered :: "int list" where
  "tpsOrdered = [- 3, 1, 5, 9, 13]"

definition LoRaDevice_init :: "int \<Rightarrow> string \<Rightarrow> LoRaDevice" where
  "LoRaDevice_init deviceId algorithm =
     (let ladder = (if algorithm = ''ADR-Lite''
                    then concat (map (\<lambda>tp. map (\<lambda>ch. (ch, tp)) channelsOrdered) tpsOrdered)
                    else [])
      in \<lparr> m_deviceId = deviceId,
           m_algorithm = algorithm,
           m_currentTransmissionRound = 0,
           m_successHistory = [],
           m_adrParameterList = ladder,
           m_adrIndex = (if algorithm = ''ADR-Lite'' then int (length ladder) - 1 else 0) \<rparr>)"

text \<open>C++ integer division by two, which truncates towards zero.\<close>

definition cdiv2 :: "int \<Rightarrow> int" where
  "cdiv2 a = (if 0 \<le> a then a div 2 else - ((- a) div 2))"

text \<open>\<^verbatim>\<open>v[i]\<close> of a vector with an \<^verbatim>\<open>int\<close> index; out of range is undefined: \<open>None\<close>.\<close>

definition vec_at :: "'a list \<Rightarrow> int \<Rightarrow> 'a option" where
  "vec_at v i = (if 0 \<le> i \<and> i < int (length v) then Some (v ! nat i) else None)"

text \<open>
  \<^verbatim>\<open>SelectTransmissionParametersADRLite\<close>: returns the selected entry and the device
  with its new index.
\<close>

definition SelectTransmissionParametersADRLite ::
  "LoRaDevice \<Rightarrow> (real \<times> int) option \<times> LoRaDevice" where
  "SelectTransmissionParametersADRLite d =
     (if m_successHistory d = [] then (vec_at (m_adrParameterList d) (m_adrIndex d), d)
      else
        let lastSuccess = last (m_successHistory d);
            d' = (if lastSuccess
                  then (let newIndex = cdiv2 (m_adrIndex d)
                        in d\<lparr>m_adrIndex := max 0 newIndex\<rparr>)
                  else (let newIndex = cdiv2 (m_adrIndex d + int (length (m_adrParameterList d)))
                        in d\<lparr>m_adrIndex := min (int (length (m_adrParameterList d)) - 1) newIndex\<rparr>))
        in (vec_at (m_adrParameterList d') (m_adrIndex d'), d'))"

text \<open>
  What \<^verbatim>\<open>UpdateStatistics\<close> and the end of \<^verbatim>\<open>SelectAndTransmit\<close> do to these fields:
  the outcome is appended to the success history and the round counter advances.
\<close>

definition record_outcome :: "LoRaDevice \<Rightarrow> bool \<Rightarrow> LoRaDevice" where
  "record_outcome d success =
     d\<lparr>m_successHistory := m_successHistory d @ [success],
       m_currentTransmissionRound := m_currentTransmissionRound d + 1\<rparr>"

text \<open>
  The ADR-Lite cycles of a device for a sequence of transmission outcomes: select,
  transmit (the outcome is the next element), record.
\<close>

fun ADRLite_run :: "LoRaDevice \<Rightarrow> bool list \<Rightarrow> LoRaDevice" where
  "ADRLite_run d [] = d"
| "ADRLite_run d (success # outcomes) =
     ADRLite_run (record_outcome (snd (SelectTransmissionParametersADRLite d)) success) outcomes"

text \<open>
  \<^verbatim>\<open>LoRaGateway::ReceiveTransmission\<close>. The first loop is the search through
  \<^verbatim>\<open>m_receivableChannels\<close>; \<open>successProbability\<close> is the value compared with the uniform
  sample; \<open>u\<close> is that sample, \<^verbatim>\<open>m_rand->GetValue()\<close>, drawn from [0, 1).
\<close>

definition channelReceivable :: "real list \<Rightarrow> real \<Rightarrow> bool" where
  "channelReceivable receivableChannels channel =
     list_ex (\<lambda>rc. \<bar>channel - rc\<bar> < 0.001) receivableChannels"

definition successProbability :: "int \<Rightarrow> real list \<Rightarrow> real \<Rightarrow> int \<Rightarrow> real" where
  "successProbability g_numDevices g_receivableChannels channel tp =
     (let baseProbability = 0.87 + real_of_int (tp + 3) * 0.02;
          densityFactor = 1.0 - real_of_int (g_numDevices - 10) * 0.006;
          densityFactor' = max 0.65 densityFactor;
          channelBonus = (if list_ex (\<lambda>rc. \<bar>channel - rc\<bar> < 0.001) g_receivableChannels
                          then 1.05 else 1.0);
          powerBonus = 1.0 + real_of_int (tp - (- 3)) * 0.01;
          p = baseProbability * densityFactor' * channelBonus * powerBonus
      in min 0.98 (max 0.2 p))"

definition ReceiveTransmission ::
  "real list \<Rightarrow> int \<Rightarrow> real list \<Rightarrow> real \<Rightarrow> real \<Rightarrow> int \<Rightarrow> int \<Rightarrow> bool" where
  "ReceiveTransmission m_receivableChannels g_numDevices g_receivableChannels u channel tp deviceId =
     (if \<not> channelReceivable m_receivableChannels channel then False
      else u < successProbability g_numDevices g_receivableChannels channel tp)"

text \<open>
  The epsilon-greedy and UCB1-tuned selectors keep, per (channel, power) pair, a
  \<^verbatim>\<open>UCBStats\<close> in the map \<^verbatim>\<open>m_ucbStats\<close>.
\<close>

record UCBStats =
  rewardsSum :: real
  selectionsCount :: int
  rewardHistory :: "real list"

definition UCBStats_init :: UCBStats where
  "UCBStats_init = \<lparr> rewardsSum = 0.0, selectionsCount = 0, rewardHistory = [] \<rparr>"

text \<open>
  The constructor's loop \<^verbatim>\<open>m_ucbStats[{ch, tp}] = UCBStats()\<close> over channels (outer)
  and powers (inner); \<open>arm_pairs\<close> is that iteration order, which the selectors reuse.
\<close>

definition arm_pairs :: "real list \<Rightarrow> int list \<Rightarrow> (real \<times> int) list" where
  "arm_pairs channels powers = concat (map (\<lambda>ch. map (\<lambda>tp. (ch, tp)) powers) channels)"

definition init_ucbStats :: "real list \<Rightarrow> int list \<Rightarrow> ((real \<times> int) \<times> UCBStats) list" where
  "init_ucbStats channels powers =
     fold (\<lambda>key m. AList.update key UCBStats_init m) (arm_pairs channels powers) []"

text \<open>
  The part of \<^verbatim>\<open>UpdateStatistics\<close> that writes \<^verbatim>\<open>m_ucbStats\<close>. The reward is
  \<open>1 / E_ToA\<close> on success and 0 otherwise; \<open>E_ToA\<close> depends on a random payload size and is
  passed in.
\<close>

definition UpdateStatistics_stats ::
  "((real \<times> int) \<times> UCBStats) list \<Rightarrow> real \<Rightarrow> int \<Rightarrow> bool \<Rightarrow> real
   \<Rightarrow> ((real \<times> int) \<times> UCBStats) list" where
  "UpdateStatistics_stats ucbStats channel tp success E_ToA_val =
     (let stats = at_map ucbStats UCBStats_init (channel, tp);
          reward = (if success then 1.0 / E_ToA_val else 0.0)
      in AList.update (channel, tp)
           \<lparr> rewardsSum = rewardsSum stats + reward,
             selectionsCount = selectionsCount stats + 1,
             rewardHistory = rewardHistory stats @ [reward] \<rparr>
           ucbStats)"

text \<open>
  The exploitation branch of \<^verbatim>\<open>SelectTransmissionParametersEpsilonGreedy\<close>: the nested
  loop with its variables \<^verbatim>\<open>bestReward\<close>, \<^verbatim>\<open>bestChannel\<close>, \<^verbatim>\<open>bestTp\<close>.
\<close>

fun EpsilonGreedy_loop ::
  "((real \<times> int) \<times> UCBStats) list \<Rightarrow> (real \<times> int) list \<Rightarrow> real \<times> real \<times> int
   \<Rightarrow> real \<times> real \<times> int" where
  "EpsilonGreedy_loop ucbStats [] best = best"
| "EpsilonGreedy_loop ucbStats ((ch, tp) # rest) (bestReward, bestChannel, bestTp) =
     (if selectionsCount (at_map ucbStats UCBStats_init (ch, tp)) > 0
      then (let avgReward = rewardsSum (at_map ucbStats UCBStats_init (ch, tp))
                            / real_of_int (selectionsCount (at_map ucbStats UCBStats_init (ch, tp)))
            in if avgReward > bestReward
               then EpsilonGreedy_loop ucbStats rest (avgReward, ch, tp)
               else EpsilonGreedy_loop ucbStats rest (bestReward, bestChannel, bestTp))
      else EpsilonGreedy_loop ucbStats rest (bestReward, bestChannel, bestTp))"

text \<open>\<^verbatim>\<open>static_cast<int>\<close> of a double: truncation towards zero.\<close>

definition trunc_int :: "real \<Rightarrow> int" where
  "trunc_int x = (if 0 \<le> x then \<lfloor>x\<rfloor> else \<lceil>x\<rceil>)"

text \<open>
  \<^verbatim>\<open>SelectTransmissionParametersEpsilonGreedy\<close>; \<open>u1\<close>, \<open>u2\<close>, \<open>u3\<close> are the three draws
  of \<^verbatim>\<open>m_rand->GetValue()\<close>. An index outside a vector is undefined: \<open>None\<close>.
\<close>

definition SelectTransmissionParametersEpsilonGreedy ::
  "real \<Rightarrow> ((real \<times> int) \<times> UCBStats) list \<Rightarrow> real list \<Rightarrow> int list \<Rightarrow> real \<Rightarrow> real \<Rightarrow> real
   \<Rightarrow> (real \<times> int) option" where
  "SelectTransmissionParametersEpsilonGreedy epsilon ucbStats channels powers u1 u2 u3 =
     (if u1 < epsilon
      then (let chIdx = trunc_int (u2 * real (length channels));
                tpIdx = trunc_int (u3 * real (length powers))
            in case (vec_at channels chIdx, vec_at powers tpIdx) of
                 (Some ch, Some tp) \<Rightarrow> Some (ch, tp)
               | _ \<Rightarrow> None)
      else (case (vec_at channels 0, vec_at powers 0) of
              (Some ch0, Some tp0) \<Rightarrow>
                (case EpsilonGreedy_loop ucbStats (arm_pairs channels powers) (- 1.0, ch0, tp0) of
                   (bestReward, bestChannel, bestTp) \<Rightarrow> Some (bestChannel, bestTp))
            | _ \<Rightarrow> None))"

text \<open>
  The scores of the UCB1-tuned selector are doubles or one of the two infinities: an
  untried pair scores plus infinity, and the running maximum of the selection loop starts
  at minus infinity. \<open>greater a b\<close> is the test \<^verbatim>\<open>a > b\<close> on these values.
\<close>

datatype score = MinusInfinity | Finite real | PlusInfinity

fun greater :: "score \<Rightarrow> score \<Rightarrow> bool" where
  "greater PlusInfinity PlusInfinity = False"
| "greater PlusInfinity b = True"
| "greater (Finite a) (Finite b) = (a > b)"
| "greater (Finite a) MinusInfinity = True"
| "greater a b = False"

text \<open>\<^verbatim>\<open>UCBStats::getVariance\<close>.\<close>

definition getVariance :: "UCBStats \<Rightarrow> real" where
  "getVariance stats =
     (if length (rewardHistory stats) \<le> 1 then 0.0
      else
        let mean = rewardsSum stats / real_of_int (selectionsCount stats);
            sumSquared = fold (\<lambda>reward s. s + (reward - mean) * (reward - mean))
                              (rewardHistory stats) 0.0
        in sumSquared / real (length (rewardHistory stats) - 1))"

text \<open>\<^verbatim>\<open>LoRaDevice::CalculateUCBScore (channel, tp, totalSelections)\<close>.\<close>

definition CalculateUCBScore ::
  "((real \<times> int) \<times> UCBStats) list \<Rightarrow> real \<Rightarrow> int \<Rightarrow> int \<Rightarrow> score" where
  "CalculateUCBScore ucbStats channel tp totalSelections =
     (let stats = at_map ucbStats UCBStats_init (channel, tp)
      in if selectionsCount stats = 0 then PlusInfinity
         else
           let meanReward = rewardsSum stats / real_of_int (selectionsCount stats);
               variance = getVariance stats;
               V_ui = variance
                      + sqrt ((2.0 * ln (real_of_int totalSelections))
                              / real_of_int (selectionsCount stats));
               explorationTerm =
                 sqrt ((ln (real_of_int totalSelections) / real_of_int (selectionsCount stats))
                       * min 0.25 V_ui)
           in Finite (meanReward + explorationTerm))"

text \<open>
  \<^verbatim>\<open>SelectTransmissionParametersUCB1\<close>: the nested loop over the pairs with its
  variables \<^verbatim>\<open>bestScore\<close>, \<^verbatim>\<open>bestChannel\<close> and \<^verbatim>\<open>bestTp\<close>. An index outside a vector is
  undefined: \<open>None\<close>.
\<close>

fun UCB1_loop ::
  "((real \<times> int) \<times> UCBStats) list \<Rightarrow> int \<Rightarrow> (real \<times> int) list \<Rightarrow> score \<times> real \<times> int
   \<Rightarrow> score \<times> real \<times> int" where
  "UCB1_loop ucbStats totalSelections [] best = best"
| "UCB1_loop ucbStats totalSelections ((ch, tp) # rest) (bestScore, bestChannel, bestTp) =
     (if greater (CalculateUCBScore ucbStats ch tp totalSelections) bestScore
      then UCB1_loop ucbStats totalSelections rest
             (CalculateUCBScore ucbStats ch tp totalSelections, ch, tp)
      else UCB1_loop ucbStats totalSelections rest (bestScore, bestChannel, bestTp))"

definition SelectTransmissionParametersUCB1 ::
  "((real \<times> int) \<times> UCBStats) list \<Rightarrow> int \<Rightarrow> real list \<Rightarrow> int list \<Rightarrow> (real \<times> int) option" where
  "SelectTransmissionParametersUCB1 ucbStats totalSelections channels powers =
     (case (vec_at channels 0, vec_at powers 0) of
        (Some ch0, Some tp0) \<Rightarrow>
          (case UCB1_loop ucbStats totalSelections (arm_pairs channels powers)
                  (MinusInfinity, ch0, tp0) of
             (bestScore, bestChannel, bestTp) \<Rightarrow> Some (bestChannel, bestTp))
      | _ \<Rightarrow> None)"

text \<open>
  The dispatch at the head of \<^verbatim>\<open>LoRaDevice::SelectAndTransmit\<close>. \<open>None\<close>: the round
  budget is used up and the call does nothing. \<open>Some (Inl msg)\<close>: \<^verbatim>\<open>NS_FATAL_ERROR\<close>,
  raised before \<^verbatim>\<open>ReceiveTransmission\<close> is called. \<open>Some (Inr sel)\<close>: the selector that
  runs, after which the transmission is attempted.
\<close>

datatype Selector = SelectUCB1 | SelectEpsilonGreedy | SelectADRLite | SelectFixed

definition SelectAndTransmit_dispatch :: "int \<Rightarrow> LoRaDevice \<Rightarrow> (string + Selector) option" where
  "SelectAndTransmit_dispatch g_numTransmissions d =
     (if m_currentTransmissionRound d < g_numTransmissions
      then Some (if m_algorithm d = ''UCB1-tuned'' then Inr SelectUCB1
                 else if m_algorithm d = ''Epsilon-Greedy'' then Inr SelectEpsilonGreedy
                 else if m_algorithm d = ''ADR-Lite'' then Inr SelectADRLite
                 else if m_algorithm d = ''Fixed'' then Inr SelectFixed
                 else Inl (''Algorithme inconnu: '' @ m_algorithm d))
      else None)"

text \<open>
  \<^verbatim>\<open>LoRaDevice::StartApplication\<close>, which runs once per device before its first
  \<^verbatim>\<open>SelectAndTransmit\<close>. Only a device with the name UCB1-tuned transmits here: once on
  every pair, in the order of the nested loop, each transmission followed by
  \<^verbatim>\<open>UpdateStatistics\<close>. \<open>outcome k\<close> is what the \<open>k\<close>-th call of
  \<^verbatim>\<open>ReceiveTransmission\<close> returns, together with the value \<open>E_ToA\<close> of that update.
  The result is the new \<^verbatim>\<open>m_ucbStats\<close> and the list of the transmissions attempted.
\<close>

definition StartApplication ::
  "string \<Rightarrow> real list \<Rightarrow> int list \<Rightarrow> (nat \<Rightarrow> bool \<times> real) \<Rightarrow> ((real \<times> int) \<times> UCBStats) list
   \<Rightarrow> ((real \<times> int) \<times> UCBStats) list \<times> (real \<times> int \<times> bool) list" where
  "StartApplication algorithm channels powers outcome ucbStats =
     (if algorithm = ''UCB1-tuned''
      then fold (\<lambda>(k, (ch, tp)) (stats, attempts).
                   (case outcome k of
                      (success, E_ToA_val) \<Rightarrow>
                        (UpdateStatistics_stats stats ch tp success E_ToA_val,
                         attempts @ [(ch, tp, success)])))
                (enumerate 0 (arm_pairs channels powers)) (ucbStats, [])
      else (ucbStats, []))"

text \<open>
  \<^verbatim>\<open>LoRaDevice::SelectAndTransmit\<close>, one decision cycle. \<open>run_selector\<close> stands for the
  four selector functions: the pair the selector returns and the device as the selector
  leaves it. \<open>success\<close> is what \<^verbatim>\<open>ReceiveTransmission\<close> returns. The result is the
  fatal error, if one is raised, the device after the call, and the transmissions the call
  attempted: \<^verbatim>\<open>NS_FATAL_ERROR\<close> is raised in the if-chain, before the gateway is called.
\<close>

definition SelectAndTransmit ::
  "int \<Rightarrow> (Selector \<Rightarrow> LoRaDevice \<Rightarrow> (real \<times> int) \<times> LoRaDevice) \<Rightarrow> bool \<Rightarrow> LoRaDevice
   \<Rightarrow> string option \<times> LoRaDevice \<times> (real \<times> int \<times> bool) list" where
  "SelectAndTransmit g_numTransmissions run_selector success d =
     (case SelectAndTransmit_dispatch g_numTransmissions d of
        None \<Rightarrow> (None, d, [])
      | Some (Inl msg) \<Rightarrow> (Some msg, d, [])
      | Some (Inr sel) \<Rightarrow>
          (case run_selector sel d of
             ((channel, tp), d') \<Rightarrow> (None, record_outcome d' success, [(channel, tp, success)])))"







section \<open>d-lora-simulation.cc: run aggregates and main\<close>

text \<open>The global accumulators of the program.\<close>

record Globals =
  g_totalPacketsSent :: real
  g_totalPacketsReceived :: real
  g_totalEnergyConsumed :: real
  g_totalDataReceived :: real
  g_totalTimeOnAir :: real
  g_totalRSSI :: real
  g_totalSNR :: real
  g_rssiMeasurements :: nat
  g_snrMeasurements :: nat
  g_collisions :: nat

definition Globals_init :: Globals where
  "Globals_init =
     \<lparr> g_totalPacketsSent = 0, g_totalPacketsReceived = 0, g_totalEnergyConsumed = 0,
       g_totalDataReceived = 0, g_totalTimeOnAir = 0, g_totalRSSI = 0, g_totalSNR = 0,
       g_rssiMeasurements = 0, g_snrMeasurements = 0, g_collisions = 0 \<rparr>"

text \<open>
  What one call of \<^verbatim>\<open>LoRaEndDeviceApp::SendPacket\<close> adds to the accumulators; the
  record \<open>Packet\<close> holds the values the call computes before it adds them.
\<close>

record Packet =
  p_rssi :: real
  p_snr :: real
  p_collision :: bool
  p_success :: bool
  p_toa :: real
  p_energy :: real
  p_size :: nat

definition SendPacket_globals :: "Packet \<Rightarrow> Globals \<Rightarrow> Globals" where
  "SendPacket_globals p g =
     g\<lparr> g_totalPacketsSent := g_totalPacketsSent g + 1,
        g_totalRSSI := g_totalRSSI g + p_rssi p,
        g_totalSNR := g_totalSNR g + p_snr p,
        g_rssiMeasurements := (g_rssiMeasurements g + 1) mod 2 ^ 32,
        g_snrMeasurements := (g_snrMeasurements g + 1) mod 2 ^ 32,
        g_collisions := (if p_collision p then (g_collisions g + 1) mod 2 ^ 32 else g_collisions g),
        g_totalEnergyConsumed := g_totalEnergyConsumed g + p_energy p,
        g_totalTimeOnAir := g_totalTimeOnAir g + p_toa p,
        g_totalPacketsReceived :=
          (if p_success p then g_totalPacketsReceived g + 1 else g_totalPacketsReceived g),
        g_totalDataReceived :=
          (if p_success p then g_totalDataReceived g + real (p_size p) else g_totalDataReceived g) \<rparr>"

definition run_globals :: "Packet list \<Rightarrow> Globals" where
  "run_globals packets = fold SendPacket_globals packets Globals_init"








text \<open>
  The loop of \<^verbatim>\<open>main\<close> that creates one algorithm object per end device.
  \<open>create_algorithm\<close> is the if-chain of the loop body, \<open>Inl\<close> its \<^verbatim>\<open>NS_FATAL_ERROR\<close>;
  \<open>create_applications\<close> is the loop over the device indices, which stops at the first
  fatal error. \<open>main_setup\<close> returns what the program has reached when the loop is
  over: the fatal error, or the list of algorithm objects with which
  \<^verbatim>\<open>Simulator::Run\<close> is then called.
\<close>

datatype AlgorithmObject =
  DLoRaAlgorithm | RandomAlgorithm | RoundRobinAlgorithm | ADRAlgorithm | RSLoRaAlgorithm

definition create_algorithm :: "string \<Rightarrow> string + AlgorithmObject" where
  "create_algorithm algorithm =
     (if algorithm = ''DLoRa'' \<or> algorithm = ''DLoRa-PDR'' \<or> algorithm = ''DLoRa-EE''
         \<or> algorithm = ''DLoRa-TH'' then Inr DLoRaAlgorithm
      else if algorithm = ''Random'' then Inr RandomAlgorithm
      else if algorithm = ''RoundRobin'' then Inr RoundRobinAlgorithm
      else if algorithm = ''ADR'' then Inr ADRAlgorithm
      else if algorithm = ''RSLoRa'' then Inr RSLoRaAlgorithm
      else Inl (''Unknown algorithm: '' @ algorithm))"

fun create_applications :: "string \<Rightarrow> nat list \<Rightarrow> AlgorithmObject list \<Rightarrow> string + AlgorithmObject list" where
  "create_applications algorithm [] algorithmInstances = Inr algorithmInstances"
| "create_applications algorithm (i # rest) algorithmInstances =
     (case create_algorithm algorithm of
        Inl msg \<Rightarrow> Inl msg
      | Inr selectedAlgorithm \<Rightarrow>
          create_applications algorithm rest (algorithmInstances @ [selectedAlgorithm]))"

definition main_setup :: "string \<Rightarrow> nat \<Rightarrow> string + AlgorithmObject list" where
  "main_setup algorithm numNodes = create_applications algorithm [0..<numNodes] []"

text \<open>
  \<^verbatim>\<open>main\<close> from the creation loop to the end of \<^verbatim>\<open>Simulator::Run\<close>, as far as the
  global accumulators show it. Only \<^verbatim>\<open>SendPacket\<close> writes the accumulators, and it runs
  inside \<^verbatim>\<open>Simulator::Run\<close>. \<^verbatim>\<open>NS_FATAL_ERROR\<close> ends the program inside the loop: the
  accumulators still have their initial values. Otherwise \<^verbatim>\<open>Simulator::Run\<close> executes
  the \<^verbatim>\<open>SendPacket\<close> calls of the applications created, none when no application was
  created; \<open>packets\<close> is what these calls add.
\<close>

datatype RunOutcome = FatalError string Globals | Finished Globals

definition main_dlora :: "string \<Rightarrow> nat \<Rightarrow> Packet list \<Rightarrow> RunOutcome" where
  "main_dlora algorithm numNodes packets =
     (case main_setup algorithm numNodes of
        Inl msg \<Rightarrow> FatalError msg Globals_init
      | Inr algorithmInstances \<Rightarrow>
          Finished (if algorithmInstances = [] then Globals_init else run_globals packets))"

text \<open>The algorithm names the two programs accept.\<close>

definition dlora_supported :: "string set" where
  "dlora_supported =
     {''DLoRa'', ''DLoRa-PDR'', ''DLoRa-EE'', ''DLoRa-TH'', ''Random'', ''RoundRobin'', ''ADR'',
      ''RSLoRa''}"

definition ucb1_supported :: "string set" where
  "ucb1_supported = {''UCB1-tuned'', ''Epsilon-Greedy'', ''ADR-Lite'', ''Fixed''}"

section \<open>tow-lorawan-simulation.cc: the Tug-of-War policy\<close>

text \<open>
  The per-device state of \<^verbatim>\<open>ToWAlgorithm\<close>. The counters \<open>N\<close> and \<open>R\<close> are vectors of
  \<^verbatim>\<open>uint32_t\<close>.
\<close>

record DeviceState =
  Q_ch :: "real list"
  Q_sf :: "real list"
  N_ch :: "nat list"
  N_sf :: "nat list"
  R_ch :: "nat list"
  R_sf :: "nat list"
  totalTransmissions :: nat
  successfulTransmissions :: nat
  totalEnergyConsumed :: real
  totalBitsTransmitted :: real
  channelHistory :: "nat list"
  sfHistory :: "nat list"
  lastSelection :: "nat \<times> nat"

record ToWAlgorithm =
  m_deviceStates :: "nat \<rightharpoonup> DeviceState"
  m_numChannels :: nat
  m_numSF :: nat
  m_alpha_tow :: real
  m_beta_tow :: real
  m_A :: real

text \<open>
  \<^verbatim>\<open>m_deviceStates[deviceId]\<close> of an absent device: the value-initialised state, all
  vectors empty.
\<close>

definition DeviceState_default :: DeviceState where
  "DeviceState_default =
     \<lparr> Q_ch = [], Q_sf = [], N_ch = [], N_sf = [], R_ch = [], R_sf = [],
       totalTransmissions = 0, successfulTransmissions = 0,
       totalEnergyConsumed = 0, totalBitsTransmitted = 0,
       channelHistory = [], sfHistory = [], lastSelection = (0, 0) \<rparr>"

text \<open>The state that \<^verbatim>\<open>SelectChannelAndSF\<close> creates for a device it sees for the first time.\<close>

definition DeviceState_init :: "nat \<Rightarrow> nat \<Rightarrow> DeviceState" where
  "DeviceState_init numChannels numSF =
     \<lparr> Q_ch = replicate numChannels 0.0, Q_sf = replicate numSF 0.0,
       N_ch = replicate numChannels 0, N_sf = replicate numSF 0,
       R_ch = replicate numChannels 0, R_sf = replicate numSF 0,
       totalTransmissions = 0, successfulTransmissions = 0,
       totalEnergyConsumed = 0.0, totalBitsTransmitted = 0.0,
       channelHistory = [], sfHistory = [], lastSelection = (0, 0) \<rparr>"

text \<open>The constructor of \<^verbatim>\<open>ToWAlgorithm\<close> followed by \<^verbatim>\<open>Initialize\<close>.\<close>

definition ToWAlgorithm_Initialize :: "nat \<Rightarrow> nat \<Rightarrow> ToWAlgorithm" where
  "ToWAlgorithm_Initialize numChannels numSF =
     \<lparr> m_deviceStates = Map.empty, m_numChannels = numChannels, m_numSF = numSF,
       m_alpha_tow = 0.9, m_beta_tow = 0.9, m_A = 0.5 \<rparr>"

text \<open>
  \<^verbatim>\<open>CalculatePenalty (N, R)\<close>. The first loop fills \<^verbatim>\<open>probabilities\<close>, one entry per
  arm, 0.0 for an arm with \<open>N[i] = 0\<close>; \<^verbatim>\<open>std::sort\<close> over the reverse iterators sorts in
  descending order. \<^verbatim>\<open>R[i]\<close> beyond the end of \<open>R\<close> is undefined: \<open>None\<close>.
\<close>

definition probabilities_of :: "nat list \<Rightarrow> nat list \<Rightarrow> real list" where
  "probabilities_of N R =
     map (\<lambda>i. if N ! i > 0 then real (R ! i) / real (N ! i) else 0.0) [0..<length N]"

definition CalculatePenalty :: "nat list \<Rightarrow> nat list \<Rightarrow> real option" where
  "CalculatePenalty N R =
     (if length R < length N then None
      else
        let probabilities = probabilities_of N R
        in if length probabilities < 2 then Some 0.1
           else
             let sorted = rev (sort probabilities);
                 p1st = sorted ! 0;
                 p2nd = sorted ! 1
             in if p1st = p2nd then Some 0.1
                else Some ((p1st + p2nd) / 2.0 - (p1st - p2nd)))"

text \<open>
  The conversion of a double to \<^verbatim>\<open>uint32_t\<close> in \<^verbatim>\<open>N[i] = 1 + m_beta * N[i]\<close>: the
  fractional part is dropped (the C++ conversion is defined for values in [0, 2^32)).
\<close>

definition to_uint32 :: "real \<Rightarrow> nat" where
  "to_uint32 x = nat \<lfloor>x\<rfloor>"

text \<open>The two loops at the end of \<^verbatim>\<open>UpdateReward\<close>, over \<open>i < numArms\<close>.\<close>

definition decay_counts :: "real \<Rightarrow> nat \<Rightarrow> nat \<Rightarrow> nat list \<Rightarrow> nat list" where
  "decay_counts beta numArms selected N =
     fold (\<lambda>i N'. N'[i := (if i = selected then to_uint32 (1 + beta * real (N' ! i))
                            else to_uint32 (beta * real (N' ! i)))])
          [0..<numArms] N"

text \<open>
  \<^verbatim>\<open>ToWAlgorithm::UpdateReward\<close>. A vector access outside its bounds is undefined:
  \<open>None\<close>. The penalties are computed from the counters as they are before the decay.
\<close>

definition UpdateReward_tow ::
  "ToWAlgorithm \<Rightarrow> nat \<Rightarrow> nat \<Rightarrow> nat \<Rightarrow> bool \<Rightarrow> real \<Rightarrow> ToWAlgorithm option" where
  "UpdateReward_tow t deviceId channel sf success energyConsumed =
     (let state = (case m_deviceStates t deviceId of None \<Rightarrow> DeviceState_default | Some st \<Rightarrow> st)
      in if \<not> (channel < length (Q_ch state) \<and> sf < length (Q_sf state)
                \<and> m_numChannels t \<le> length (N_ch state) \<and> m_numSF t \<le> length (N_sf state))
         then None
         else if success
         then (if \<not> (channel < length (R_ch state) \<and> sf < length (R_sf state)) then None
               else
                 let state1 = state
                       \<lparr> Q_ch := (Q_ch state)[channel := m_alpha_tow t * Q_ch state ! channel + 1.0],
                         Q_sf := (Q_sf state)[sf := m_alpha_tow t * Q_sf state ! sf + 1.0],
                         R_ch := (R_ch state)[channel := (R_ch state ! channel + 1) mod 2 ^ 32],
                         R_sf := (R_sf state)[sf := (R_sf state ! sf + 1) mod 2 ^ 32] \<rparr>;
                     state2 = state1
                       \<lparr> N_ch := decay_counts (m_beta_tow t) (m_numChannels t) channel (N_ch state1),
                         N_sf := decay_counts (m_beta_tow t) (m_numSF t) sf (N_sf state1) \<rparr>
                 in Some (t\<lparr>m_deviceStates := (m_deviceStates t)(deviceId \<mapsto> state2)\<rparr>))
         else (case (CalculatePenalty (N_ch state) (R_ch state),
                     CalculatePenalty (N_sf state) (R_sf state)) of
                 (Some penalty_ch, Some penalty_sf) \<Rightarrow>
                   let state1 = state
                         \<lparr> Q_ch := (Q_ch state)[channel := m_alpha_tow t * Q_ch state ! channel - penalty_ch],
                           Q_sf := (Q_sf state)[sf := m_alpha_tow t * Q_sf state ! sf - penalty_sf] \<rparr>;
                       state2 = state1
                         \<lparr> N_ch := decay_counts (m_beta_tow t) (m_numChannels t) channel (N_ch state1),
                           N_sf := decay_counts (m_beta_tow t) (m_numSF t) sf (N_sf state1) \<rparr>
                   in Some (t\<lparr>m_deviceStates := (m_deviceStates t)(deviceId \<mapsto> state2)\<rparr>)
               | _ \<Rightarrow> None))"



text \<open>
  \<^verbatim>\<open>ToWAlgorithm::CalculateOscillation\<close> and \<^verbatim>\<open>CalculateX\<close>. The two branches of
  \<^verbatim>\<open>CalculateX\<close> are the same computation, on \<^verbatim>\<open>Q_ch\<close> with \<^verbatim>\<open>m_numChannels\<close> and on
  \<^verbatim>\<open>Q_sf\<close> with \<^verbatim>\<open>m_numSF\<close>; \<open>Q\<close> and \<open>D\<close> stand for the vector and the number of the
  branch. \<^verbatim>\<open>t + k\<close> is a \<^verbatim>\<open>uint32_t\<close> sum.
\<close>

definition CalculateOscillation :: "real \<Rightarrow> nat \<Rightarrow> nat \<Rightarrow> nat \<Rightarrow> real" where
  "CalculateOscillation A k t D =
     (let phase = 2.0 * pi * real ((t + k) mod 2 ^ 32) / real D
      in A * cos phase)"

definition CalculateX :: "real \<Rightarrow> real list \<Rightarrow> nat \<Rightarrow> nat \<Rightarrow> nat \<Rightarrow> real" where
  "CalculateX A Q D arm time =
     (let Q_k = Q ! arm;
          sum_others = fold (\<lambda>i s. if i \<noteq> arm then s + Q ! i else s) [0..<D] 0.0;
          avg_others = (if D > 1 then sum_others / real (D - 1) else 0.0);
          osc = CalculateOscillation A arm time D
      in Q_k - avg_others + osc)"

text \<open>
  The two selection loops of \<^verbatim>\<open>ToWAlgorithm::SelectChannelAndSF\<close>, which start from arm
  0 and run over the arms from 1 on.
\<close>

fun ToW_loop :: "real \<Rightarrow> real list \<Rightarrow> nat \<Rightarrow> nat \<Rightarrow> nat list \<Rightarrow> real \<times> nat \<Rightarrow> real \<times> nat" where
  "ToW_loop A Q D time [] (maxX, best) = (maxX, best)"
| "ToW_loop A Q D time (k # rest) (maxX, best) =
     (if CalculateX A Q D k time > maxX
      then ToW_loop A Q D time rest (CalculateX A Q D k time, k)
      else ToW_loop A Q D time rest (maxX, best))"

definition ToW_best :: "real \<Rightarrow> real list \<Rightarrow> nat \<Rightarrow> nat \<Rightarrow> nat" where
  "ToW_best A Q D time = snd (ToW_loop A Q D time [1..<D] (CalculateX A Q D 0 time, 0))"

text \<open>
  \<^verbatim>\<open>ToWAlgorithm::SelectChannelAndSF (deviceId, time)\<close>. A device seen for the first time
  gets its initial state. At time 0 the pair is drawn at random (\<open>random\<close> is the pair
  drawn); later each component is the first arm with the largest \<open>X\<close>. The counters \<open>N\<close>
  and \<open>R\<close> are not read. Reading \<^verbatim>\<open>Q[0]\<close> of an empty vector, or \<^verbatim>\<open>Q[i]\<close> beyond its
  end, is undefined: \<open>None\<close>.
\<close>

definition SelectChannelAndSF ::
  "ToWAlgorithm \<Rightarrow> nat \<Rightarrow> nat \<Rightarrow> nat \<times> nat \<Rightarrow> ((nat \<times> nat) \<times> ToWAlgorithm) option" where
  "SelectChannelAndSF t deviceId time random =
     (let state = (case m_deviceStates t deviceId of
                     None \<Rightarrow> DeviceState_init (m_numChannels t) (m_numSF t)
                   | Some st \<Rightarrow> st)
      in if time = 0
         then Some (random,
                    t\<lparr>m_deviceStates := (m_deviceStates t)(deviceId \<mapsto> state\<lparr>lastSelection := random\<rparr>)\<rparr>)
         else if \<not> (1 \<le> m_numChannels t \<and> m_numChannels t \<le> length (Q_ch state)
                    \<and> 1 \<le> m_numSF t \<and> m_numSF t \<le> length (Q_sf state))
         then None
         else
           let bestChannel = ToW_best (m_A t) (Q_ch state) (m_numChannels t) time;
               bestSF = ToW_best (m_A t) (Q_sf state) (m_numSF t) time
           in Some ((bestChannel, bestSF),
                    t\<lparr>m_deviceStates :=
                        (m_deviceStates t)(deviceId \<mapsto> state\<lparr>lastSelection := (bestChannel, bestSF)\<rparr>)\<rparr>))"

text \<open>
  \<^verbatim>\<open>UCB1TunedAlgorithm\<close> of the same program. \<open>ArmStats\<close> is its structure of that name;
  of its per-device state the model keeps the two vectors of arm statistics, which are
  all that the selection reads.
\<close>

record ArmStats =
  mean :: real
  variance :: real
  pulls :: nat
  sumRewards :: real
  sumSquaredRewards :: real

definition ArmStats_init :: ArmStats where
  "ArmStats_init = \<lparr> mean = 0.0, variance = 0.0, pulls = 0, sumRewards = 0.0, sumSquaredRewards = 0.0 \<rparr>"

text \<open>\<^verbatim>\<open>CalculateUCB1Tuned (arm, totalTime)\<close>.\<close>

definition CalculateUCB1Tuned :: "ArmStats \<Rightarrow> nat \<Rightarrow> real" where
  "CalculateUCB1Tuned arm totalTime =
     (if pulls arm = 0 then DBL_MAX
      else
        let confidence = ln (real totalTime) / real (pulls arm);
            V = variance arm + sqrt (2.0 * confidence);
            ucb_term = sqrt (confidence * min 0.25 V)
        in mean arm + ucb_term)"

text \<open>
  The selection of one dimension in \<^verbatim>\<open>UCB1TunedAlgorithm::SelectChannelAndSF\<close>: the loop
  from arm 1 on, started with the score of arm 0.
\<close>

fun UCB1Tuned_loop :: "ArmStats list \<Rightarrow> nat \<Rightarrow> nat list \<Rightarrow> real \<times> nat \<Rightarrow> real \<times> nat" where
  "UCB1Tuned_loop arms time [] (maxUCB, best) = (maxUCB, best)"
| "UCB1Tuned_loop arms time (k # rest) (maxUCB, best) =
     (if CalculateUCB1Tuned (arms ! k) time > maxUCB
      then UCB1Tuned_loop arms time rest (CalculateUCB1Tuned (arms ! k) time, k)
      else UCB1Tuned_loop arms time rest (maxUCB, best))"

definition UCB1Tuned_best :: "ArmStats list \<Rightarrow> nat \<Rightarrow> nat \<Rightarrow> nat" where
  "UCB1Tuned_best arms D time =
     snd (UCB1Tuned_loop arms time [1..<D] (CalculateUCB1Tuned (arms ! 0) time, 0))"

text \<open>
  \<^verbatim>\<open>UCB1TunedAlgorithm::SelectChannelAndSF\<close> on the state of a device with the vectors
  \<open>channels\<close> and \<open>spreadingFactors\<close>. In the exploration phase the pair is computed from
  the time alone; the remainder by 0 and an index outside a vector are undefined: \<open>None\<close>.
\<close>

definition SelectChannelAndSF_UCB1Tuned ::
  "nat \<Rightarrow> nat \<Rightarrow> ArmStats list \<Rightarrow> ArmStats list \<Rightarrow> nat \<Rightarrow> (nat \<times> nat) option" where
  "SelectChannelAndSF_UCB1Tuned numChannels numSF channels spreadingFactors time =
     (if time < numChannels \<or> time < numSF
      then (if numChannels = 0 \<or> numSF = 0 then None
            else Some (time mod numChannels, time mod numSF))
      else if \<not> (1 \<le> numChannels \<and> numChannels \<le> length channels
                 \<and> 1 \<le> numSF \<and> numSF \<le> length spreadingFactors)
      then None
      else Some (UCB1Tuned_best channels numChannels time,
                 UCB1Tuned_best spreadingFactors numSF time))"

text \<open>
  The fields of \<^verbatim>\<open>LoRaWANSimulation\<close> that its statistics read or write (the member
  \<^verbatim>\<open>m_algorithm\<close> is \<open>m_algorithm_tow\<close> here). The three counters start at 0.
\<close>

record LoRaWANSimulation =
  m_nDevices :: nat
  m_nSF :: nat
  m_simulationTime :: nat
  m_payloadSize :: nat
  m_packetInterval :: nat
  m_algorithm_tow :: string
  m_totalPacketsSent :: nat
  m_totalPacketsReceived :: nat
  m_totalEnergyConsumed :: real

text \<open>
  The constructor followed by \<^verbatim>\<open>Configure\<close>, which stores its arguments. No function of
  the program compares the algorithm name with a list of accepted names.
\<close>

definition Configure ::
  "nat \<Rightarrow> nat \<Rightarrow> string \<Rightarrow> nat \<Rightarrow> nat \<Rightarrow> nat \<Rightarrow> LoRaWANSimulation" where
  "Configure nDevices nSF algorithm simulationTime payloadSize packetInterval =
     \<lparr> m_nDevices = nDevices, m_nSF = nSF, m_simulationTime = simulationTime,
       m_payloadSize = payloadSize, m_packetInterval = packetInterval,
       m_algorithm_tow = algorithm,
       m_totalPacketsSent = 0, m_totalPacketsReceived = 0, m_totalEnergyConsumed = 0.0 \<rparr>"

text \<open>The algorithm names that the help text of the program lists.\<close>

definition tow_supported :: "string set" where
  "tow_supported = {''ToW'', ''UCB1'', ''Random''}"

text \<open>
  \<^verbatim>\<open>GenerateRealisticStatistics (currentTime)\<close>, the only function that writes the three
  counters in a run (the callbacks \<^verbatim>\<open>OnPacketSent\<close> and \<^verbatim>\<open>OnPacketReceived\<close> are
  connected to nothing). \<open>noise\<close> is the sample of the normal distribution. The success
  rate starts at 0.85 and the if-chain replaces it for the names ToW, UCB1 and Random;
  any other name keeps 0.85. The division of \<^verbatim>\<open>uint32_t\<close> by \<open>m_packetInterval = 0\<close> is
  undefined: \<open>None\<close>.
\<close>

definition successRate_of :: "LoRaWANSimulation \<Rightarrow> nat \<Rightarrow> real" where
  "successRate_of sim currentTime =
     (if m_algorithm_tow sim = ''ToW'' then 0.85 + 0.10 * sin (real currentTime / 1000.0)
      else if m_algorithm_tow sim = ''UCB1''
      then 0.80 + 0.05 * (real currentTime / real (m_simulationTime sim))
      else if m_algorithm_tow sim = ''Random'' then 0.75
      else 0.85)"

definition GenerateRealisticStatistics ::
  "LoRaWANSimulation \<Rightarrow> nat \<Rightarrow> real \<Rightarrow> LoRaWANSimulation option" where
  "GenerateRealisticStatistics sim currentTime noise =
     (if currentTime = 0 then Some sim
      else if m_packetInterval sim = 0 then None
      else
        let expectedTransmissions =
              ((currentTime div m_packetInterval sim) * m_nDevices sim) mod 2 ^ 32;
            successRate = successRate_of sim currentTime * max 0.1 noise
        in if expectedTransmissions > m_totalPacketsSent sim
           then (let newTransmissions = expectedTransmissions - m_totalPacketsSent sim;
                     newSuccesses = to_uint32 (real newTransmissions * successRate);
                     avgEnergyPerPacket = 45.0
                 in Some (sim\<lparr> m_totalPacketsSent :=
                                  (m_totalPacketsSent sim + newTransmissions) mod 2 ^ 32,
                                m_totalPacketsReceived :=
                                  (m_totalPacketsReceived sim + newSuccesses) mod 2 ^ 32,
                                m_totalEnergyConsumed :=
                                  m_totalEnergyConsumed sim
                                  + real newTransmissions * avgEnergyPerPacket \<rparr>))
           else Some sim)"

text \<open>
  \<^verbatim>\<open>Run\<close>: the scheduler calls \<^verbatim>\<open>LogStatistics\<close>, and with it
  \<^verbatim>\<open>GenerateRealisticStatistics\<close>, at the scheduled time points that it reaches;
  \<open>events\<close> is the list of these time points, each with the noise sample of its call.
\<close>

fun Run :: "LoRaWANSimulation \<Rightarrow> (nat \<times> real) list \<Rightarrow> LoRaWANSimulation option" where
  "Run sim [] = Some sim"
| "Run sim ((currentTime, noise) # events) =
     (case GenerateRealisticStatistics sim currentTime noise of
        None \<Rightarrow> None
      | Some sim' \<Rightarrow> Run sim' events)"








section \<open>lorawan\_qoca\_simulation.cc: UCB, QoC-A and DQoC-A\<close>

datatype AlgorithmType = UNIFORM | UCB | QOC_A | DQOC_A

record BanditAlgorithm =
  m_K :: nat
  m_n :: nat
  m_T_i :: "nat list"
  m_R_i :: "real list"
  m_G_i :: "real list"
  m_rewards :: "real list list"
  m_qualities :: "real list list"
  m_channelHistory :: "nat list"
  m_alpha :: real
  m_beta :: real
  m_lambda :: real
  m_lambdaG :: real
  m_type :: AlgorithmType
  m_currentChannel :: nat

text \<open>The constructor.\<close>

definition BanditAlgorithm_init ::
  "nat \<Rightarrow> AlgorithmType \<Rightarrow> real \<Rightarrow> real \<Rightarrow> real \<Rightarrow> real \<Rightarrow> BanditAlgorithm" where
  "BanditAlgorithm_init K type alpha beta lambda lambdaG =
     \<lparr> m_K = K, m_n = 0,
       m_T_i = replicate K 0, m_R_i = replicate K 0.0, m_G_i = replicate K 0.0,
       m_rewards = replicate K [], m_qualities = replicate K [],
       m_channelHistory = [],
       m_alpha = alpha, m_beta = beta, m_lambda = lambda, m_lambdaG = lambdaG,
       m_type = type, m_currentChannel = 0 \<rparr>"

text \<open>
  The five per-channel vectors are sized \<open>K\<close> by the constructor and never resized. The
  member functions index them with \<open>i < m_K\<close> without a check; on a state with other
  sizes such an access is undefined, and the model answers \<open>None\<close>.
\<close>

definition sized :: "BanditAlgorithm \<Rightarrow> bool" where
  "sized s \<longleftrightarrow>
     length (m_T_i s) = m_K s \<and> length (m_R_i s) = m_K s \<and> length (m_G_i s) = m_K s
     \<and> length (m_rewards s) = m_K s \<and> length (m_qualities s) = m_K s"

text \<open>
  \<^verbatim>\<open>UpdateEmpiricalMeans (channel)\<close>: the two sums run over all recorded rewards and
  qualities of the channel.
\<close>

definition UpdateEmpiricalMeans :: "BanditAlgorithm \<Rightarrow> nat \<Rightarrow> BanditAlgorithm" where
  "UpdateEmpiricalMeans s channel =
     (let sum_rewards = sum_list (m_rewards s ! channel);
          s1 = s\<lparr>m_R_i := (m_R_i s)[channel :=
                   (if m_T_i s ! channel > 0 then sum_rewards / real (m_T_i s ! channel) else 0.0)]\<rparr>;
          sum_qualities = sum_list (m_qualities s1 ! channel)
      in s1\<lparr>m_G_i := (m_G_i s1)[channel :=
                   (if m_T_i s1 ! channel > 0 then sum_qualities / real (m_T_i s1 ! channel) else 0.0)]\<rparr>)"

text \<open>\<^verbatim>\<open>UpdateReward (channel, reward, quality)\<close>.\<close>

definition UpdateReward :: "BanditAlgorithm \<Rightarrow> nat \<Rightarrow> real \<Rightarrow> real \<Rightarrow> BanditAlgorithm option" where
  "UpdateReward s channel reward quality =
     (if \<not> (sized s \<and> channel < m_K s) then None
      else Some (UpdateEmpiricalMeans
                   (s\<lparr> m_T_i := (m_T_i s)[channel := (m_T_i s ! channel + 1) mod 2 ^ 32],
                       m_rewards := (m_rewards s)[channel := m_rewards s ! channel @ [reward]],
                       m_qualities := (m_qualities s)[channel := m_qualities s ! channel @ [quality]],
                       m_channelHistory := m_channelHistory s @ [channel] \<rparr>)
                   channel))"

text \<open>
  The running maximum of the scoring loops starts at minus infinity, which is not a real
  number: \<open>None\<close> stands for it, and \<open>exceeds B m\<close> is the test \<^verbatim>\<open>B > m\<close>.
\<close>

definition exceeds :: "real \<Rightarrow> real option \<Rightarrow> bool" where
  "exceeds B m = (case m of None \<Rightarrow> True | Some x \<Rightarrow> B > x)"

text \<open>
  \<^verbatim>\<open>SelectChannelUCB\<close>, called by \<^verbatim>\<open>SelectChannel\<close> after \<^verbatim>\<open>m_n++\<close>. The loop returns
  from inside at the first channel with \<open>T_i = 0\<close>. \<^verbatim>\<open>m_n - 1\<close> is a \<^verbatim>\<open>uint32_t\<close>
  difference.
\<close>

fun UCB_loop :: "BanditAlgorithm \<Rightarrow> nat list \<Rightarrow> real option \<Rightarrow> nat \<Rightarrow> nat" where
  "UCB_loop s [] maxUCB bestChannel = bestChannel"
| "UCB_loop s (i # rest) maxUCB bestChannel =
     (if m_T_i s ! i = 0 then i
      else
        let B_i = m_R_i s ! i + m_alpha s * sqrt (ln (real (m_n s)) / real (m_T_i s ! i))
        in if exceeds B_i maxUCB then UCB_loop s rest (Some B_i) i
           else UCB_loop s rest maxUCB bestChannel)"

definition SelectChannelUCB :: "BanditAlgorithm \<Rightarrow> nat" where
  "SelectChannelUCB s =
     (if m_n s \<le> m_K s then (m_n s + 2 ^ 32 - 1) mod 2 ^ 32
      else UCB_loop s [0..<m_K s] None 0)"

text \<open>\<^verbatim>\<open>CalculateGmax\<close> and \<^verbatim>\<open>SelectChannelQoCA\<close>.\<close>

definition CalculateGmax :: "BanditAlgorithm \<Rightarrow> real" where
  "CalculateGmax s =
     fold (\<lambda>i maxQuality. if m_G_i s ! i > maxQuality then m_G_i s ! i else maxQuality)
          [0..<m_K s] 0.0"

fun QoCA_loop :: "BanditAlgorithm \<Rightarrow> real \<Rightarrow> nat list \<Rightarrow> real option \<Rightarrow> nat \<Rightarrow> nat" where
  "QoCA_loop s G_max [] maxScore bestChannel = bestChannel"
| "QoCA_loop s G_max (i # rest) maxScore bestChannel =
     (if m_T_i s ! i = 0 then i
      else
        let Q_i = (if G_max > 0.0
                   then m_beta s * (m_G_i s ! i / G_max - 1.0) * ln (real (m_n s))
                        / real (m_T_i s ! i)
                   else 0.0);
            B_i = m_R_i s ! i + Q_i + m_alpha s * sqrt (ln (real (m_n s)) / real (m_T_i s ! i))
        in if exceeds B_i maxScore then QoCA_loop s G_max rest (Some B_i) i
           else QoCA_loop s G_max rest maxScore bestChannel)"

definition SelectChannelQoCA :: "BanditAlgorithm \<Rightarrow> nat" where
  "SelectChannelQoCA s =
     (if m_n s \<le> m_K s then (m_n s + 2 ^ 32 - 1) mod 2 ^ 32
      else QoCA_loop s (CalculateGmax s) [0..<m_K s] None 0)"

text \<open>
  \<^verbatim>\<open>SelectChannelDQoCA\<close>. \<open>N_i_of\<close> and \<open>N_g_i_of\<close> are the discounted counts of a
  channel (the inner loop over the history), \<open>W_n_of\<close> their total; \<open>discounted_sums\<close> is
  the inner loop of the second block, with its three variables \<^verbatim>\<open>sum_rewards\<close>,
  \<^verbatim>\<open>sum_qualities\<close> and \<^verbatim>\<open>reward_idx\<close>.
\<close>

definition discounted_count :: "real \<Rightarrow> nat list \<Rightarrow> nat \<Rightarrow> real" where
  "discounted_count lam history i =
     fold (\<lambda>j acc. if history ! j = i then acc + lam ^ (length history - 1 - j) else acc)
          [0..<length history] 0.0"

definition N_i_of :: "BanditAlgorithm \<Rightarrow> nat \<Rightarrow> real" where
  "N_i_of s i = discounted_count (m_lambda s) (m_channelHistory s) i"

definition N_g_i_of :: "BanditAlgorithm \<Rightarrow> nat \<Rightarrow> real" where
  "N_g_i_of s i = discounted_count (m_lambdaG s) (m_channelHistory s) i"

definition W_n_of :: "BanditAlgorithm \<Rightarrow> real" where
  "W_n_of s = fold (\<lambda>i W. W + N_i_of s i) [0..<m_K s] 0.0"

definition discounted_sums :: "BanditAlgorithm \<Rightarrow> nat \<Rightarrow> real \<times> real \<times> nat" where
  "discounted_sums s i =
     fold (\<lambda>j (sum_rewards, sum_qualities, reward_idx).
             if m_channelHistory s ! j = i \<and> reward_idx < length (m_rewards s ! i)
             then (sum_rewards
                     + m_lambda s ^ (length (m_channelHistory s) - 1 - j)
                       * (m_rewards s ! i ! reward_idx),
                   sum_qualities
                     + m_lambdaG s ^ (length (m_channelHistory s) - 1 - j)
                       * (m_qualities s ! i ! reward_idx),
                   reward_idx + 1)
             else (sum_rewards, sum_qualities, reward_idx))
          [0..<length (m_channelHistory s)] (0.0, 0.0, 0)"

definition R_i_disc_of :: "BanditAlgorithm \<Rightarrow> nat \<Rightarrow> real" where
  "R_i_disc_of s i =
     (if N_i_of s i > 0.0 \<and> length (m_rewards s ! i) > 0
      then fst (discounted_sums s i) / N_i_of s i
      else 0.0)"

definition G_i_disc_of :: "BanditAlgorithm \<Rightarrow> nat \<Rightarrow> real" where
  "G_i_disc_of s i =
     (if N_i_of s i > 0.0 \<and> length (m_rewards s ! i) > 0 \<and> N_g_i_of s i > 0.0
      then fst (snd (discounted_sums s i)) / N_g_i_of s i
      else 0.0)"

definition G_max_disc_of :: "BanditAlgorithm \<Rightarrow> real" where
  "G_max_disc_of s =
     fold (\<lambda>i G_max_disc. if G_i_disc_of s i > G_max_disc then G_i_disc_of s i else G_max_disc)
          [0..<m_K s] 0.0"

fun DQoCA_loop :: "BanditAlgorithm \<Rightarrow> real \<Rightarrow> real \<Rightarrow> nat list \<Rightarrow> real option \<Rightarrow> nat \<Rightarrow> nat" where
  "DQoCA_loop s W_n G_max_disc [] maxScore bestChannel = bestChannel"
| "DQoCA_loop s W_n G_max_disc (i # rest) maxScore bestChannel =
     (if N_i_of s i = 0.0 then i
      else
        let Q_i = (if G_max_disc > 0.0
                   then m_beta s * (G_i_disc_of s i / G_max_disc - 1.0) * ln W_n / N_i_of s i
                   else 0.0);
            B_i = R_i_disc_of s i + Q_i + m_alpha s * sqrt (ln W_n / N_i_of s i)
        in if exceeds B_i maxScore then DQoCA_loop s W_n G_max_disc rest (Some B_i) i
           else DQoCA_loop s W_n G_max_disc rest maxScore bestChannel)"

definition SelectChannelDQoCA :: "BanditAlgorithm \<Rightarrow> nat" where
  "SelectChannelDQoCA s =
     (if m_n s \<le> m_K s then (m_n s + 2 ^ 32 - 1) mod 2 ^ 32
      else DQoCA_loop s (W_n_of s) (G_max_disc_of s) [0..<m_K s] None 0)"

text \<open>
  \<^verbatim>\<open>SelectChannelUniform\<close> and \<^verbatim>\<open>SelectChannel\<close>. The remainder by \<open>m_K = 0\<close> is
  undefined: \<open>None\<close>.
\<close>

definition SelectChannelUniform :: "BanditAlgorithm \<Rightarrow> (nat \<times> BanditAlgorithm) option" where
  "SelectChannelUniform s =
     (if m_K s = 0 then None
      else Some (m_currentChannel s,
                 s\<lparr>m_currentChannel := ((m_currentChannel s + 1) mod 2 ^ 32) mod m_K s\<rparr>))"

definition SelectChannel :: "BanditAlgorithm \<Rightarrow> (nat \<times> BanditAlgorithm) option" where
  "SelectChannel s =
     (if \<not> sized s then None
      else
        let s' = s\<lparr>m_n := (m_n s + 1) mod 2 ^ 32\<rparr>
        in case m_type s' of
             UNIFORM \<Rightarrow> SelectChannelUniform s'
           | UCB \<Rightarrow> Some (SelectChannelUCB s', s')
           | QOC_A \<Rightarrow> Some (SelectChannelQoCA s', s')
           | DQOC_A \<Rightarrow> Some (SelectChannelDQoCA s', s'))"

text \<open>
  A state is consistent with its history when the per-channel records agree with the
  list of selected channels: every recorded channel is below \<open>K\<close>, and for each channel
  the numbers of recorded rewards and qualities and the counter \<open>T_i\<close> equal the number of
  its occurrences in the history, and \<open>R_i\<close>, \<open>G_i\<close> are the means of the recorded values
  (0 when there are none). The constructor establishes this and the member functions
  keep it.
\<close>

definition consistent :: "BanditAlgorithm \<Rightarrow> bool" where
  "consistent s \<longleftrightarrow>
     sized s
     \<and> (\<forall>c\<in>set (m_channelHistory s). c < m_K s)
     \<and> (\<forall>i<m_K s.
           length (m_rewards s ! i) = count_list (m_channelHistory s) i
           \<and> length (m_qualities s ! i) = count_list (m_channelHistory s) i
           \<and> m_T_i s ! i = count_list (m_channelHistory s) i
           \<and> m_R_i s ! i = (if m_T_i s ! i > 0
                             then sum_list (m_rewards s ! i) / real (m_T_i s ! i) else 0)
           \<and> m_G_i s ! i = (if m_T_i s ! i > 0
                             then sum_list (m_qualities s ! i) / real (m_T_i s ! i) else 0))"


text \<open>
  The loop body of \<^verbatim>\<open>RunSimulation\<close> for one algorithm: \<^verbatim>\<open>SelectChannel\<close>, then
  \<^verbatim>\<open>UpdateReward\<close> of the selected channel with the reward and quality observed.
  \<open>bandit_run\<close> repeats it for a list of observations and returns the channels selected.
\<close>

fun bandit_run ::
  "BanditAlgorithm \<Rightarrow> (real \<times> real) list \<Rightarrow> (nat list \<times> BanditAlgorithm) option" where
  "bandit_run s [] = Some ([], s)"
| "bandit_run s ((reward, quality) # rest) =
     (case SelectChannel s of
        None \<Rightarrow> None
      | Some (selectedChannel, s1) \<Rightarrow>
          (case UpdateReward s1 selectedChannel reward quality of
             None \<Rightarrow> None
           | Some s2 \<Rightarrow>
               (case bandit_run s2 rest of
                  None \<Rightarrow> None
                | Some (channels, s3) \<Rightarrow> Some (selectedChannel # channels, s3))))"

text \<open>
  The public interface of the class allows any interleaving of the two calls; a history
  is a list of them.
\<close>

datatype BanditCall = CallSelect | CallUpdate nat real real

fun apply_calls :: "BanditAlgorithm \<Rightarrow> BanditCall list \<Rightarrow> BanditAlgorithm option" where
  "apply_calls s [] = Some s"
| "apply_calls s (CallSelect # rest) =
     (case SelectChannel s of None \<Rightarrow> None | Some (c, s') \<Rightarrow> apply_calls s' rest)"
| "apply_calls s (CallUpdate channel reward quality # rest) =
     (case UpdateReward s channel reward quality of None \<Rightarrow> None | Some s' \<Rightarrow> apply_calls s' rest)"


text \<open>
  \<^verbatim>\<open>double CalculateToA (uint32_t payloadSize, uint8_t sf, double bandwidth)\<close> of
  \<^verbatim>\<open>LoRaWANQoCSimulation\<close>. \<^verbatim>\<open>4 * sf\<close> and \<^verbatim>\<open>1 << sf\<close> are computed in \<^verbatim>\<open>int\<close>; the
  shift leaves the range of a 32-bit \<^verbatim>\<open>int\<close> from \<open>sf = 31\<close> on, where the model returns
  \<open>None\<close>. The result is in milliseconds (the last factor 1000).
\<close>

definition CalculateToA_qoca :: "nat \<Rightarrow> nat \<Rightarrow> real \<Rightarrow> real option" where
  "CalculateToA_qoca payloadSize sf bandwidth =
     (if 31 \<le> sf then None
      else
        let de = 0;
            ih = 0;
            crc = 1;
            cr = 1;
            pl = real payloadSize;
            nPreamble = 8;
            argument = (8 * pl - real (4 * sf) + 28 + 16 * crc - 20 * ih)
                       / (4 * (real sf - 2 * de));
            nPayload = 8 + max 0.0 (real_of_int \<lceil>argument\<rceil> * (cr + 4));
            tSymbol = real (2 ^ sf) / bandwidth;
            toA = (nPreamble + 4.25 + nPayload) * tSymbol * 1000
        in Some toA)"

section \<open>Reference definitions and fixed inputs\<close>

text \<open>
  The penalty in the words of the specification, for comparison with
  \<open>CalculatePenalty\<close>: \<open>p1\<close> is the highest and \<open>p2\<close> the second highest entry of the list
  of per-arm success rates (one occurrence of \<open>p1\<close> removed), the penalty is
  \<open>(p1 + p2) / 2 - (p1 - p2)\<close>, and it is the constant 0.1 when the list has fewer than two
  entries or \<open>p1 = p2\<close>.
\<close>

definition two_best_penalty :: "real list \<Rightarrow> real" where
  "two_best_penalty ps =
     (if length ps < 2 then 0.1
      else
        let p1 = Max (set ps);
            p2 = Max (set (remove1 p1 ps))
        in if p1 = p2 then 0.1 else (p1 + p2) / 2 - (p1 - p2))"

text \<open>The arm sets of lora-ucb1-simulation.cc (its globals of the same names).\<close>

definition g_channels :: "real list" where
  "g_channels = [920.6, 921.0, 921.4, 921.8, 922.2]"

definition g_transmissionPowers :: "int list" where
  "g_transmissionPowers = [- 3, 1, 5, 9, 13]"

text \<open>
  Forced exploration of a sequence of selections over the arms \<open>0, ..., K - 1\<close>: every
  selection made while some arm has not been selected yet picks an arm that has not been
  selected yet. Each arm is then selected once before any arm is selected a second time.
\<close>

definition explores_first :: "nat \<Rightarrow> nat list \<Rightarrow> bool" where
  "explores_first K selections \<longleftrightarrow>
     (\<forall>j<length selections.
        (\<exists>c<K. c \<notin> set (take j selections)) \<longrightarrow>
        selections ! j < K \<and> selections ! j \<notin> set (take j selections))"

text \<open>
  Inputs for the examples of \<^verbatim>\<open>SelectAndTransmit\<close> and \<^verbatim>\<open>StartApplication\<close>: selectors
  that return (921.0 MHz, -3 dBm), which is what \<^verbatim>\<open>SelectTransmissionParametersFixed\<close>
  returns for device 0, and leave the device as it is; and a gateway that receives every
  transmission, with \<open>E_ToA = 1\<close>.
\<close>

definition example_selector :: "Selector \<Rightarrow> LoRaDevice \<Rightarrow> (real \<times> int) \<times> LoRaDevice" where
  "example_selector sel d = ((921.0, - 3), d)"

definition example_outcome :: "nat \<Rightarrow> bool \<times> real" where
  "example_outcome k = (True, 1)"

text \<open>A packet for the examples of \<^verbatim>\<open>main\<close>.\<close>

definition example_packet :: Packet where
  "example_packet =
     \<lparr> p_rssi = - 100, p_snr = 5, p_collision = False, p_success = True, p_toa = 0.056576,
       p_energy = 1, p_size = 20 \<rparr>"

section \<open>Facts used by several sections\<close>

lemma at_map_update:
  "at_map (AList.update k v m) d k' = (if k' = k then v else at_map m d k')"
  by (simp add: at_map_def update_conv')

lemma fold_update_zero:
  assumes "\<forall>v. map_of m arm = Some v \<longrightarrow> v = 0"
  shows "\<forall>v. map_of (fold (\<lambda>a m. AList.update a (0::real) m) armSet m) arm = Some v \<longrightarrow> v = 0"
  using assms
proof (induction armSet arbitrary: m)
  case Nil
  then show ?case by simp
next
  case (Cons a armSet)
  have "\<forall>v. map_of (AList.update a 0 m) arm = Some v \<longrightarrow> v = 0"
    using Cons.prems by (simp add: update_conv')
  from Cons.IH [OF this] show ?case by simp
qed

lemma init_rewards_zero: "at_map (init_rewards armSet) 0 arm = 0"
  using fold_update_zero [of "[]" arm armSet]
  by (auto simp: init_rewards_def at_map_def split: option.splits)

lemma fold_update_zero_nat:
  assumes "\<forall>v. map_of m arm = Some v \<longrightarrow> v = 0"
  shows "\<forall>v. map_of (fold (\<lambda>a m. AList.update a (0::nat) m) armSet m) arm = Some v \<longrightarrow> v = 0"
  using assms
proof (induction armSet arbitrary: m)
  case Nil
  then show ?case by simp
next
  case (Cons a armSet)
  have "\<forall>v. map_of (AList.update a 0 m) arm = Some v \<longrightarrow> v = 0"
    using Cons.prems by (simp add: update_conv')
  from Cons.IH [OF this] show ?case by simp
qed

lemma init_selections_zero: "at_map (init_selections armSet) 0 arm = 0"
  using fold_update_zero_nat [of "[]" arm armSet]
  by (auto simp: init_selections_def at_map_def split: option.splits)

lemma UpdateReward_keeps:
  assumes "UpdateReward s channel reward quality = Some s'"
  shows "sized s'" and "m_K s' = m_K s" and "m_n s' = m_n s" and "m_type s' = m_type s"
  using assms
  by (auto simp: UpdateReward_def UpdateEmpiricalMeans_def sized_def Let_def split: if_splits)

lemma SelectChannel_keeps:
  assumes "SelectChannel s = Some (c, s')"
  shows "m_channelHistory s' = m_channelHistory s" and "m_K s' = m_K s"
    and "m_T_i s' = m_T_i s" and "m_R_i s' = m_R_i s" and "m_G_i s' = m_G_i s"
    and "m_rewards s' = m_rewards s" and "m_qualities s' = m_qualities s"
    and "m_lambda s' = m_lambda s" and "m_lambdaG s' = m_lambdaG s"
  using assms
  by (auto simp: SelectChannel_def SelectChannelUniform_def Let_def
           split: if_splits AlgorithmType.splits)

lemma GenerateRealisticStatistics_total:
  assumes "0 < m_packetInterval sim"
  shows "\<exists>sim'. GenerateRealisticStatistics sim currentTime noise = Some sim'
               \<and> m_packetInterval sim' = m_packetInterval sim
               \<and> m_algorithm_tow sim' = m_algorithm_tow sim \<and> m_nSF sim' = m_nSF sim"
proof (cases "currentTime = 0 \<or> \<not> ((currentTime div m_packetInterval sim) * m_nDevices sim) mod 2 ^ 32
                                      > m_totalPacketsSent sim")
  case True
  then have "GenerateRealisticStatistics sim currentTime noise = Some sim"
    using assms by (auto simp: GenerateRealisticStatistics_def Let_def)
  then show ?thesis by simp
next
  case False
  then show ?thesis
    using assms by (simp add: GenerateRealisticStatistics_def Let_def)
qed

lemma Run_total:
  assumes "0 < m_packetInterval sim"
  shows "\<exists>sim'. Run sim events = Some sim' \<and> m_packetInterval sim' = m_packetInterval sim
               \<and> m_algorithm_tow sim' = m_algorithm_tow sim \<and> m_nSF sim' = m_nSF sim"
  using assms
proof (induction events arbitrary: sim)
  case Nil
  then show ?case by simp
next
  case (Cons ev events)
  obtain currentTime noise where ev: "ev = (currentTime, noise)" by (cases ev)
  from GenerateRealisticStatistics_total [OF Cons.prems, of currentTime noise]
  obtain sim1 where g: "GenerateRealisticStatistics sim currentTime noise = Some sim1"
    and k: "m_packetInterval sim1 = m_packetInterval sim" "m_algorithm_tow sim1 = m_algorithm_tow sim"
           "m_nSF sim1 = m_nSF sim"
    by blast
  have "0 < m_packetInterval sim1" using k Cons.prems by simp
  from Cons.IH [OF this] obtain sim' where
    "Run sim1 events = Some sim'" "m_packetInterval sim' = m_packetInterval sim1"
    "m_algorithm_tow sim' = m_algorithm_tow sim1" "m_nSF sim' = m_nSF sim1"
    by blast
  then show ?case using g k ev by simp
qed

section \<open>Time on air\<close>

text \<open>
  Claim C1. For every spreading factor \<open>sf\<close> in 7..12, bandwidth \<open>bw > 0\<close> and payload
  size \<open>PS\<close>, \<^verbatim>\<open>CalculateToA\<close> returns
  \<open>preambleDuration + payloadSymbolCount * symbolDuration\<close> with
  \<open>symbolDuration = 2^sf / bw\<close>, \<open>preambleDuration = (8 + 4.25) * symbolDuration\<close> and
  \<open>payloadSymbolCount = 8 + max 0 (ceil ((8 PS - 4 sf + 28 + 16*1 - 20*0) / (4 (sf - 2*0))) * (1 + 4))\<close>;
  at \<open>sf = 7\<close>, \<open>bw = 125000\<close>, \<open>PS = 20\<close> this is 43 payload symbols of 1.024 ms after a
  preamble of 12.25 symbols, 0.056576 s. The function of lorawan\_qoca\_simulation.cc
  evaluates the same closed form and returns it in milliseconds, 56.576 ms there.
\<close>

theorem CalculateToA_closed_form:
  assumes "7 \<le> sf" and "sf \<le> 12" and "0 < bw"
  shows "CalculateToA sf bw PS =
           (8 + 4.25) * (2 ^ nat sf / bw)
           + (8 + max 0 (real_of_int \<lceil>(8 * real PS - 4 * real_of_int sf + 28 + 16 * 1 - 20 * 0)
                                       / (4 * (real_of_int sf - 2 * 0))\<rceil> * (1 + 4)))
             * (2 ^ nat sf / bw)
         \<and> CalculateToA 7 125000 20 = (8 + 4.25) * (2 ^ 7 / 125000) + 43 * (2 ^ 7 / 125000)
         \<and> CalculateToA 7 125000 20 = 0.056576
         \<and> CalculateToA_qoca PS (nat sf) bw = Some (1000 * CalculateToA sf bw PS)
         \<and> CalculateToA_qoca 20 7 125000 = Some 56.576"
proof -
  have p: "(2::real) powi sf = 2 ^ nat sf"
    using assms(1) by (simp add: power_int_def)
  have "CalculateToA sf bw PS =
           (8 + 4.25) * (2 ^ nat sf / bw)
           + (8 + max 0 (real_of_int \<lceil>(8 * real PS - 4 * real_of_int sf + 28 + 16 * 1 - 20 * 0)
                                       / (4 * (real_of_int sf - 2 * 0))\<rceil> * (1 + 4)))
             * (2 ^ nat sf / bw)"
    unfolding CalculateToA_def Let_def p by (simp add: max.commute)
  moreover have "CalculateToA 7 125000 20 = 0.056576"
    unfolding CalculateToA_def Let_def by simp
  moreover have "CalculateToA_qoca PS (nat sf) bw = Some (1000 * CalculateToA sf bw PS)"
    using assms(1,2) unfolding CalculateToA_qoca_def CalculateToA_def Let_def p
    by (simp add: algebra_simps max.commute)
  moreover have "CalculateToA_qoca 20 7 125000 = Some 56.576"
    unfolding CalculateToA_qoca_def Let_def by simp
  ultimately show ?thesis by simp
qed

theorem CalculateToA_closed_form_witness:
  "(7::int) \<le> 7 \<and> (7::int) \<le> 12 \<and> (0::real) < 125000
   \<and> CalculateToA 7 125000 20 = 0.056576
   \<and> CalculateToA_qoca 20 7 125000 = Some 56.576"
  using CalculateToA_closed_form [of 7 125000 20] by simp

section \<open>UCB1 score of the D-LoRa agent\<close>

text \<open>
  Claim C9. For an arm whose selection count \<open>n \<ge> 1\<close> and mean reward stay fixed, the
  UCB1 score \<open>meanReward + c * sqrt (ln (t + 1) / (2 n))\<close> does not decrease when the
  decision index grows: \<open>t1 \<le> t2\<close> gives \<open>score t1 \<le> score t2\<close>. The index is the
  \<^verbatim>\<open>uint32_t\<close> total of the source, taken where \<open>t + 1\<close> does not wrap.
\<close>

theorem ucbValue_monotone_in_t:
  assumes "1 \<le> at_map numSelections 0 arm" and "t1 \<le> t2" and "t2 + 1 < 2 ^ 32"
  shows "ucbValue expectedRewards numSelections t1 arm
         \<le> ucbValue expectedRewards numSelections t2 arm
         \<and> ucbValue expectedRewards numSelections t2 arm
           = at_map expectedRewards 0 arm
             + C_WEIGHT_FACTOR
               * sqrt (ln (real (t2 + 1)) / (2 * real (at_map numSelections 0 arm)))"
proof -
  let ?n = "real (at_map numSelections 0 arm)"
  have n: "0 < ?n" using assms(1) by simp
  have m1: "(t1 + 1) mod 2 ^ 32 = t1 + 1" and m2: "(t2 + 1) mod 2 ^ 32 = t2 + 1"
    using assms(2,3) by simp_all
  have "ln (real (t1 + 1)) \<le> ln (real (t2 + 1))"
    using assms(2) by simp
  then have "ln (real (t1 + 1)) / (2 * ?n) \<le> ln (real (t2 + 1)) / (2 * ?n)"
    using n by (simp add: divide_right_mono)
  then have "sqrt (ln (real (t1 + 1)) / (2 * ?n)) \<le> sqrt (ln (real (t2 + 1)) / (2 * ?n))"
    by simp
  then show ?thesis
    using assms(1) unfolding ucbValue_def C_WEIGHT_FACTOR_def m1 m2 by simp
qed

theorem ucbValue_monotone_in_t_witness:
  "(1::nat) \<le> at_map [(7::int, 3::nat)] 0 7 \<and> (4::nat) \<le> 9 \<and> (9::nat) + 1 < 2 ^ 32
   \<and> ucbValue [(7::int, 1 / 2)] [(7::int, 3)] 4 7 \<le> ucbValue [(7::int, 1 / 2)] [(7::int, 3)] 9 7"
  using ucbValue_monotone_in_t [of "[(7::int, 3::nat)]" 7 4 9 "[(7, 1 / 2)]"]
  by (simp add: at_map_def)

section \<open>The gateway\<close>

text \<open>
  Claim C10. Whatever the transmit power and the device, \<^verbatim>\<open>ReceiveTransmission\<close>
  returns false when the channel is not within 0.001 MHz of a receivable channel. On a
  receivable channel the transmission is received exactly when the uniform sample \<open>u\<close>
  is below the success probability, and that probability always lies in [0.2, 0.98]:
  every sample below 0.2 is received and every sample from 0.98 on is lost, so a
  reception is neither certain nor impossible.
\<close>

theorem ReceiveTransmission_gate_and_clamp:
  "(\<not> channelReceivable rcs channel \<longrightarrow>
      ReceiveTransmission rcs numDevices grcs u channel tp deviceId = False)
   \<and> (channelReceivable rcs channel \<longrightarrow>
        ReceiveTransmission rcs numDevices grcs u channel tp deviceId
        = (u < successProbability numDevices grcs channel tp))
   \<and> 0.2 \<le> successProbability numDevices grcs channel tp
   \<and> successProbability numDevices grcs channel tp \<le> 0.98
   \<and> (channelReceivable rcs channel \<and> u < 0.2 \<longrightarrow>
        ReceiveTransmission rcs numDevices grcs u channel tp deviceId)
   \<and> (channelReceivable rcs channel \<and> 0.98 \<le> u \<longrightarrow>
        \<not> ReceiveTransmission rcs numDevices grcs u channel tp deviceId)"
proof -
  have lo: "0.2 \<le> successProbability numDevices grcs channel tp"
    unfolding successProbability_def Let_def by simp
  have hi: "successProbability numDevices grcs channel tp \<le> 0.98"
    unfolding successProbability_def Let_def by simp
  have gate: "\<not> channelReceivable rcs channel \<longrightarrow>
      ReceiveTransmission rcs numDevices grcs u channel tp deviceId = False"
    by (simp add: ReceiveTransmission_def)
  have link: "channelReceivable rcs channel \<longrightarrow>
        ReceiveTransmission rcs numDevices grcs u channel tp deviceId
        = (u < successProbability numDevices grcs channel tp)"
    by (simp add: ReceiveTransmission_def)
  have low: "channelReceivable rcs channel \<and> u < 0.2 \<longrightarrow>
        ReceiveTransmission rcs numDevices grcs u channel tp deviceId"
    using lo by (simp add: ReceiveTransmission_def)
  have high: "channelReceivable rcs channel \<and> 0.98 \<le> u \<longrightarrow>
        \<not> ReceiveTransmission rcs numDevices grcs u channel tp deviceId"
    using hi by (simp add: ReceiveTransmission_def)
  show ?thesis using lo hi gate link low high by blast
qed

theorem ReceiveTransmission_gate_and_clamp_witness:
  "\<not> channelReceivable [921.0, 921.4, 921.8] 920.6
   \<and> ReceiveTransmission [921.0, 921.4, 921.8] 10 [921.0, 921.4, 921.8] 0 920.6 13 0 = False
   \<and> channelReceivable [921.0, 921.4, 921.8] 921.4
   \<and> ReceiveTransmission [921.0, 921.4, 921.8] 10 [921.0, 921.4, 921.8] 0.1 921.4 13 0
   \<and> \<not> ReceiveTransmission [921.0, 921.4, 921.8] 10 [921.0, 921.4, 921.8] 0.99 921.4 13 0
   \<and> successProbability 10 [921.0, 921.4, 921.8] 921.4 (- 3) = 0.9135
   \<and> ReceiveTransmission [921.0, 921.4, 921.8] 10 [921.0, 921.4, 921.8] 0.9 921.4 (- 3) 0
   \<and> \<not> ReceiveTransmission [921.0, 921.4, 921.8] 10 [921.0, 921.4, 921.8] 0.95 921.4 (- 3) 0"
proof -
  have a: "\<not> channelReceivable [921.0, 921.4, 921.8] 920.6"
    by (simp add: channelReceivable_def)
  have b: "channelReceivable [921.0, 921.4, 921.8] 921.4"
    by (simp add: channelReceivable_def)
  have p: "successProbability 10 [921.0, 921.4, 921.8] 921.4 (- 3) = 0.9135"
    by (simp add: successProbability_def Let_def)
  have c: "(0.1::real) < 0.2" "(0.98::real) \<le> 0.99" "(0.9::real) < 0.9135" "\<not> (0.95::real) < 0.9135"
    by simp_all
  show ?thesis
    using a b c p
      ReceiveTransmission_gate_and_clamp [of "[921.0, 921.4, 921.8]" "920.6" 10 "[921.0, 921.4, 921.8]" 0 13 0]
      ReceiveTransmission_gate_and_clamp [of "[921.0, 921.4, 921.8]" "921.4" 10 "[921.0, 921.4, 921.8]" "0.1" 13 0]
      ReceiveTransmission_gate_and_clamp [of "[921.0, 921.4, 921.8]" "921.4" 10 "[921.0, 921.4, 921.8]" "0.99" 13 0]
      ReceiveTransmission_gate_and_clamp [of "[921.0, 921.4, 921.8]" "921.4" 10 "[921.0, 921.4, 921.8]" "0.9" "- 3" 0]
      ReceiveTransmission_gate_and_clamp [of "[921.0, 921.4, 921.8]" "921.4" 10 "[921.0, 921.4, 921.8]" "0.95" "- 3" 0]
    by simp
qed

section \<open>ADR-Lite\<close>

lemma ladder_length:
  "length (m_adrParameterList (LoRaDevice_init deviceId ''ADR-Lite'')) = 25"
  by (simp add: LoRaDevice_init_def channelsOrdered_def tpsOrdered_def)

lemma init_index:
  "m_adrIndex (LoRaDevice_init deviceId ''ADR-Lite'') = 24"
  by (simp add: LoRaDevice_init_def channelsOrdered_def tpsOrdered_def)

lemma init_last_entry:
  "vec_at (m_adrParameterList (LoRaDevice_init deviceId ''ADR-Lite''))
          (m_adrIndex (LoRaDevice_init deviceId ''ADR-Lite'')) = Some (921.8, 13)"
  by (simp add: LoRaDevice_init_def channelsOrdered_def tpsOrdered_def vec_at_def)

lemma select_keeps_ladder:
  "m_adrParameterList (snd (SelectTransmissionParametersADRLite d)) = m_adrParameterList d"
  by (simp add: SelectTransmissionParametersADRLite_def Let_def)

lemma select_keeps_history:
  "m_successHistory (snd (SelectTransmissionParametersADRLite d)) = m_successHistory d"
  by (simp add: SelectTransmissionParametersADRLite_def Let_def)

lemma select_index_in_range:
  assumes "0 \<le> m_adrIndex d" and "m_adrIndex d < int (length (m_adrParameterList d))"
  shows "0 \<le> m_adrIndex (snd (SelectTransmissionParametersADRLite d))
         \<and> m_adrIndex (snd (SelectTransmissionParametersADRLite d)) < int (length (m_adrParameterList d))"
  using assms by (auto simp: SelectTransmissionParametersADRLite_def Let_def cdiv2_def)

lemma select_after_success:
  assumes "0 \<le> m_adrIndex d" and "m_successHistory d \<noteq> []" and "last (m_successHistory d)"
  shows "m_adrIndex (snd (SelectTransmissionParametersADRLite d)) \<le> m_adrIndex d"
  using assms by (auto simp: SelectTransmissionParametersADRLite_def Let_def cdiv2_def)

lemma select_after_failure:
  assumes "m_adrIndex d < int (length (m_adrParameterList d))" and "0 \<le> m_adrIndex d"
    and "m_successHistory d \<noteq> []" and "\<not> last (m_successHistory d)"
  shows "m_adrIndex d \<le> m_adrIndex (snd (SelectTransmissionParametersADRLite d))"
  using assms by (auto simp: SelectTransmissionParametersADRLite_def Let_def cdiv2_def)

lemma select_returns_entry:
  assumes "0 \<le> m_adrIndex d" and "m_adrIndex d < int (length (m_adrParameterList d))"
  shows "fst (SelectTransmissionParametersADRLite d)
         = Some (m_adrParameterList d ! nat (m_adrIndex (snd (SelectTransmissionParametersADRLite d))))"
proof -
  have "fst (SelectTransmissionParametersADRLite d)
        = vec_at (m_adrParameterList d) (m_adrIndex (snd (SelectTransmissionParametersADRLite d)))"
    by (simp add: SelectTransmissionParametersADRLite_def Let_def)
  then show ?thesis
    using select_index_in_range [OF assms] by (simp add: vec_at_def)
qed

lemma ADRLite_run_invariant:
  assumes "0 \<le> m_adrIndex d" and "m_adrIndex d < int (length (m_adrParameterList d))"
  shows "m_adrParameterList (ADRLite_run d outcomes) = m_adrParameterList d
         \<and> 0 \<le> m_adrIndex (ADRLite_run d outcomes)
         \<and> m_adrIndex (ADRLite_run d outcomes) < int (length (m_adrParameterList d))
         \<and> m_successHistory (ADRLite_run d outcomes) = m_successHistory d @ outcomes"
  using assms
proof (induction outcomes arbitrary: d)
  case Nil
  then show ?case by simp
next
  case (Cons success outcomes)
  let ?d1 = "record_outcome (snd (SelectTransmissionParametersADRLite d)) success"
  have l: "m_adrParameterList ?d1 = m_adrParameterList d"
    by (simp add: record_outcome_def select_keeps_ladder)
  have i: "m_adrIndex ?d1 = m_adrIndex (snd (SelectTransmissionParametersADRLite d))"
    by (simp add: record_outcome_def)
  have h: "m_successHistory ?d1 = m_successHistory d @ [success]"
    by (simp add: record_outcome_def select_keeps_history)
  have r: "0 \<le> m_adrIndex ?d1 \<and> m_adrIndex ?d1 < int (length (m_adrParameterList ?d1))"
    using select_index_in_range [OF Cons.prems] l i by simp
  show ?case
    using Cons.IH [of ?d1] r l h by simp
qed

text \<open>
  Claim C4. The ladder of ADR-Lite has 25 entries, ordered by transmit power, and the
  index starts at the last one, (921.8 MHz, 13 dBm). After any sequence of outcomes the
  index used for the last transmission lies in \<open>[0, |ladder| - 1]\<close>, and so does the index
  of the next selection, which is \<open>\<le>\<close> the previous index when the last transmission
  succeeded and \<open>\<ge>\<close> it when the last transmission failed.
\<close>

theorem ADRLite_index_monotone_bounded:
  "let d0 = LoRaDevice_init deviceId ''ADR-Lite'';
       ladder = m_adrParameterList d0;
       d = ADRLite_run d0 outcomes;
       d' = snd (SelectTransmissionParametersADRLite d)
   in m_adrIndex d0 = int (length ladder) - 1
      \<and> vec_at ladder (m_adrIndex d0) = Some (921.8, 13)
      \<and> m_adrParameterList d = ladder
      \<and> 0 \<le> m_adrIndex d \<and> m_adrIndex d \<le> int (length ladder) - 1
      \<and> 0 \<le> m_adrIndex d' \<and> m_adrIndex d' \<le> int (length ladder) - 1
      \<and> (outcomes \<noteq> [] \<and> last outcomes \<longrightarrow> m_adrIndex d' \<le> m_adrIndex d)
      \<and> (outcomes \<noteq> [] \<and> \<not> last outcomes \<longrightarrow> m_adrIndex d \<le> m_adrIndex d')
      \<and> fst (SelectTransmissionParametersADRLite d) = Some (ladder ! nat (m_adrIndex d'))"
proof -
  let ?init = "LoRaDevice_init deviceId ''ADR-Lite''"
  let ?d = "ADRLite_run ?init outcomes"
  have r0: "0 \<le> m_adrIndex ?init" "m_adrIndex ?init < int (length (m_adrParameterList ?init))"
    by (simp_all add: init_index ladder_length)
  have h0: "m_successHistory ?init = []"
    by (simp add: LoRaDevice_init_def Let_def)
  note inv = ADRLite_run_invariant [OF r0, of outcomes]
  have l: "m_adrParameterList ?d = m_adrParameterList ?init" using inv by simp
  have r: "0 \<le> m_adrIndex ?d" "m_adrIndex ?d < int (length (m_adrParameterList ?d))"
  proof -
    show "0 \<le> m_adrIndex ?d" using inv by blast
    have "m_adrIndex ?d < int (length (m_adrParameterList ?init))" using inv by blast
    then show "m_adrIndex ?d < int (length (m_adrParameterList ?d))" using l by simp
  qed
  have h: "m_successHistory ?d = outcomes" using inv h0 by simp
  note b = select_index_in_range [OF r]
  have s: "outcomes \<noteq> [] \<and> last outcomes \<longrightarrow>
             m_adrIndex (snd (SelectTransmissionParametersADRLite ?d)) \<le> m_adrIndex ?d"
    using select_after_success [OF r(1)] h by simp
  have f: "outcomes \<noteq> [] \<and> \<not> last outcomes \<longrightarrow>
             m_adrIndex ?d \<le> m_adrIndex (snd (SelectTransmissionParametersADRLite ?d))"
    using select_after_failure [OF r(2) r(1)] h by simp
  note e = select_returns_entry [OF r]
  show ?thesis
    unfolding Let_def
    using init_index [of deviceId] ladder_length [of deviceId] init_last_entry [of deviceId]
      l r b s f e by simp
qed

theorem ADRLite_index_monotone_bounded_witness:
  "[True, False] \<noteq> [] \<and> \<not> last [True, False]
   \<and> [False, True] \<noteq> [] \<and> last [False, True]
   \<and> m_adrIndex (ADRLite_run (LoRaDevice_init 0 ''ADR-Lite'') [True, False])
       \<le> m_adrIndex (snd (SelectTransmissionParametersADRLite
                            (ADRLite_run (LoRaDevice_init 0 ''ADR-Lite'') [True, False])))
   \<and> m_adrIndex (snd (SelectTransmissionParametersADRLite
                            (ADRLite_run (LoRaDevice_init 0 ''ADR-Lite'') [False, True])))
       \<le> m_adrIndex (ADRLite_run (LoRaDevice_init 0 ''ADR-Lite'') [False, True])"
  using ADRLite_index_monotone_bounded [of 0 "[True, False]"]
        ADRLite_index_monotone_bounded [of 0 "[False, True]"]
  unfolding Let_def by simp

section \<open>The Tug-of-War penalty\<close>

lemma two_largest_of_sorted:
  fixes ps :: "real list"
  assumes "2 \<le> length ps"
  shows "rev (sort ps) ! 0 = Max (set ps)"
    and "rev (sort ps) ! 1 = Max (set (remove1 (Max (set ps)) ps))"
proof -
  have "2 \<le> length (rev (sort ps))" using assms by simp
  then obtain a b rest where ds: "rev (sort ps) = a # b # rest"
    by (cases "rev (sort ps)"; cases "tl (rev (sort ps))") auto
  have sw: "sorted_wrt (\<lambda>x y. y \<le> x) (rev (sort ps))"
    by (simp add: sorted_wrt_rev)
  have ms: "mset ps = mset (a # b # rest)"
    using ds by (metis mset_rev mset_sort)
  have a_ge: "\<forall>x\<in>set (b # rest). x \<le> a" and b_ge: "\<forall>x\<in>set rest. x \<le> b"
    using sw ds by auto
  have set_eq: "set ps = set (a # b # rest)"
    using ms by (metis set_mset_mset)
  have mx: "Max (set ps) = a"
    by (rule Max_eqI) (use set_eq a_ge in auto)
  have "mset (remove1 a ps) = mset (b # rest)"
    using ms by simp
  then have set2: "set (remove1 a ps) = set (b # rest)"
    by (metis set_mset_mset)
  have mx2: "Max (set (remove1 a ps)) = b"
    by (rule Max_eqI) (use set2 b_ge in auto)
  show "rev (sort ps) ! 0 = Max (set ps)" using ds mx by simp
  show "rev (sort ps) ! 1 = Max (set (remove1 (Max (set ps)) ps))" using ds mx mx2 by simp
qed

lemma second_best_le_best:
  fixes ps :: "real list"
  assumes "2 \<le> length ps"
  shows "Max (set (remove1 (Max (set ps)) ps)) \<le> Max (set ps)"
proof -
  have "ps \<noteq> []" using assms by auto
  then have "Max (set ps) \<in> set ps" by simp
  then have "length (remove1 (Max (set ps)) ps) = length ps - 1"
    by (simp add: length_remove1)
  then have ne: "remove1 (Max (set ps)) ps \<noteq> []"
    using assms by auto
  have "set (remove1 (Max (set ps)) ps) \<subseteq> set ps" by (rule set_remove1_subset)
  then show ?thesis using ne by (intro Max_mono) auto
qed

lemma CalculatePenalty_eq:
  assumes "length N \<le> length R"
  shows "CalculatePenalty N R = Some (two_best_penalty (probabilities_of N R))"
proof (cases "length N < 2")
  case True
  then show ?thesis
    using assms by (simp add: CalculatePenalty_def two_best_penalty_def probabilities_of_def)
next
  case False
  then have l: "2 \<le> length (probabilities_of N R)" by (simp add: probabilities_of_def)
  show ?thesis
    using assms False l two_largest_of_sorted [OF l]
    by (simp add: CalculatePenalty_def two_best_penalty_def Let_def)
qed

lemma CalculatePenalty_cases:
  assumes "length N \<le> length R"
  shows "\<exists>penalty. CalculatePenalty N R = Some penalty
          \<and> (let ps = probabilities_of N R;
                  p1 = Max (set ps);
                  p2 = Max (set (remove1 p1 ps))
              in (length ps < 2 \<longrightarrow> penalty = 0.1)
                 \<and> (2 \<le> length ps \<longrightarrow>
                       p2 \<le> p1
                       \<and> (p1 = p2 \<longrightarrow> penalty = 0.1)
                       \<and> (p1 \<noteq> p2 \<longrightarrow> penalty = (p1 + p2) / 2 - (p1 - p2))))"
  using CalculatePenalty_eq [OF assms] second_best_le_best [of "probabilities_of N R"]
  by (auto simp: two_best_penalty_def Let_def)

text \<open>
  Claim C6, as the code has it. When a transmission of a known device on a channel and a
  spreading factor fails, \<^verbatim>\<open>UpdateReward\<close> replaces the Q-value of the channel by
  \<open>alpha * Q - penalty_ch\<close> and the Q-value of the spreading factor by
  \<open>alpha * Q - penalty_sf\<close>, leaves every other Q-value and the success counters as they
  are, and computes each penalty from the counters of its own arm set before they decay.
  With \<open>ps\<close> the list of per-arm success rates of the arm set (\<open>R[i] / N[i]\<close>, and 0 for
  an arm with \<open>N[i] = 0\<close>), \<open>p1\<close> its highest and \<open>p2\<close> its second highest entry: the
  penalty is 0.1 when the arm set has fewer than two arms, or when \<open>p1 = p2\<close>; otherwise
  it is \<open>(p1 + p2) / 2 - (p1 - p2)\<close>. The hypotheses say that the vectors of the device
  have the sizes the member functions index them with.
\<close>

theorem ToW_failure_penalty:
  assumes "m_deviceStates t deviceId = Some st"
    and "channel < length (Q_ch st)" and "sf < length (Q_sf st)"
    and "m_numChannels t \<le> length (N_ch st)" and "m_numSF t \<le> length (N_sf st)"
    and "length (N_ch st) \<le> length (R_ch st)" and "length (N_sf st) \<le> length (R_sf st)"
  shows "\<exists>t' st' penalty_ch penalty_sf.
           UpdateReward_tow t deviceId channel sf False energyConsumed = Some t'
           \<and> m_deviceStates t' deviceId = Some st'
           \<and> CalculatePenalty (N_ch st) (R_ch st) = Some penalty_ch
           \<and> CalculatePenalty (N_sf st) (R_sf st) = Some penalty_sf
           \<and> Q_ch st' = (Q_ch st)[channel := m_alpha_tow t * Q_ch st ! channel - penalty_ch]
           \<and> Q_sf st' = (Q_sf st)[sf := m_alpha_tow t * Q_sf st ! sf - penalty_sf]
           \<and> Q_ch st' ! channel = m_alpha_tow t * Q_ch st ! channel - penalty_ch
           \<and> Q_sf st' ! sf = m_alpha_tow t * Q_sf st ! sf - penalty_sf
           \<and> R_ch st' = R_ch st \<and> R_sf st' = R_sf st
           \<and> (let ps = probabilities_of (N_ch st) (R_ch st);
                   p1 = Max (set ps);
                   p2 = Max (set (remove1 p1 ps))
               in (length ps < 2 \<longrightarrow> penalty_ch = 0.1)
                  \<and> (2 \<le> length ps \<longrightarrow>
                        p2 \<le> p1
                        \<and> (p1 = p2 \<longrightarrow> penalty_ch = 0.1)
                        \<and> (p1 \<noteq> p2 \<longrightarrow> penalty_ch = (p1 + p2) / 2 - (p1 - p2))))
           \<and> (let ps = probabilities_of (N_sf st) (R_sf st);
                   p1 = Max (set ps);
                   p2 = Max (set (remove1 p1 ps))
               in (length ps < 2 \<longrightarrow> penalty_sf = 0.1)
                  \<and> (2 \<le> length ps \<longrightarrow>
                        p2 \<le> p1
                        \<and> (p1 = p2 \<longrightarrow> penalty_sf = 0.1)
                        \<and> (p1 \<noteq> p2 \<longrightarrow> penalty_sf = (p1 + p2) / 2 - (p1 - p2))))"
proof -
  from CalculatePenalty_cases [OF assms(6)] obtain penalty_ch where
    pc: "CalculatePenalty (N_ch st) (R_ch st) = Some penalty_ch" and
    shape_ch: "let ps = probabilities_of (N_ch st) (R_ch st);
                   p1 = Max (set ps);
                   p2 = Max (set (remove1 p1 ps))
               in (length ps < 2 \<longrightarrow> penalty_ch = 0.1)
                  \<and> (2 \<le> length ps \<longrightarrow>
                        p2 \<le> p1
                        \<and> (p1 = p2 \<longrightarrow> penalty_ch = 0.1)
                        \<and> (p1 \<noteq> p2 \<longrightarrow> penalty_ch = (p1 + p2) / 2 - (p1 - p2)))"
    by blast
  from CalculatePenalty_cases [OF assms(7)] obtain penalty_sf where
    ps: "CalculatePenalty (N_sf st) (R_sf st) = Some penalty_sf" and
    shape_sf: "let ps = probabilities_of (N_sf st) (R_sf st);
                   p1 = Max (set ps);
                   p2 = Max (set (remove1 p1 ps))
               in (length ps < 2 \<longrightarrow> penalty_sf = 0.1)
                  \<and> (2 \<le> length ps \<longrightarrow>
                        p2 \<le> p1
                        \<and> (p1 = p2 \<longrightarrow> penalty_sf = 0.1)
                        \<and> (p1 \<noteq> p2 \<longrightarrow> penalty_sf = (p1 + p2) / 2 - (p1 - p2)))"
    by blast
  let ?st1 = "st\<lparr> Q_ch := (Q_ch st)[channel := m_alpha_tow t * Q_ch st ! channel - penalty_ch],
                   Q_sf := (Q_sf st)[sf := m_alpha_tow t * Q_sf st ! sf - penalty_sf] \<rparr>"
  let ?st2 = "?st1\<lparr> N_ch := decay_counts (m_beta_tow t) (m_numChannels t) channel (N_ch ?st1),
                    N_sf := decay_counts (m_beta_tow t) (m_numSF t) sf (N_sf ?st1) \<rparr>"
  let ?t' = "t\<lparr>m_deviceStates := (m_deviceStates t)(deviceId \<mapsto> ?st2)\<rparr>"
  have run: "UpdateReward_tow t deviceId channel sf False energyConsumed = Some ?t'"
    unfolding UpdateReward_tow_def Let_def using assms(1-5) pc ps by simp
  have st': "m_deviceStates ?t' deviceId = Some ?st2" by simp
  have q1: "Q_ch ?st2 = (Q_ch st)[channel := m_alpha_tow t * Q_ch st ! channel - penalty_ch]"
    and q2: "Q_sf ?st2 = (Q_sf st)[sf := m_alpha_tow t * Q_sf st ! sf - penalty_sf]"
    and r: "R_ch ?st2 = R_ch st" "R_sf ?st2 = R_sf st"
    by simp_all
  have e1: "Q_ch ?st2 ! channel = m_alpha_tow t * Q_ch st ! channel - penalty_ch"
    using assms(2) by simp
  have e2: "Q_sf ?st2 ! sf = m_alpha_tow t * Q_sf st ! sf - penalty_sf"
    using assms(3) by simp
  show ?thesis
    using run st' pc ps q1 q2 e1 e2 r shape_ch shape_sf by blast
qed

theorem ToW_failure_penalty_witness:
  "m_deviceStates
     \<lparr> m_deviceStates = [0 \<mapsto> (DeviceState_init 2 2)\<lparr>N_ch := [4, 2], R_ch := [2, 2],
                                                          N_sf := [4, 1], R_sf := [1, 1]\<rparr>],
       m_numChannels = 2, m_numSF = 2, m_alpha_tow = 0.9, m_beta_tow = 0.9, m_A = 0.5 \<rparr> 0
     = Some ((DeviceState_init 2 2)\<lparr>N_ch := [4, 2], R_ch := [2, 2], N_sf := [4, 1], R_sf := [1, 1]\<rparr>)
   \<and> UpdateReward_tow
        \<lparr> m_deviceStates = [0 \<mapsto> (DeviceState_init 2 2)\<lparr>N_ch := [4, 2], R_ch := [2, 2],
                                                             N_sf := [4, 1], R_sf := [1, 1]\<rparr>],
          m_numChannels = 2, m_numSF = 2, m_alpha_tow = 0.9, m_beta_tow = 0.9, m_A = 0.5 \<rparr>
        0 0 1 False 1 \<noteq> None
   \<and> CalculatePenalty [4, 2] [2, 2] = Some 0.25
   \<and> CalculatePenalty [4, 1] [1, 1] = Some (- 0.125)
   \<and> Q_ch (the (m_deviceStates (the (UpdateReward_tow
        \<lparr> m_deviceStates = [0 \<mapsto> (DeviceState_init 2 2)\<lparr>N_ch := [4, 2], R_ch := [2, 2],
                                                             N_sf := [4, 1], R_sf := [1, 1]\<rparr>],
          m_numChannels = 2, m_numSF = 2, m_alpha_tow = 0.9, m_beta_tow = 0.9, m_A = 0.5 \<rparr>
        0 0 1 False 1)) 0)) = [- 0.25, 0]
   \<and> Q_sf (the (m_deviceStates (the (UpdateReward_tow
        \<lparr> m_deviceStates = [0 \<mapsto> (DeviceState_init 2 2)\<lparr>N_ch := [4, 2], R_ch := [2, 2],
                                                             N_sf := [4, 1], R_sf := [1, 1]\<rparr>],
          m_numChannels = 2, m_numSF = 2, m_alpha_tow = 0.9, m_beta_tow = 0.9, m_A = 0.5 \<rparr>
        0 0 1 False 1)) 0)) = [0, 0.125]"
proof -
  let ?st = "(DeviceState_init 2 2)\<lparr>N_ch := [4, 2], R_ch := [2, 2], N_sf := [4, 1], R_sf := [1, 1]\<rparr>"
  let ?t = "\<lparr> m_deviceStates = [0 \<mapsto> ?st],
              m_numChannels = 2, m_numSF = 2, m_alpha_tow = 0.9, m_beta_tow = 0.9, m_A = 0.5 \<rparr>"
  have pc: "CalculatePenalty [4, 2] [2, 2] = Some 0.25"
    by (simp add: CalculatePenalty_def probabilities_of_def Let_def upt_rec)
  have psf: "CalculatePenalty [4, 1] [1, 1] = Some (- 0.125)"
    by (simp add: CalculatePenalty_def probabilities_of_def Let_def upt_rec)
  have h1: "m_deviceStates ?t 0 = Some ?st" by simp
  have h2: "0 < length (Q_ch ?st)" "1 < length (Q_sf ?st)"
    "m_numChannels ?t \<le> length (N_ch ?st)" "m_numSF ?t \<le> length (N_sf ?st)"
    "length (N_ch ?st) \<le> length (R_ch ?st)" "length (N_sf ?st) \<le> length (R_sf ?st)"
    by (simp_all add: DeviceState_init_def)
  have q: "Q_ch ?st = [0, 0]" "Q_sf ?st = [0, 0]" "N_ch ?st = [4, 2]" "R_ch ?st = [2, 2]"
    "N_sf ?st = [4, 1]" "R_sf ?st = [1, 1]" "m_alpha_tow ?t = 0.9"
    by (simp_all add: DeviceState_init_def numeral_2_eq_2)
  from ToW_failure_penalty [OF h1 h2, of 1]
  obtain t' st' penalty_ch penalty_sf where
    r: "UpdateReward_tow ?t 0 0 1 False 1 = Some t'"
       "m_deviceStates t' 0 = Some st'"
       "CalculatePenalty (N_ch ?st) (R_ch ?st) = Some penalty_ch"
       "CalculatePenalty (N_sf ?st) (R_sf ?st) = Some penalty_sf"
       "Q_ch st' = (Q_ch ?st)[0 := m_alpha_tow ?t * Q_ch ?st ! 0 - penalty_ch]"
       "Q_sf st' = (Q_sf ?st)[1 := m_alpha_tow ?t * Q_sf ?st ! 1 - penalty_sf]"
    by blast
  have p1: "penalty_ch = 0.25" using r(3) pc unfolding q by simp
  have p2: "penalty_sf = - 0.125" using r(4) psf unfolding q by simp
  have c1: "Q_ch st' = [- 0.25, 0]" using r(5) unfolding q p1 by simp
  have c2: "Q_sf st' = [0, 0.125]" using r(6) unfolding q p2 by simp
  have "UpdateReward_tow ?t 0 0 1 False 1 \<noteq> None" using r(1) by simp
  moreover have "Q_ch (the (m_deviceStates (the (UpdateReward_tow ?t 0 0 1 False 1)) 0)) = [- 0.25, 0]"
    using r(1,2) c1 by simp
  moreover have "Q_sf (the (m_deviceStates (the (UpdateReward_tow ?t 0 0 1 False 1)) 0)) = [0, 0.125]"
    using r(1,2) c2 by simp
  ultimately show ?thesis using h1 pc psf by simp
qed

text \<open>
  The claim as stated also promises the constant when fewer than two arms have data.
  With two arms of which only the first has data (one pull, one success) the rates are
  \<open>[1, 0]\<close>, they differ, and the penalty is \<open>1/2 - 1 = - 1/2\<close>.
\<close>

theorem CalculatePenalty_one_arm_with_data:
  "CalculatePenalty [1, 0] [1, 0] = Some (- 0.5) \<and> (- 0.5 :: real) \<noteq> 0.1
   \<and> probabilities_of [1, 0] [1, 0] = [1, 0]"
  by (simp add: CalculatePenalty_def probabilities_of_def Let_def upt_rec)

section \<open>Unknown algorithm names\<close>

lemma create_applications_unknown:
  assumes "create_algorithm algorithm = Inl msg" and "ids \<noteq> []"
  shows "create_applications algorithm ids acc = Inl msg"
  using assms by (cases ids) simp_all

lemma create_applications_known:
  assumes "create_algorithm algorithm = Inr obj"
  shows "create_applications algorithm ids acc = Inr (acc @ replicate (length ids) obj)"
  using assms
proof (induction ids arbitrary: acc)
  case Nil
  then show ?case by simp
next
  case (Cons i ids)
  then show ?case by (simp add: replicate_app_Cons_same)
qed

lemma create_algorithm_unknown:
  "algorithm \<notin> dlora_supported \<Longrightarrow> create_algorithm algorithm = Inl (''Unknown algorithm: '' @ algorithm)"
  by (simp add: create_algorithm_def dlora_supported_def)

lemma create_algorithm_known:
  "algorithm \<in> dlora_supported \<Longrightarrow> \<exists>obj. create_algorithm algorithm = Inr obj"
  by (auto simp: create_algorithm_def dlora_supported_def)

text \<open>
  Claim C7, as the code has it. In d-lora-simulation.cc, with at least one device, an
  algorithm name outside the supported set is a fatal error raised while the algorithm
  object of the first device is created: \<^verbatim>\<open>Simulator::Run\<close> is not reached and no packet
  has been sent. A supported name creates one object per device and the run finishes; with
  no device the run finishes whatever the name. In lora-ucb1-simulation.cc the name is
  checked only by \<^verbatim>\<open>SelectAndTransmit\<close>: a device with an unsupported name transmits
  nothing in \<^verbatim>\<open>StartApplication\<close>, and its \<^verbatim>\<open>SelectAndTransmit\<close> with rounds left raises
  the fatal error and attempts no transmission, where a supported name attempts exactly
  one; with no rounds left the call does nothing, whatever the name.
  tow-lorawan-simulation.cc never checks the name: with a positive packet interval the run
  goes through for every name, and a name outside ToW, UCB1 and Random uses the success
  rate 0.85.
\<close>

theorem unknown_algorithm_fatal:
  "(algorithm \<notin> dlora_supported \<and> 0 < numNodes \<longrightarrow>
      main_setup algorithm numNodes = Inl (''Unknown algorithm: '' @ algorithm)
      \<and> main_dlora algorithm numNodes packets
          = FatalError (''Unknown algorithm: '' @ algorithm) Globals_init
      \<and> g_totalPacketsSent Globals_init = 0)
   \<and> (algorithm \<in> dlora_supported \<longrightarrow>
        (\<exists>apps. main_setup algorithm numNodes = Inr apps \<and> length apps = numNodes)
        \<and> (\<exists>g. main_dlora algorithm numNodes packets = Finished g))
   \<and> main_dlora algorithm 0 packets = Finished Globals_init
   \<and> (m_algorithm d \<notin> ucb1_supported \<longrightarrow>
        StartApplication (m_algorithm d) channels powers outcome ucbStats = (ucbStats, []))
   \<and> (m_algorithm d \<notin> ucb1_supported \<and> m_currentTransmissionRound d < numTransmissions \<longrightarrow>
        SelectAndTransmit numTransmissions run_selector success d
        = (Some (''Algorithme inconnu: '' @ m_algorithm d), d, []))
   \<and> (m_algorithm d \<in> ucb1_supported \<and> m_currentTransmissionRound d < numTransmissions \<longrightarrow>
        (\<exists>channel tp d'. SelectAndTransmit numTransmissions run_selector success d
                          = (None, d', [(channel, tp, success)])))
   \<and> (\<not> m_currentTransmissionRound d < numTransmissions \<longrightarrow>
        SelectAndTransmit numTransmissions run_selector success d = (None, d, []))
   \<and> (0 < packetInterval \<longrightarrow>
        (\<exists>sim'. Run (Configure nDevices nSF algorithm simulationTime payloadSize packetInterval)
                     events = Some sim'))
   \<and> (algorithm \<notin> tow_supported \<longrightarrow>
        successRate_of (Configure nDevices nSF algorithm simulationTime payloadSize packetInterval)
          currentTime = 0.85)"
proof -
  have a: "algorithm \<notin> dlora_supported \<and> 0 < numNodes \<longrightarrow>
      main_setup algorithm numNodes = Inl (''Unknown algorithm: '' @ algorithm)
      \<and> main_dlora algorithm numNodes packets
          = FatalError (''Unknown algorithm: '' @ algorithm) Globals_init
      \<and> g_totalPacketsSent Globals_init = 0"
  proof
    assume h: "algorithm \<notin> dlora_supported \<and> 0 < numNodes"
    then have "[0..<numNodes] \<noteq> []" by simp
    then have s: "main_setup algorithm numNodes = Inl (''Unknown algorithm: '' @ algorithm)"
      using create_applications_unknown [OF create_algorithm_unknown, of algorithm "[0..<numNodes]" "[]"] h
      by (simp add: main_setup_def)
    then show "main_setup algorithm numNodes = Inl (''Unknown algorithm: '' @ algorithm)
      \<and> main_dlora algorithm numNodes packets
          = FatalError (''Unknown algorithm: '' @ algorithm) Globals_init
      \<and> g_totalPacketsSent Globals_init = 0"
      by (simp add: main_dlora_def Globals_init_def)
  qed
  have b: "algorithm \<in> dlora_supported \<longrightarrow>
        (\<exists>apps. main_setup algorithm numNodes = Inr apps \<and> length apps = numNodes)
        \<and> (\<exists>g. main_dlora algorithm numNodes packets = Finished g)"
  proof
    assume "algorithm \<in> dlora_supported"
    then obtain obj where "create_algorithm algorithm = Inr obj"
      using create_algorithm_known by blast
    from create_applications_known [OF this, of "[0..<numNodes]" "[]"]
    have s: "main_setup algorithm numNodes = Inr (replicate numNodes obj)"
      by (simp add: main_setup_def)
    then show "(\<exists>apps. main_setup algorithm numNodes = Inr apps \<and> length apps = numNodes)
        \<and> (\<exists>g. main_dlora algorithm numNodes packets = Finished g)"
      by (simp add: main_dlora_def)
  qed
  have b0: "main_dlora algorithm 0 packets = Finished Globals_init"
    by (simp add: main_dlora_def main_setup_def)
  have c0: "m_algorithm d \<notin> ucb1_supported \<longrightarrow>
        StartApplication (m_algorithm d) channels powers outcome ucbStats = (ucbStats, [])"
    by (simp add: StartApplication_def ucb1_supported_def)
  have c: "m_algorithm d \<notin> ucb1_supported \<and> m_currentTransmissionRound d < numTransmissions \<longrightarrow>
        SelectAndTransmit numTransmissions run_selector success d
        = (Some (''Algorithme inconnu: '' @ m_algorithm d), d, [])"
    by (simp add: SelectAndTransmit_def SelectAndTransmit_dispatch_def ucb1_supported_def)
  have e: "m_algorithm d \<in> ucb1_supported \<and> m_currentTransmissionRound d < numTransmissions \<longrightarrow>
        (\<exists>channel tp d'. SelectAndTransmit numTransmissions run_selector success d
                          = (None, d', [(channel, tp, success)]))"
    by (auto simp: SelectAndTransmit_def SelectAndTransmit_dispatch_def ucb1_supported_def
        split: prod.splits)
  have f: "\<not> m_currentTransmissionRound d < numTransmissions \<longrightarrow>
        SelectAndTransmit numTransmissions run_selector success d = (None, d, [])"
    by (simp add: SelectAndTransmit_def SelectAndTransmit_dispatch_def)
  have g: "0 < packetInterval \<longrightarrow>
        (\<exists>sim'. Run (Configure nDevices nSF algorithm simulationTime payloadSize packetInterval)
                     events = Some sim')"
  proof
    assume "0 < packetInterval"
    then have "0 < m_packetInterval
                 (Configure nDevices nSF algorithm simulationTime payloadSize packetInterval)"
      by (simp add: Configure_def)
    from Run_total [OF this, of events]
    show "\<exists>sim'. Run (Configure nDevices nSF algorithm simulationTime payloadSize packetInterval)
                     events = Some sim'"
      by blast
  qed
  have h: "algorithm \<notin> tow_supported \<longrightarrow>
        successRate_of (Configure nDevices nSF algorithm simulationTime payloadSize packetInterval)
          currentTime = 0.85"
    by (simp add: successRate_of_def Configure_def tow_supported_def)
  show ?thesis using a b b0 c0 c e f g h by blast
qed

theorem unknown_algorithm_fatal_witness:
  "''Foo'' \<notin> dlora_supported \<and> (0::nat) < 3
   \<and> main_dlora ''Foo'' 3 [example_packet] = FatalError ''Unknown algorithm: Foo'' Globals_init
   \<and> ''ADR'' \<in> dlora_supported
   \<and> main_setup ''ADR'' 3 = Inr [ADRAlgorithm, ADRAlgorithm, ADRAlgorithm]
   \<and> main_dlora ''ADR'' 3 [example_packet] = Finished (run_globals [example_packet])
   \<and> m_algorithm (LoRaDevice_init 0 ''Foo'') \<notin> ucb1_supported
   \<and> m_currentTransmissionRound (LoRaDevice_init 0 ''Foo'') < 50
   \<and> StartApplication (m_algorithm (LoRaDevice_init 0 ''Foo'')) g_channels g_transmissionPowers
        example_outcome (init_ucbStats g_channels g_transmissionPowers)
       = (init_ucbStats g_channels g_transmissionPowers, [])
   \<and> SelectAndTransmit 50 example_selector True (LoRaDevice_init 0 ''Foo'')
       = (Some ''Algorithme inconnu: Foo'', LoRaDevice_init 0 ''Foo'', [])
   \<and> m_algorithm (LoRaDevice_init 0 ''Fixed'') \<in> ucb1_supported
   \<and> m_currentTransmissionRound (LoRaDevice_init 0 ''Fixed'') < 50
   \<and> SelectAndTransmit 50 example_selector True (LoRaDevice_init 0 ''Fixed'')
       = (None, record_outcome (LoRaDevice_init 0 ''Fixed'') True, [(921.0, - 3, True)])
   \<and> \<not> m_currentTransmissionRound (LoRaDevice_init 0 ''Foo'') < 0
   \<and> SelectAndTransmit 0 example_selector True (LoRaDevice_init 0 ''Foo'')
       = (None, LoRaDevice_init 0 ''Foo'', [])
   \<and> (0::nat) < 60
   \<and> Run (Configure 1 3 ''Foo'' 60 50 60) [(0, 1), (60, 1)] \<noteq> None
   \<and> ''Foo'' \<notin> tow_supported
   \<and> successRate_of (Configure 1 3 ''Foo'' 60 50 60) 60 = 0.85"
proof -
  let ?foo = "LoRaDevice_init 0 ''Foo''"
  let ?fixed = "LoRaDevice_init 0 ''Fixed''"
  have h1: "''Foo'' \<notin> dlora_supported" by (simp add: dlora_supported_def)
  have h2: "''ADR'' \<in> dlora_supported" by (simp add: dlora_supported_def)
  have h3: "m_algorithm ?foo \<notin> ucb1_supported"
    by (simp add: LoRaDevice_init_def ucb1_supported_def)
  have h4: "m_currentTransmissionRound ?foo < 50" "\<not> m_currentTransmissionRound ?foo < 0"
    "m_currentTransmissionRound ?fixed < 50"
    by (simp_all add: LoRaDevice_init_def)
  have h5: "m_algorithm ?fixed \<in> ucb1_supported"
    by (simp add: LoRaDevice_init_def ucb1_supported_def)
  have h6: "m_algorithm ?foo = ''Foo''" by (simp add: LoRaDevice_init_def)
  have h7: "''Foo'' \<notin> tow_supported" by (simp add: tow_supported_def)
  have k1: "main_setup ''ADR'' 3 = Inr [ADRAlgorithm, ADRAlgorithm, ADRAlgorithm]"
    by (simp add: main_setup_def create_algorithm_def upt_rec)
  have k2: "main_dlora ''ADR'' 3 [example_packet] = Finished (run_globals [example_packet])"
    by (simp add: main_dlora_def k1)
  have k3: "SelectAndTransmit 50 example_selector True ?fixed
            = (None, record_outcome ?fixed True, [(921.0, - 3, True)])"
    by (simp add: SelectAndTransmit_def SelectAndTransmit_dispatch_def LoRaDevice_init_def
        example_selector_def)
  note t1 = unknown_algorithm_fatal [where algorithm = "''Foo''" and numNodes = 3
      and packets = "[example_packet]" and d = ?foo and channels = g_channels
      and powers = g_transmissionPowers and outcome = example_outcome
      and ucbStats = "init_ucbStats g_channels g_transmissionPowers"
      and run_selector = example_selector and success = True and packetInterval = 60
      and nDevices = 1 and nSF = 3 and simulationTime = 60 and payloadSize = 50
      and events = "[(0, 1), (60, 1)]" and currentTime = 60]
  have c1: "main_dlora ''Foo'' 3 [example_packet] = FatalError ''Unknown algorithm: Foo'' Globals_init"
    using t1 [where numTransmissions = 50] h1 by simp
  have c2: "StartApplication (m_algorithm ?foo) g_channels g_transmissionPowers
              example_outcome (init_ucbStats g_channels g_transmissionPowers)
            = (init_ucbStats g_channels g_transmissionPowers, [])"
    using t1 [where numTransmissions = 50] h3 by blast
  have c3: "SelectAndTransmit 50 example_selector True ?foo
            = (Some ''Algorithme inconnu: Foo'', ?foo, [])"
    using t1 [where numTransmissions = 50] h3 h4(1) h6 by simp
  have c4: "SelectAndTransmit 0 example_selector True ?foo = (None, ?foo, [])"
    using t1 [where numTransmissions = 0] h4(2) by blast
  have c5: "Run (Configure 1 3 ''Foo'' 60 50 60) [(0, 1), (60, 1)] \<noteq> None"
    using t1 [where numTransmissions = 50] by auto
  have c6: "successRate_of (Configure 1 3 ''Foo'' 60 50 60) 60 = 0.85"
    using t1 [where numTransmissions = 50] h7 by blast
  show ?thesis
    using h1 h2 h3 h4 h5 h7 k1 k2 k3 c1 c2 c3 c4 c5 c6 by simp
qed

text \<open>
  The claim as stated fails. With no devices, d-lora-simulation.cc accepts the name
  \<open>Foo\<close> and finishes the (empty) run; with a budget of 0 transmissions a device of
  lora-ucb1-simulation.cc with the name \<open>Foo\<close> raises nothing; and
  tow-lorawan-simulation.cc runs with the name \<open>Foo\<close> and counts a packet sent.
\<close>

theorem unknown_algorithm_not_always_fatal:
  "''Foo'' \<notin> dlora_supported
   \<and> main_dlora ''Foo'' 0 [example_packet] = Finished Globals_init
   \<and> m_algorithm (LoRaDevice_init 0 ''Foo'') \<notin> ucb1_supported
   \<and> SelectAndTransmit 0 example_selector True (LoRaDevice_init 0 ''Foo'')
       = (None, LoRaDevice_init 0 ''Foo'', [])
   \<and> ''Foo'' \<notin> tow_supported
   \<and> Run (Configure 1 3 ''Foo'' 60 50 60) [(0, 1), (60, 1)]
       = Some ((Configure 1 3 ''Foo'' 60 50 60)
                 \<lparr>m_totalPacketsSent := 1, m_totalPacketsReceived := 0,
                   m_totalEnergyConsumed := 45\<rparr>)"
  by (simp add: dlora_supported_def main_dlora_def main_setup_def ucb1_supported_def
      LoRaDevice_init_def SelectAndTransmit_def SelectAndTransmit_dispatch_def
      tow_supported_def Configure_def GenerateRealisticStatistics_def successRate_of_def
      to_uint32_def Let_def)

section \<open>Selection by the D-LoRa agent\<close>

lemma fold_total:
  fixes a :: nat
  assumes "a < 2 ^ 32"
  shows "fold (\<lambda>(key, val) total. (total + val) mod 2 ^ 32) ns a
         = (a + sum_list (map snd ns)) mod 2 ^ 32"
  using assms
proof (induction ns arbitrary: a)
  case Nil
  then show ?case by simp
next
  case (Cons kv ns)
  obtain k v where kv: "kv = (k, v)" by (cases kv)
  have "(a + v) mod 2 ^ 32 < (2 ^ 32 :: nat)" by simp
  from Cons.IH [OF this] show ?case
    by (simp add: kv mod_add_left_eq add.assoc)
qed

lemma totalSelections_of_sum:
  "totalSelections_of ns = sum_list (map snd ns) mod 2 ^ 32"
  unfolding totalSelections_of_def using fold_total [of 0 ns] by simp

lemma SelectArm_loop_argmax:
  assumes "SelectArm_loop er ns t arms (m, s) = (m', s')"
  shows "(m' = m \<and> s' = s \<and> (\<forall>a\<in>set arms. ucbValue er ns t a \<le> m))
         \<or> (\<exists>i<length arms. s' = arms ! i \<and> m' = ucbValue er ns t (arms ! i) \<and> m < m'
               \<and> (\<forall>j<length arms. ucbValue er ns t (arms ! j) \<le> m')
               \<and> (\<forall>j<i. ucbValue er ns t (arms ! j) < m'))"
  using assms
proof (induction arms arbitrary: m s)
  case Nil
  then show ?case by simp
next
  case (Cons a arms)
  let ?f = "ucbValue er ns t"
  show ?case
  proof (cases "?f a > m")
    case True
    with Cons.prems have run: "SelectArm_loop er ns t arms (?f a, a) = (m', s')" by simp
    from Cons.IH [OF run] show ?thesis
    proof
      assume h: "m' = ?f a \<and> s' = a \<and> (\<forall>b\<in>set arms. ?f b \<le> ?f a)"
      have "0 < length (a # arms) \<and> s' = (a # arms) ! 0 \<and> m' = ?f ((a # arms) ! 0) \<and> m < m'
            \<and> (\<forall>j<length (a # arms). ?f ((a # arms) ! j) \<le> m')
            \<and> (\<forall>j<0. ?f ((a # arms) ! j) < m')"
        using h True by (auto simp: nth_Cons' )
      then show ?thesis by blast
    next
      assume "\<exists>i<length arms. s' = arms ! i \<and> m' = ?f (arms ! i) \<and> ?f a < m'
               \<and> (\<forall>j<length arms. ?f (arms ! j) \<le> m') \<and> (\<forall>j<i. ?f (arms ! j) < m')"
      then obtain i where i: "i < length arms" "s' = arms ! i" "m' = ?f (arms ! i)" "?f a < m'"
        "\<forall>j<length arms. ?f (arms ! j) \<le> m'" "\<forall>j<i. ?f (arms ! j) < m'" by blast
      have "Suc i < length (a # arms) \<and> s' = (a # arms) ! Suc i \<and> m' = ?f ((a # arms) ! Suc i)
            \<and> m < m'
            \<and> (\<forall>j<length (a # arms). ?f ((a # arms) ! j) \<le> m')
            \<and> (\<forall>j<Suc i. ?f ((a # arms) ! j) < m')"
        using i True by (auto simp: nth_Cons split: nat.splits)
      then show ?thesis by blast
    qed
  next
    case False
    with Cons.prems have run: "SelectArm_loop er ns t arms (m, s) = (m', s')" by simp
    from Cons.IH [OF run] show ?thesis
    proof
      assume "m' = m \<and> s' = s \<and> (\<forall>b\<in>set arms. ?f b \<le> m)"
      then show ?thesis using False by auto
    next
      assume "\<exists>i<length arms. s' = arms ! i \<and> m' = ?f (arms ! i) \<and> m < m'
               \<and> (\<forall>j<length arms. ?f (arms ! j) \<le> m') \<and> (\<forall>j<i. ?f (arms ! j) < m')"
      then obtain i where i: "i < length arms" "s' = arms ! i" "m' = ?f (arms ! i)" "m < m'"
        "\<forall>j<length arms. ?f (arms ! j) \<le> m'" "\<forall>j<i. ?f (arms ! j) < m'" by blast
      have "Suc i < length (a # arms) \<and> s' = (a # arms) ! Suc i \<and> m' = ?f ((a # arms) ! Suc i)
            \<and> m < m'
            \<and> (\<forall>j<length (a # arms). ?f ((a # arms) ! j) \<le> m')
            \<and> (\<forall>j<Suc i. ?f ((a # arms) ! j) < m')"
        using i False by (auto simp: nth_Cons split: nat.splits)
      then show ?thesis by blast
    qed
  qed
qed

lemma ucbValue_tried:
  assumes "1 \<le> at_map ns 0 arm" and "sum_list (map snd ns) + 1 < 2 ^ 32"
  shows "ucbValue er ns (totalSelections_of ns) arm
         = at_map er 0 arm
           + C_WEIGHT_FACTOR * sqrt (ln (real (sum_list (map snd ns) + 1))
                                     / (2 * real (at_map ns 0 arm)))"
proof -
  have "totalSelections_of ns = sum_list (map snd ns)"
    using assms(2) by (simp add: totalSelections_of_sum)
  then show ?thesis
    using assms by (simp add: ucbValue_def)
qed

lemma ucbValue_tried_nonneg:
  assumes "1 \<le> at_map ns 0 arm" and "0 \<le> at_map er 0 arm" and "sum_list (map snd ns) + 1 < 2 ^ 32"
  shows "0 \<le> ucbValue er ns (totalSelections_of ns) arm"
proof -
  have "0 \<le> ln (real (sum_list (map snd ns) + 1))" by simp
  then have "0 \<le> sqrt (ln (real (sum_list (map snd ns) + 1)) / (2 * real (at_map ns 0 arm)))"
    by simp
  then show ?thesis
    unfolding ucbValue_tried [OF assms(1,3)] C_WEIGHT_FACTOR_def using assms(2) by simp
qed

lemma ucbValue_untried: "at_map ns 0 arm = 0 \<Longrightarrow> ucbValue er ns t arm = DBL_MAX"
  by (simp add: ucbValue_def)

lemma DBL_MAX_big: "2 ^ 18 < DBL_MAX / 2"
proof -
  have "(2::real) ^ 18 < 2 ^ 1022" by (rule power_strict_increasing) simp_all
  also have "(2::real) ^ 1022 \<le> (2 - 1 / 2 ^ 52) * 2 ^ 1023 / 2"
  proof -
    have "(1::real) \<le> 2 - 1 / 2 ^ 52" by simp
    then have "1 * (2::real) ^ 1022 \<le> (2 - 1 / 2 ^ 52) * 2 ^ 1022"
      by (intro mult_right_mono) simp_all
    moreover have "(2 - 1 / 2 ^ 52) * (2::real) ^ 1023 / 2 = (2 - 1 / 2 ^ 52) * 2 ^ 1022"
      by (simp add: power_Suc [of 2 1022, symmetric] del: power_Suc)
    ultimately show ?thesis by simp
  qed
  finally show ?thesis by (simp add: DBL_MAX_def)
qed

lemma ucbValue_tried_below_max:
  assumes "at_map ns 0 arm \<noteq> 0" and "at_map er 0 arm \<le> DBL_MAX / 2"
  shows "ucbValue er ns t arm < DBL_MAX"
proof -
  let ?T = "real ((t + 1) mod 2 ^ 32)"
  let ?n = "real (at_map ns 0 arm)"
  have n1: "1 \<le> ?n" using assms(1) by simp
  have T: "?T \<le> 2 ^ 32"
  proof -
    have "(t + 1) mod 2 ^ 32 < (2 ^ 32 :: nat)" by simp
    then have "real ((t + 1) mod 2 ^ 32) < real (2 ^ 32 :: nat)" by (simp only: of_nat_less_iff)
    then show ?thesis by simp
  qed
  have lnT: "ln ?T \<le> 2 ^ 32"
  proof (cases "?T = 0")
    case True
    then show ?thesis by simp
  next
    case False
    then have "0 < ?T" by simp
    then have "ln ?T \<le> ?T - 1" by (rule ln_le_minus_one)
    then show ?thesis using T by simp
  qed
  have "ln ?T / (2 * ?n) \<le> 2 ^ 32"
  proof (cases "0 \<le> ln ?T")
    case True
    have "ln ?T / (2 * ?n) \<le> ln ?T / 1"
      using True n1 by (intro divide_left_mono) simp_all
    then show ?thesis using lnT by simp
  next
    case False
    then have "ln ?T / (2 * ?n) \<le> 0" using n1 by (simp add: divide_le_0_iff)
    then show ?thesis by (rule order_trans) simp
  qed
  then have "sqrt (ln ?T / (2 * ?n)) \<le> sqrt (2 ^ 32)" by (rule real_sqrt_le_mono)
  moreover have "sqrt ((2::real) ^ 32) = 2 ^ 16"
    using real_sqrt_abs [of "2 ^ 16"] by (simp add: power2_eq_square)
  ultimately have "C_WEIGHT_FACTOR * sqrt (ln ?T / (2 * ?n)) \<le> 2 ^ 17"
    by (simp add: C_WEIGHT_FACTOR_def)
  then have "ucbValue er ns t arm \<le> DBL_MAX / 2 + 2 ^ 17"
    using assms by (simp add: ucbValue_def)
  also have "\<dots> < DBL_MAX / 2 + DBL_MAX / 2"
  proof -
    have "(2::real) ^ 17 < 2 ^ 18" by simp
    then show ?thesis using DBL_MAX_big by linarith
  qed
  finally show ?thesis by simp
qed

lemma find_first_index:
  assumes "i < length xs" and "P (xs ! i)" and "\<forall>j<i. \<not> P (xs ! j)"
  shows "find P xs = Some (xs ! i)"
  using assms
proof (induction xs arbitrary: i)
  case Nil
  then show ?case by simp
next
  case (Cons x xs)
  show ?case
  proof (cases i)
    case 0
    then show ?thesis using Cons.prems by simp
  next
    case (Suc k)
    have "\<not> P x" using Cons.prems(3) Suc by auto
    moreover have "find P xs = Some (xs ! k)"
      using Cons.prems Suc by (intro Cons.IH) auto
    ultimately show ?thesis using Suc by simp
  qed
qed

lemma SelectArm_first_untried:
  assumes "\<exists>arm\<in>set armSet. at_map ns 0 arm = 0"
    and "\<forall>arm\<in>set armSet. at_map er 0 arm \<le> DBL_MAX / 2"
  shows "SelectArm er ns armSet = find (\<lambda>arm. at_map ns 0 arm = 0) armSet"
proof -
  let ?t = "totalSelections_of ns"
  let ?f = "ucbValue er ns ?t"
  obtain arm0 rest where as: "armSet = arm0 # rest"
    using assms(1) by (cases armSet) auto
  obtain m' s' where run: "SelectArm_loop er ns ?t armSet (- 1, arm0) = (m', s')"
    by (cases "SelectArm_loop er ns ?t armSet (- 1, arm0)")
  have sel: "SelectArm er ns armSet = Some s'"
    using run as by (simp add: SelectArm_def)
  have pos: "- 1 < DBL_MAX"
  proof -
    have "(0::real) < 2 ^ 18" by simp
    then show ?thesis using DBL_MAX_big by linarith
  qed
  obtain u where u: "u \<in> set armSet" "at_map ns 0 u = 0" using assms(1) by blast
  then have fu: "?f u = DBL_MAX" by (simp add: ucbValue_untried)
  have tried: "?f a < DBL_MAX" if "a \<in> set armSet" "at_map ns 0 a \<noteq> 0" for a
    using that assms(2) by (intro ucbValue_tried_below_max) auto
  have le_max: "?f a \<le> DBL_MAX" if "a \<in> set armSet" for a
    using tried [OF that] ucbValue_untried [of ns a er ?t] by (cases "at_map ns 0 a = 0") auto
  have "\<not> (\<forall>a\<in>set armSet. ?f a \<le> - 1)" using u fu pos by force
  with SelectArm_loop_argmax [OF run]
  obtain i where i: "i < length armSet" "s' = armSet ! i" "m' = ?f (armSet ! i)"
    "\<forall>j<length armSet. ?f (armSet ! j) \<le> m'" "\<forall>j<i. ?f (armSet ! j) < m'"
    by blast
  obtain k where k: "k < length armSet" "armSet ! k = u"
    using u(1) by (auto simp: in_set_conv_nth)
  have "DBL_MAX \<le> m'" using i(4) k fu by auto
  moreover have "m' \<le> DBL_MAX" using i(1,3) le_max by simp
  ultimately have m': "m' = DBL_MAX" by simp
  have untried_i: "at_map ns 0 (armSet ! i) = 0"
    using tried [of "armSet ! i"] i(1,3) m' by auto
  have tried_before: "\<forall>j<i. at_map ns 0 (armSet ! j) \<noteq> 0"
  proof (intro allI impI)
    fix j assume "j < i"
    then have "?f (armSet ! j) < DBL_MAX" using i(5) m' by simp
    then show "at_map ns 0 (armSet ! j) \<noteq> 0"
      using ucbValue_untried [of ns "armSet ! j" er ?t] by auto
  qed
  have "find (\<lambda>arm. at_map ns 0 arm = 0) armSet = Some (armSet ! i)"
    using i(1) untried_i tried_before by (intro find_first_index) auto
  then show ?thesis using sel i(2) by simp
qed

lemma UpdateArm_first_selection:
  assumes "at_map ns 0 arm = 0" and "UpdateArm er ns arm reward = (er', ns')"
  shows "at_map ns' 0 a = (if a = arm then 1 else at_map ns 0 a)"
    and "at_map er' 0 a = (if a = arm then reward else at_map er 0 a)"
  using assms by (auto simp: UpdateArm_def Let_def at_map_update)

lemma dimension_run_exploration:
  assumes "distinct (done @ todo)"
    and "\<forall>a\<in>set done. at_map ns 0 a \<noteq> 0"
    and "\<forall>a\<in>set todo. at_map ns 0 a = 0"
    and "\<forall>a\<in>set (done @ todo). at_map er 0 a \<le> DBL_MAX / 2"
    and "\<forall>r\<in>set rewards. r \<le> DBL_MAX / 2"
    and "length rewards \<le> length todo"
  shows "\<exists>er' ns'. dimension_run (done @ todo) er ns rewards
                     = Some (take (length rewards) todo, er', ns')"
  using assms
proof (induction rewards arbitrary: "done" todo er ns)
  case Nil
  then show ?case by simp
next
  case (Cons r rewards)
  from Cons.prems(6) obtain a todo' where todo: "todo = a # todo'"
    by (cases todo) auto
  let ?arms = "done @ todo"
  have untried: "\<exists>arm\<in>set ?arms. at_map ns 0 arm = 0"
    using Cons.prems(3) todo by auto
  have "find (\<lambda>arm. at_map ns 0 arm = 0) ?arms = Some (?arms ! length done)"
  proof (rule find_first_index)
    show "length done < length ?arms" using todo by simp
    show "at_map ns 0 (?arms ! length done) = 0" using Cons.prems(3) todo by simp
    show "\<forall>j<length done. at_map ns 0 (?arms ! j) \<noteq> 0"
      using Cons.prems(2) by (simp add: nth_append)
  qed
  then have sel: "SelectArm er ns ?arms = Some a"
    using SelectArm_first_untried [OF untried Cons.prems(4)] todo by simp
  obtain er1 ns1 where upd: "UpdateArm er ns a r = (er1, ns1)"
    by (cases "UpdateArm er ns a r")
  have a0: "at_map ns 0 a = 0" using Cons.prems(3) todo by simp
  note u = UpdateArm_first_selection [OF a0 upd]
  have d: "distinct ((done @ [a]) @ todo')" using Cons.prems(1) todo by simp
  have a_notin: "a \<notin> set done" "a \<notin> set todo'" using Cons.prems(1) todo by auto
  have p2: "\<forall>b\<in>set (done @ [a]). at_map ns1 0 b \<noteq> 0"
    using Cons.prems(2) a_notin by (auto simp: u)
  have p3: "\<forall>b\<in>set todo'. at_map ns1 0 b = 0"
    using Cons.prems(3) todo a_notin by (auto simp: u)
  have p4: "\<forall>b\<in>set ((done @ [a]) @ todo'). at_map er1 0 b \<le> DBL_MAX / 2"
    using Cons.prems(4,5) todo by (auto simp: u)
  have p5: "\<forall>r\<in>set rewards. r \<le> DBL_MAX / 2" using Cons.prems(5) by simp
  have p6: "length rewards \<le> length todo'" using Cons.prems(6) todo by simp
  from Cons.IH [OF d p2 p3 p4 p5 p6]
  obtain er' ns' where
    "dimension_run ((done @ [a]) @ todo') er1 ns1 rewards = Some (take (length rewards) todo', er', ns')"
    by blast
  then have "dimension_run ?arms er ns (r # rewards)
             = Some (a # take (length rewards) todo', er', ns')"
    using sel upd todo by simp
  then show ?case using todo by simp
qed

lemma dimension_run_from_init:
  assumes "distinct armSet" and "\<forall>r\<in>set rewards. r \<le> DBL_MAX / 2"
    and "length rewards \<le> length armSet"
  shows "\<exists>er' ns'. dimension_run armSet (init_rewards armSet) (init_selections armSet) rewards
                     = Some (take (length rewards) armSet, er', ns')"
proof -
  have "(0::real) \<le> DBL_MAX / 2" using DBL_MAX_big by (simp add: order_trans [of 0 "2 ^ 18"] less_imp_le)
  then have "\<forall>a\<in>set ([] @ armSet). at_map (init_rewards armSet) 0 a \<le> DBL_MAX / 2"
    by (simp add: init_rewards_zero)
  from dimension_run_exploration [of "[]" armSet "init_selections armSet" "init_rewards armSet" rewards,
      OF _ _ _ this]
  show ?thesis using assms by (simp add: init_selections_zero)
qed

lemma UCB_loop_first_untried:
  assumes "\<exists>i\<in>set ids. m_T_i s ! i = 0"
  shows "Some (UCB_loop s ids m b) = find (\<lambda>i. m_T_i s ! i = 0) ids"
  using assms
proof (induction ids arbitrary: m b)
  case Nil
  then show ?case by simp
next
  case (Cons i ids)
  show ?case
  proof (cases "m_T_i s ! i = 0")
    case True
    then show ?thesis by simp
  next
    case False
    then have "\<exists>i\<in>set ids. m_T_i s ! i = 0" using Cons.prems by auto
    from Cons.IH [OF this] show ?thesis using False by (simp add: Let_def)
  qed
qed

lemma bandit_run_init_phase:
  assumes "sized s" and "m_type s \<noteq> UNIFORM"
    and "m_n s + length obs \<le> m_K s" and "m_K s < 2 ^ 32"
  shows "\<exists>s'. bandit_run s obs = Some ([m_n s..<m_n s + length obs], s')"
  using assms
proof (induction obs arbitrary: s)
  case Nil
  then show ?case by simp
next
  case (Cons ob obs)
  obtain reward quality where ob: "ob = (reward, quality)" by (cases ob)
  let ?s1 = "s\<lparr>m_n := (m_n s + 1) mod 2 ^ 32\<rparr>"
  have n1: "(m_n s + 1) mod 2 ^ 32 = m_n s + 1" using Cons.prems(3,4) by simp
  have unwrap: "(m_n s + 1 + 2 ^ 32 - 1) mod 2 ^ 32 = m_n s"
    using Cons.prems(3,4) by simp
  have le: "m_n s + 1 \<le> m_K s" using Cons.prems(3) by simp
  have s1n: "m_n ?s1 = m_n s + 1" using n1 by simp
  have c1: "SelectChannelUCB ?s1 = m_n s"
  proof -
    have "SelectChannelUCB ?s1 = (m_n ?s1 + 2 ^ 32 - 1) mod 2 ^ 32"
      unfolding SelectChannelUCB_def using le s1n by simp
    also have "\<dots> = m_n s" unfolding s1n by (rule unwrap)
    finally show ?thesis .
  qed
  have c2: "SelectChannelQoCA ?s1 = m_n s"
  proof -
    have "SelectChannelQoCA ?s1 = (m_n ?s1 + 2 ^ 32 - 1) mod 2 ^ 32"
      unfolding SelectChannelQoCA_def using le s1n by simp
    also have "\<dots> = m_n s" unfolding s1n by (rule unwrap)
    finally show ?thesis .
  qed
  have c3: "SelectChannelDQoCA ?s1 = m_n s"
  proof -
    have "SelectChannelDQoCA ?s1 = (m_n ?s1 + 2 ^ 32 - 1) mod 2 ^ 32"
      unfolding SelectChannelDQoCA_def using le s1n by simp
    also have "\<dots> = m_n s" unfolding s1n by (rule unwrap)
    finally show ?thesis .
  qed
  have sz1: "sized ?s1" using Cons.prems(1) by (simp add: sized_def)
  have sel: "SelectChannel s = Some (m_n s, ?s1)"
  proof (cases "m_type s")
    case UNIFORM
    then show ?thesis using Cons.prems(2) by simp
  next
    case UCB
    then show ?thesis
      unfolding SelectChannel_def Let_def using Cons.prems(1) c1 by simp
  next
    case QOC_A
    then show ?thesis
      unfolding SelectChannel_def Let_def using Cons.prems(1) c2 by simp
  next
    case DQOC_A
    then show ?thesis
      unfolding SelectChannel_def Let_def using Cons.prems(1) c3 by simp
  qed
  have "sized ?s1 \<and> m_n s < m_K ?s1" using Cons.prems(1) le by (simp add: sized_def)
  then obtain s2 where upd: "UpdateReward ?s1 (m_n s) reward quality = Some s2"
    by (simp add: UpdateReward_def)
  note k = UpdateReward_keeps [OF upd]
  have "\<exists>s'. bandit_run s2 obs = Some ([m_n s2..<m_n s2 + length obs], s')"
    using Cons.prems k n1 by (intro Cons.IH) simp_all
  then obtain s' where "bandit_run s2 obs = Some ([m_n s + 1..<m_n s + 1 + length obs], s')"
    using k n1 by auto
  then have "bandit_run s (ob # obs) = Some (m_n s # [m_n s + 1..<m_n s + 1 + length obs], s')"
    using sel upd ob by simp
  moreover have "m_n s # [m_n s + 1..<m_n s + 1 + length obs] = [m_n s..<m_n s + length (ob # obs)]"
    by (simp add: upt_rec)
  ultimately show ?case by simp
qed

text \<open>
  The rewards of the agent are non-negative, and \<^verbatim>\<open>UpdateArm\<close> keeps the mean rewards
  non-negative.
\<close>

lemma fold_plus_sum: "fold (\<lambda>x acc. acc + f x) xs (a::real) = a + sum_list (map f xs)"
  by (induction xs arbitrary: a) simp_all

lemma CalculateRewardSF_nonneg: "0 \<le> CalculateRewardSF g_xi SF_SET sf success"
proof -
  have "0 \<le> sum_list (map (\<lambda>s. (2::real) powi s) SF_SET)"
    by (rule sum_list_nonneg) auto
  then have "0 \<le> (2::real) powi sf / fold (\<lambda>s acc. acc + 2 powi s) SF_SET 0"
    by (simp add: fold_plus_sum)
  then have "0 < g_xi \<Longrightarrow> 0 \<le> g_xi * ((2::real) powi sf / fold (\<lambda>s acc. acc + 2 powi s) SF_SET 0)"
    by (intro mult_nonneg_nonneg) simp_all
  then show ?thesis
    by (simp add: CalculateRewardSF_def Let_def del: times_divide_eq_right)
qed

lemma CalculateRewardBW_nonneg:
  assumes "\<forall>b\<in>set BW_SET. 0 \<le> b" and "0 \<le> bw"
  shows "0 \<le> CalculateRewardBW g_zeta BW_SET bw success"
proof -
  have "0 \<le> sum_list BW_SET" using assms(1) by (intro sum_list_nonneg) auto
  then have "0 \<le> bw / fold (\<lambda>b acc. acc + b) BW_SET 0"
    using assms(2) fold_plus_sum [of "\<lambda>b. b" BW_SET 0] by simp
  then have "0 < g_zeta \<Longrightarrow> 0 \<le> g_zeta * (bw / fold (\<lambda>b acc. acc + b) BW_SET 0)"
    by (intro mult_nonneg_nonneg) simp_all
  then show ?thesis
    by (simp add: CalculateRewardBW_def Let_def del: times_divide_eq_right)
qed

lemma CalculateRewardCF_nonneg: "0 \<le> CalculateRewardCF cf success"
  by (simp add: CalculateRewardCF_def)

lemma CalculateRewardTP_nonneg:
  assumes "\<forall>t\<in>set TP_SET. 0 \<le> t" and "tp \<in> set TP_SET"
  shows "0 \<le> CalculateRewardTP g_eta TP_SET tp success"
proof -
  have s: "fold (\<lambda>t acc. acc + t) TP_SET 0 = sum_list TP_SET"
    using fold_plus_sum [of "\<lambda>t. t" TP_SET 0] by simp
  have "tp \<le> sum_list TP_SET"
    using assms by (intro member_le_sum_list) auto
  moreover have "0 \<le> tp" using assms by auto
  ultimately have "tp / sum_list TP_SET \<le> 1"
    by (cases "sum_list TP_SET = 0") (simp_all add: divide_le_eq_1)
  then show ?thesis
    by (simp add: CalculateRewardTP_def Let_def s)
qed

lemma UpdateArm_keeps_nonneg:
  assumes "\<forall>a. 0 \<le> at_map er 0 a" and "0 \<le> reward"
    and "UpdateArm er ns arm reward = (er', ns')"
  shows "\<forall>a. 0 \<le> at_map er' 0 a"
proof
  fix a
  let ?n = "real (at_map (AList.update arm ((at_map ns 0 arm + 1) mod 2 ^ 32) ns) 0 arm)"
  let ?old = "at_map er 0 arm"
  have "fst (UpdateArm er ns arm reward) = AList.update arm (?old + (reward - ?old) / ?n) er"
    by (simp add: UpdateArm_def Let_def)
  then have er': "er' = AList.update arm (?old + (reward - ?old) / ?n) er"
    using assms(3) by simp
  have old: "0 \<le> ?old" using assms(1) by simp
  have new: "0 \<le> ?old + (reward - ?old) / ?n"
  proof (cases "?n = 0")
    case True
    then show ?thesis using old by simp
  next
    case False
    then have n: "1 \<le> ?n" by (simp add: at_map_update)
    have "?old + (reward - ?old) / ?n = (?old * (?n - 1) + reward) / ?n"
      using False by (simp add: field_simps)
    moreover have "0 \<le> ?old * (?n - 1) + reward"
      using old n assms(2) by simp
    ultimately show ?thesis using n by simp
  qed
  show "0 \<le> at_map er' 0 a"
    using new assms(1) by (simp add: er' at_map_update)
qed

text \<open>
  Claim C3. In a state of the D-LoRa agent in which every arm of the set has been
  selected at least once (mean rewards are then non-negative, see
  \<open>UpdateArm_keeps_nonneg\<close>), \<^verbatim>\<open>SelectArm\<close> returns an arm that maximises
  \<open>meanReward + c * sqrt (ln (t + 1) / (2 * selectionCount))\<close>, with \<open>t\<close> the total of the
  recorded selections of the dimension and \<open>c = 2\<close>, and every arm listed before it has a
  strictly smaller score: ties go to the first-listed arm.
\<close>

theorem SelectArm_is_first_argmax:
  assumes "armSet \<noteq> []"
    and "\<forall>arm\<in>set armSet. 1 \<le> at_map numSelections 0 arm"
    and "\<forall>arm\<in>set armSet. 0 \<le> at_map expectedRewards 0 arm"
    and "sum_list (map snd numSelections) + 1 < 2 ^ 32"
  shows "let t = sum_list (map snd numSelections);
             score = (\<lambda>arm. at_map expectedRewards 0 arm
                             + C_WEIGHT_FACTOR
                               * sqrt (ln (real (t + 1)) / (2 * real (at_map numSelections 0 arm))))
         in \<exists>i<length armSet.
              SelectArm expectedRewards numSelections armSet = Some (armSet ! i)
              \<and> (\<forall>j<length armSet. score (armSet ! j) \<le> score (armSet ! i))
              \<and> (\<forall>j<i. score (armSet ! j) < score (armSet ! i))"
proof -
  let ?t = "totalSelections_of numSelections"
  let ?f = "ucbValue expectedRewards numSelections ?t"
  obtain arm0 rest where as: "armSet = arm0 # rest"
    using assms(1) by (cases armSet) auto
  obtain m' s' where run:
    "SelectArm_loop expectedRewards numSelections ?t armSet (- 1, arm0) = (m', s')"
    by (cases "SelectArm_loop expectedRewards numSelections ?t armSet (- 1, arm0)")
  have sel: "SelectArm expectedRewards numSelections armSet = Some s'"
    using run as by (simp add: SelectArm_def)
  have f_eq: "?f (armSet ! j) = at_map expectedRewards 0 (armSet ! j)
           + C_WEIGHT_FACTOR * sqrt (ln (real (sum_list (map snd numSelections) + 1))
                                     / (2 * real (at_map numSelections 0 (armSet ! j))))"
    if "j < length armSet" for j
    using that assms(2,4) by (intro ucbValue_tried) auto
  have "0 \<le> ?f arm0"
    using assms as by (intro ucbValue_tried_nonneg) auto
  then have "\<not> (\<forall>a\<in>set armSet. ?f a \<le> - 1)" using as by auto
  with SelectArm_loop_argmax [OF run]
  obtain i where i: "i < length armSet" "s' = armSet ! i" "m' = ?f (armSet ! i)"
    "\<forall>j<length armSet. ?f (armSet ! j) \<le> m'" "\<forall>j<i. ?f (armSet ! j) < m'"
    by blast
  let ?g = "\<lambda>arm. at_map expectedRewards 0 arm
                 + C_WEIGHT_FACTOR
                   * sqrt (ln (real (sum_list (map snd numSelections) + 1))
                           / (2 * real (at_map numSelections 0 arm)))"
  have g: "?f (armSet ! j) = ?g (armSet ! j)" if "j < length armSet" for j
    using f_eq [OF that] by simp
  have le: "\<forall>j<length armSet. ?g (armSet ! j) \<le> ?g (armSet ! i)"
  proof (intro allI impI)
    fix j assume j: "j < length armSet"
    then have "?f (armSet ! j) \<le> ?f (armSet ! i)" using i(3,4) by simp
    then show "?g (armSet ! j) \<le> ?g (armSet ! i)"
      unfolding g [OF j] g [OF i(1)] .
  qed
  have lt: "\<forall>j<i. ?g (armSet ! j) < ?g (armSet ! i)"
  proof (intro allI impI)
    fix j assume j: "j < i"
    then have jl: "j < length armSet" using i(1) by simp
    have "?f (armSet ! j) < ?f (armSet ! i)" using i(3,5) j by simp
    then show "?g (armSet ! j) < ?g (armSet ! i)"
      unfolding g [OF jl] g [OF i(1)] .
  qed
  have "SelectArm expectedRewards numSelections armSet = Some (armSet ! i)"
    using sel i(2) by simp
  then show ?thesis
    unfolding Let_def using i(1) le lt by blast
qed

theorem SelectArm_is_first_argmax_witness:
  "[7, 8, 9 :: int] \<noteq> []
   \<and> 1 \<le> at_map [(7 :: int, 2 :: nat), (8, 2), (9, 2)] 0 7
   \<and> 1 \<le> at_map [(7 :: int, 2 :: nat), (8, 2), (9, 2)] 0 8
   \<and> 1 \<le> at_map [(7 :: int, 2 :: nat), (8, 2), (9, 2)] 0 9
   \<and> 0 \<le> at_map [(7 :: int, 1 / 2 :: real), (8, 1), (9, 1)] 0 7
   \<and> 0 \<le> at_map [(7 :: int, 1 / 2 :: real), (8, 1), (9, 1)] 0 8
   \<and> 0 \<le> at_map [(7 :: int, 1 / 2 :: real), (8, 1), (9, 1)] 0 9
   \<and> sum_list (map snd [(7 :: int, 2 :: nat), (8, 2), (9, 2)]) + 1 < 2 ^ 32
   \<and> SelectArm [(7 :: int, 1 / 2), (8, 1), (9, 1)] [(7, 2), (8, 2), (9, 2)] [7, 8, 9] = Some 8"
proof -
  let ?er = "[(7 :: int, 1 / 2 :: real), (8, 1), (9, 1)]"
  let ?ns = "[(7 :: int, 2 :: nat), (8, 2), (9, 2)]"
  let ?arms = "[7, 8, 9 :: int]"
  have h1: "?arms \<noteq> []" by simp
  have h2: "\<forall>arm\<in>set ?arms. 1 \<le> at_map ?ns 0 arm" by (simp add: at_map_def)
  have h3: "\<forall>arm\<in>set ?arms. 0 \<le> at_map ?er 0 arm" by (simp add: at_map_def)
  have h4: "sum_list (map snd ?ns) + 1 < 2 ^ 32" by simp
  let ?g = "\<lambda>arm. at_map ?er 0 arm
                 + C_WEIGHT_FACTOR
                   * sqrt (ln (real (sum_list (map snd ?ns) + 1)) / (2 * real (at_map ?ns 0 arm)))"
  have "\<exists>i<length ?arms. SelectArm ?er ?ns ?arms = Some (?arms ! i)
          \<and> (\<forall>j<length ?arms. ?g (?arms ! j) \<le> ?g (?arms ! i))
          \<and> (\<forall>j<i. ?g (?arms ! j) < ?g (?arms ! i))"
    using SelectArm_is_first_argmax [OF h1 h2 h3 h4] unfolding Let_def .
  then obtain i where i: "i < length ?arms" "SelectArm ?er ?ns ?arms = Some (?arms ! i)"
    and le: "\<forall>j<length ?arms. ?g (?arms ! j) \<le> ?g (?arms ! i)"
    and lt: "\<forall>j<i. ?g (?arms ! j) < ?g (?arms ! i)"
    by blast
  have "i = 0 \<or> i = 1 \<or> i = 2" using i(1) by auto
  then have "i = 1"
  proof (elim disjE)
    assume "i = 0"
    then show ?thesis using le [rule_format, of 1] by (simp add: at_map_def)
  next
    assume "i = 1"
    then show ?thesis .
  next
    assume "i = 2"
    then show ?thesis using lt [rule_format, of 1] by (simp add: at_map_def)
  qed
  then have "SelectArm ?er ?ns ?arms = Some 8" using i(2) by simp
  then show ?thesis using h1 h2 h3 h4 by simp
qed

section \<open>DQoC-A with both discount factors equal to 1\<close>

lemma fold_index:
  "fold (\<lambda>j. f (xs ! j)) [0..<length xs] a = fold f xs a"
proof (induction xs arbitrary: a rule: rev_induct)
  case Nil
  then show ?case by simp
next
  case (snoc x xs)
  have "fold (\<lambda>j. f ((xs @ [x]) ! j)) [0..<length xs] a = fold (\<lambda>j. f (xs ! j)) [0..<length xs] a"
    by (rule fold_cong) (simp_all add: nth_append)
  then show ?case using snoc by simp
qed

lemma count_fold:
  "fold (\<lambda>h acc. if h = i then acc + 1 else acc) hist (a::real) = a + real (count_list hist i)"
  by (induction hist arbitrary: a) simp_all

lemma discounted_count_one:
  "discounted_count 1 hist i = real (count_list hist i)"
proof -
  have "discounted_count 1 hist i
        = fold (\<lambda>j. (\<lambda>h acc. if h = i then acc + 1 else acc) (hist ! j)) [0..<length hist] 0"
    by (simp add: discounted_count_def cong: if_cong)
  also have "\<dots> = fold (\<lambda>h acc. if h = i then acc + 1 else acc) hist 0"
    by (rule fold_index)
  also have "\<dots> = real (count_list hist i)" by (simp add: count_fold)
  finally show ?thesis .
qed

lemma sums_fold:
  assumes "count_list hist i + idx \<le> length rs" and "length qs = length rs"
  shows "fold (\<lambda>h (sr, sq, k). if h = i \<and> k < length rs
                                 then (sr + rs ! k, sq + qs ! k, k + 1) else (sr, sq, k))
              hist (sr0, sq0, idx)
         = (sr0 + sum_list (take (count_list hist i) (drop idx rs)),
            sq0 + sum_list (take (count_list hist i) (drop idx qs)),
            idx + count_list hist i)"
  using assms
proof (induction hist arbitrary: sr0 sq0 idx)
  case Nil
  then show ?case by simp
next
  case (Cons h hist)
  show ?case
  proof (cases "h = i")
    case True
    then have lt: "idx < length rs" and ltq: "idx < length qs" using Cons.prems by simp_all
    have c: "count_list hist i + (idx + 1) \<le> length rs" using Cons.prems True by simp
    have dr: "drop idx rs = rs ! idx # drop (idx + 1) rs"
      using lt by (simp add: Cons_nth_drop_Suc)
    have dq: "drop idx qs = qs ! idx # drop (idx + 1) qs"
      using ltq by (simp add: Cons_nth_drop_Suc)
    show ?thesis
      using True lt Cons.IH [OF c Cons.prems(2)] by (simp add: dr dq add.assoc)
  next
    case False
    then show ?thesis using Cons.IH [of idx] Cons.prems by simp
  qed
qed

lemma discounted_sums_one:
  assumes "m_lambda s = 1" and "m_lambdaG s = 1"
    and "length (m_rewards s ! i) = count_list (m_channelHistory s) i"
    and "length (m_qualities s ! i) = count_list (m_channelHistory s) i"
  shows "discounted_sums s i
         = (sum_list (m_rewards s ! i), sum_list (m_qualities s ! i),
            count_list (m_channelHistory s) i)"
proof -
  let ?h = "m_channelHistory s" and ?rs = "m_rewards s ! i" and ?qs = "m_qualities s ! i"
  let ?step = "\<lambda>h (sr, sq, k). if h = i \<and> k < length ?rs
                                 then (sr + ?rs ! k, sq + ?qs ! k, k + 1) else (sr, sq, k)"
  have "discounted_sums s i = fold (\<lambda>j. ?step (?h ! j)) [0..<length ?h] (0, 0, 0)"
    using assms(1,2) by (simp add: discounted_sums_def cong: if_cong)
  also have "\<dots> = fold ?step ?h (0, 0, 0)" by (rule fold_index)
  also have "\<dots> = (0 + sum_list (take (count_list ?h i) (drop 0 ?rs)),
                     0 + sum_list (take (count_list ?h i) (drop 0 ?qs)),
                     0 + count_list ?h i)"
    using assms(3,4) by (intro sums_fold) simp_all
  finally show ?thesis using assms(3,4) by simp
qed

lemma disc_stats_one:
  assumes "consistent s" and "m_lambda s = 1" and "m_lambdaG s = 1" and "i < m_K s"
  shows "N_i_of s i = real (m_T_i s ! i)"
    and "N_g_i_of s i = real (m_T_i s ! i)"
    and "R_i_disc_of s i = m_R_i s ! i"
    and "G_i_disc_of s i = m_G_i s ! i"
proof -
  from assms(1,4) have c:
    "length (m_rewards s ! i) = count_list (m_channelHistory s) i"
    "length (m_qualities s ! i) = count_list (m_channelHistory s) i"
    "m_T_i s ! i = count_list (m_channelHistory s) i"
    "m_R_i s ! i = (if m_T_i s ! i > 0
                    then sum_list (m_rewards s ! i) / real (m_T_i s ! i) else 0)"
    "m_G_i s ! i = (if m_T_i s ! i > 0
                    then sum_list (m_qualities s ! i) / real (m_T_i s ! i) else 0)"
    by (simp_all add: consistent_def)
  show n: "N_i_of s i = real (m_T_i s ! i)"
    using assms(2) c(3) by (simp add: N_i_of_def discounted_count_one)
  show ng: "N_g_i_of s i = real (m_T_i s ! i)"
    using assms(3) c(3) by (simp add: N_g_i_of_def discounted_count_one)
  note ds = discounted_sums_one [OF assms(2,3) c(1,2)]
  show "R_i_disc_of s i = m_R_i s ! i"
    using c by (simp add: R_i_disc_of_def n ds)
  show "G_i_disc_of s i = m_G_i s ! i"
    using c by (simp add: G_i_disc_of_def n ng ds)
qed

lemma G_max_one:
  assumes "consistent s" and "m_lambda s = 1" and "m_lambdaG s = 1"
  shows "G_max_disc_of s = CalculateGmax s"
  unfolding G_max_disc_of_def CalculateGmax_def
  by (rule fold_cong) (simp_all add: disc_stats_one [OF assms] cong: if_cong)

lemma sum_counts:
  fixes K :: nat
  assumes "\<forall>c\<in>set hist. c < K"
  shows "(\<Sum>i = 0..<K. count_list hist i) = length hist"
  using assms
proof (induction hist)
  case Nil
  then show ?case by simp
next
  case (Cons h hist)
  have "(\<Sum>i = 0..<K. count_list (h # hist) i)
        = (\<Sum>i = 0..<K. count_list hist i + (if i = h then 1 else 0))"
    by (rule sum.cong) simp_all
  also have "\<dots> = (\<Sum>i = 0..<K. count_list hist i) + (\<Sum>i = 0..<K. if i = h then 1 else 0)"
    by (simp add: sum.distrib)
  also have "(\<Sum>i = 0..<K. if i = h then 1 else (0::nat)) = 1"
    by (subst sum.delta) (use Cons.prems in auto)
  finally show ?case using Cons by simp
qed

lemma W_n_one:
  assumes "consistent s" and "m_lambda s = 1" and "m_lambdaG s = 1"
  shows "W_n_of s = real (length (m_channelHistory s))"
proof -
  have "W_n_of s = fold (\<lambda>i W. W + real (m_T_i s ! i)) [0..<m_K s] 0"
    unfolding W_n_of_def by (rule fold_cong) (simp_all add: disc_stats_one [OF assms])
  also have "\<dots> = fold (\<lambda>i W. W + real (count_list (m_channelHistory s) i)) [0..<m_K s] 0"
    using assms(1) by (intro fold_cong) (simp_all add: consistent_def)
  also have "\<dots> = sum_list (map (\<lambda>i. real (count_list (m_channelHistory s) i)) [0..<m_K s])"
    by (simp add: fold_plus_sum)
  also have "\<dots> = real (\<Sum>i = 0..<m_K s. count_list (m_channelHistory s) i)"
    by (simp add: interv_sum_list_conv_sum_set_nat)
  also have "\<dots> = real (length (m_channelHistory s))"
    using assms(1) by (subst sum_counts) (simp_all add: consistent_def)
  finally show ?thesis .
qed

lemma consistent_init: "consistent (BanditAlgorithm_init K ty alpha beta lambda lambdaG)"
  by (simp add: consistent_def sized_def BanditAlgorithm_init_def)

lemma count_list_snoc:
  "count_list (hist @ [c]) i = count_list hist i + (if c = i then 1 else 0)"
  by (induction hist) simp_all

lemma consistent_UpdateReward:
  assumes "consistent s" and "UpdateReward s c r q = Some s'"
    and "length (m_channelHistory s) + 1 < 2 ^ 32"
  shows "consistent s'"
proof -
  from assms(2) have sz: "sized s" and cK: "c < m_K s"
    by (auto simp: UpdateReward_def split: if_splits)
  have len: "length (m_T_i s) = m_K s" "length (m_R_i s) = m_K s" "length (m_G_i s) = m_K s"
    "length (m_rewards s) = m_K s" "length (m_qualities s) = m_K s"
    using sz by (simp_all add: sized_def)
  let ?h = "m_channelHistory s"
  have Tc: "m_T_i s ! c = count_list ?h c" using assms(1) cK by (simp add: consistent_def)
  have "count_list ?h c \<le> length ?h" by (rule count_le_length)
  then have nowrap: "(m_T_i s ! c + 1) mod 2 ^ 32 = m_T_i s ! c + 1"
    using Tc assms(3) by simp
  have s': "s' = UpdateEmpiricalMeans
                   (s\<lparr> m_T_i := (m_T_i s)[c := m_T_i s ! c + 1],
                       m_rewards := (m_rewards s)[c := m_rewards s ! c @ [r]],
                       m_qualities := (m_qualities s)[c := m_qualities s ! c @ [q]],
                       m_channelHistory := ?h @ [c] \<rparr>) c"
    using assms(2) sz cK nowrap by (simp add: UpdateReward_def)
  have K': "m_K s' = m_K s" and h': "m_channelHistory s' = ?h @ [c]"
    and T': "m_T_i s' = (m_T_i s)[c := m_T_i s ! c + 1]"
    and r': "m_rewards s' = (m_rewards s)[c := m_rewards s ! c @ [r]]"
    and q': "m_qualities s' = (m_qualities s)[c := m_qualities s ! c @ [q]]"
    and R': "m_R_i s' = (m_R_i s)[c := sum_list (m_rewards s ! c @ [r]) / real (m_T_i s ! c + 1)]"
    and G': "m_G_i s' = (m_G_i s)[c := sum_list (m_qualities s ! c @ [q]) / real (m_T_i s ! c + 1)]"
    using cK len by (simp_all add: s' UpdateEmpiricalMeans_def Let_def)
  have sized': "sized s'"
    using len by (simp add: sized_def K' T' r' q' R' G')
  have hist': "\<forall>x\<in>set (m_channelHistory s'). x < m_K s'"
    using assms(1) cK by (auto simp: h' K' consistent_def)
  have per: "length (m_rewards s' ! i) = count_list (m_channelHistory s') i
           \<and> length (m_qualities s' ! i) = count_list (m_channelHistory s') i
           \<and> m_T_i s' ! i = count_list (m_channelHistory s') i
           \<and> m_R_i s' ! i = (if m_T_i s' ! i > 0
                             then sum_list (m_rewards s' ! i) / real (m_T_i s' ! i) else 0)
           \<and> m_G_i s' ! i = (if m_T_i s' ! i > 0
                             then sum_list (m_qualities s' ! i) / real (m_T_i s' ! i) else 0)"
    if i: "i < m_K s" for i
  proof -
    from assms(1) i have old:
      "length (m_rewards s ! i) = count_list ?h i"
      "length (m_qualities s ! i) = count_list ?h i"
      "m_T_i s ! i = count_list ?h i"
      "m_R_i s ! i = (if m_T_i s ! i > 0
                      then sum_list (m_rewards s ! i) / real (m_T_i s ! i) else 0)"
      "m_G_i s ! i = (if m_T_i s ! i > 0
                      then sum_list (m_qualities s ! i) / real (m_T_i s ! i) else 0)"
      by (simp_all add: consistent_def)
    show ?thesis
    proof (cases "i = c")
      case True
      then show ?thesis
        using old len cK by (simp add: h' T' r' q' R' G' count_list_snoc)
    next
      case False
      then show ?thesis
        using old len i by (simp add: h' T' r' q' R' G' count_list_snoc)
    qed
  qed
  show ?thesis
    unfolding consistent_def using sized' hist' per K' by simp
qed

lemma consistent_SelectChannel:
  assumes "consistent s" and "SelectChannel s = Some (c, s')"
  shows "consistent s'"
  using assms(1) unfolding consistent_def sized_def SelectChannel_keeps [OF assms(2)] .

lemma UpdateReward_params:
  assumes "UpdateReward s c r q = Some s'"
  shows "m_lambda s' = m_lambda s" and "m_lambdaG s' = m_lambdaG s" and "m_K s' = m_K s"
    and "length (m_channelHistory s') = length (m_channelHistory s) + 1"
  using assms
  by (auto simp: UpdateReward_def UpdateEmpiricalMeans_def Let_def split: if_splits)

lemma apply_calls_consistent:
  assumes "consistent s" and "apply_calls s calls = Some s'"
    and "length (m_channelHistory s) + length calls < 2 ^ 32"
  shows "consistent s' \<and> m_lambda s' = m_lambda s \<and> m_lambdaG s' = m_lambdaG s
         \<and> m_K s' = m_K s"
  using assms
proof (induction calls arbitrary: s)
  case Nil
  then show ?case by simp
next
  case (Cons call calls)
  show ?case
  proof (cases call)
    case CallSelect
    have run: "apply_calls s (CallSelect # calls) = Some s'"
      using Cons.prems(2) CallSelect by simp
    then obtain c s1 where sel: "SelectChannel s = Some (c, s1)"
      by (cases "SelectChannel s") auto
    have rest: "apply_calls s1 calls = Some s'"
      using run sel by simp
    note k = SelectChannel_keeps [OF sel]
    have c1: "consistent s1" using Cons.prems(1) sel by (rule consistent_SelectChannel)
    have b1: "length (m_channelHistory s1) + length calls < 2 ^ 32"
      using Cons.prems(3) k(1) by simp
    have "consistent s' \<and> m_lambda s' = m_lambda s1 \<and> m_lambdaG s' = m_lambdaG s1
          \<and> m_K s' = m_K s1"
      using c1 rest b1 by (rule Cons.IH)
    then show ?thesis by (simp only: k(2,8,9))
  next
    case (CallUpdate c r q)
    have run: "apply_calls s (CallUpdate c r q # calls) = Some s'"
      using Cons.prems(2) CallUpdate by simp
    then obtain s1 where upd: "UpdateReward s c r q = Some s1"
      by (cases "UpdateReward s c r q") auto
    have rest: "apply_calls s1 calls = Some s'"
      using run upd by simp
    note p = UpdateReward_params [OF upd]
    have "length (m_channelHistory s) + 1 < 2 ^ 32" using Cons.prems(3) by simp
    with Cons.prems(1) upd have c1: "consistent s1" by (rule consistent_UpdateReward)
    have b1: "length (m_channelHistory s1) + length calls < 2 ^ 32"
      using Cons.prems(3) p(4) by simp
    have "consistent s' \<and> m_lambda s' = m_lambda s1 \<and> m_lambdaG s' = m_lambdaG s1
          \<and> m_K s' = m_K s1"
      using c1 rest b1 by (rule Cons.IH)
    then show ?thesis by (simp only: p(1,2,3))
  qed
qed

lemma loops_agree:
  assumes "\<forall>i\<in>set ids. N_i_of s i = real (m_T_i s' ! i) \<and> R_i_disc_of s i = m_R_i s' ! i
                         \<and> G_i_disc_of s i = m_G_i s' ! i"
    and "W = real (m_n s')" and "m_alpha s = m_alpha s'" and "m_beta s = m_beta s'"
  shows "DQoCA_loop s W G ids m b = QoCA_loop s' G ids m b"
  using assms(1)
proof (induction ids arbitrary: m b)
  case Nil
  then show ?case by simp
next
  case (Cons i ids)
  then show ?case
    using assms(2,3,4) by (simp add: Let_def)
qed

text \<open>
  Claim C5, as the code has it. Take any sequence of \<^verbatim>\<open>SelectChannel\<close> and
  \<^verbatim>\<open>UpdateReward\<close> calls on a \<^verbatim>\<open>BanditAlgorithm\<close> constructed with
  \<open>lambda = lambdaG = 1\<close>. In the state it reaches, the discounted statistics that
  \<^verbatim>\<open>SelectChannelDQoCA\<close> recomputes from the history are the plain statistics of
  QoC-A: both discounted counts of a channel equal \<open>T_i\<close>, the discounted mean reward and
  quality equal \<open>R_i\<close> and \<open>G_i\<close>, the discounted maximal quality equals \<open>G_max\<close>, and
  \<open>W(n)\<close> is the length of the history. The scoring loop of DQoC-A is the scoring loop of
  QoC-A with the packet index \<open>n\<close> replaced by the length of the history; the two
  selections agree when \<open>n\<close> equals that length.
\<close>

theorem DQoCA_reduces_to_QoCA:
  assumes "apply_calls (BanditAlgorithm_init K ty alpha beta 1 1) calls = Some s"
    and "length calls < 2 ^ 32"
  shows "(\<forall>i<K. N_i_of s i = real (m_T_i s ! i) \<and> N_g_i_of s i = real (m_T_i s ! i)
               \<and> R_i_disc_of s i = m_R_i s ! i \<and> G_i_disc_of s i = m_G_i s ! i)
         \<and> G_max_disc_of s = CalculateGmax s
         \<and> W_n_of s = real (length (m_channelHistory s))
         \<and> DQoCA_loop s (W_n_of s) (G_max_disc_of s) [0..<K] None 0
            = QoCA_loop (s\<lparr>m_n := length (m_channelHistory s)\<rparr>) (CalculateGmax s) [0..<K] None 0
         \<and> (m_n s = length (m_channelHistory s) \<longrightarrow> SelectChannelDQoCA s = SelectChannelQoCA s)"
proof -
  let ?s0 = "BanditAlgorithm_init K ty alpha beta 1 1"
  have "length (m_channelHistory ?s0) + length calls < 2 ^ 32"
    using assms(2) by (simp add: BanditAlgorithm_init_def)
  from apply_calls_consistent [OF consistent_init assms(1) this]
  have c: "consistent s" and l: "m_lambda s = 1" and lg: "m_lambdaG s = 1" and K: "m_K s = K"
    by (simp_all add: BanditAlgorithm_init_def)
  note st = disc_stats_one [OF c l lg]
  have stats: "\<forall>i<K. N_i_of s i = real (m_T_i s ! i) \<and> N_g_i_of s i = real (m_T_i s ! i)
               \<and> R_i_disc_of s i = m_R_i s ! i \<and> G_i_disc_of s i = m_G_i s ! i"
    using st K by simp
  have g: "G_max_disc_of s = CalculateGmax s" by (rule G_max_one [OF c l lg])
  have w: "W_n_of s = real (length (m_channelHistory s))" by (rule W_n_one [OF c l lg])
  let ?s' = "s\<lparr>m_n := length (m_channelHistory s)\<rparr>"
  have loop: "DQoCA_loop s (W_n_of s) (G_max_disc_of s) [0..<K] None 0
            = QoCA_loop ?s' (CalculateGmax s) [0..<K] None 0"
    unfolding g by (rule loops_agree) (use stats w in simp_all)
  have sel: "m_n s = length (m_channelHistory s) \<longrightarrow> SelectChannelDQoCA s = SelectChannelQoCA s"
  proof
    assume "m_n s = length (m_channelHistory s)"
    then have "?s' = s" by simp
    then show "SelectChannelDQoCA s = SelectChannelQoCA s"
      using loop K by (simp add: SelectChannelDQoCA_def SelectChannelQoCA_def)
  qed
  show ?thesis using stats g w loop sel by blast
qed

lemma replicate_two: "replicate 2 x = [x, x]"
  by (simp add: numeral_2_eq_2)

lemma witness_state:
  "apply_calls (BanditAlgorithm_init 2 DQOC_A 0.6 2 1 1)
     [CallSelect, CallSelect, CallSelect, CallUpdate 0 0 2, CallUpdate 1 1 1, CallUpdate 1 0 3]
   = Some \<lparr> m_K = 2, m_n = 3, m_T_i = [1, 2], m_R_i = [0, 1 / 2], m_G_i = [2, 2],
            m_rewards = [[0], [1, 0]], m_qualities = [[2], [1, 3]],
            m_channelHistory = [0, 1, 1],
            m_alpha = 0.6, m_beta = 2, m_lambda = 1, m_lambdaG = 1, m_type = DQOC_A,
            m_currentChannel = 0 \<rparr>"
  by (simp add: BanditAlgorithm_init_def SelectChannel_def sized_def Let_def
      UpdateReward_def UpdateEmpiricalMeans_def replicate_two)

theorem DQoCA_reduces_to_QoCA_witness:
  "(let S = \<lparr> m_K = 2, m_n = 3, m_T_i = [1, 2], m_R_i = [0, 1 / 2], m_G_i = [2, 2],
               m_rewards = [[0], [1, 0]], m_qualities = [[2], [1, 3]],
               m_channelHistory = [0, 1, 1],
               m_alpha = 0.6, m_beta = 2, m_lambda = 1, m_lambdaG = 1, m_type = DQOC_A,
               m_currentChannel = 0 \<rparr>
    in apply_calls (BanditAlgorithm_init 2 DQOC_A 0.6 2 1 1)
         [CallSelect, CallSelect, CallSelect, CallUpdate 0 0 2, CallUpdate 1 1 1, CallUpdate 1 0 3]
       = Some S
       \<and> length [CallSelect, CallSelect, CallSelect, CallUpdate 0 0 2, CallUpdate 1 1 1,
                  CallUpdate 1 0 3] < (2 :: nat) ^ 32
       \<and> m_n S = length (m_channelHistory S)
       \<and> N_i_of S 1 = 2 \<and> R_i_disc_of S 1 = 1 / 2 \<and> G_i_disc_of S 1 = 2
       \<and> W_n_of S = 3
       \<and> SelectChannelDQoCA S = SelectChannelQoCA S)"
proof -
  let ?S = "\<lparr> m_K = 2, m_n = 3, m_T_i = [1, 2], m_R_i = [0, 1 / 2], m_G_i = [2, 2],
               m_rewards = [[0], [1, 0]], m_qualities = [[2], [1, 3]],
               m_channelHistory = [0, 1, 1],
               m_alpha = 0.6, m_beta = 2, m_lambda = 1, m_lambdaG = 1, m_type = DQOC_A,
               m_currentChannel = 0 \<rparr>"
  let ?calls = "[CallSelect, CallSelect, CallSelect, CallUpdate 0 0 2, CallUpdate 1 1 1,
                 CallUpdate 1 0 3]"
  have h2: "length ?calls < (2 :: nat) ^ 32" by simp
  note t = DQoCA_reduces_to_QoCA [OF witness_state h2]
  have one: "(1::nat) < 2" by simp
  have n: "N_i_of ?S 1 = 2" "R_i_disc_of ?S 1 = 1 / 2" "G_i_disc_of ?S 1 = 2"
    using t one by auto
  have w: "W_n_of ?S = 3" using t by simp
  have e: "SelectChannelDQoCA ?S = SelectChannelQoCA ?S" using t by simp
  show ?thesis
    unfolding Let_def using witness_state h2 n w e by simp
qed

text \<open>
  The claim as stated also equates the two selections on every history. In
  \<^verbatim>\<open>RunSimulation\<close> each selection is followed by one update, so at the third
  selection \<open>n = 3\<close> while the history has two entries: QoC-A scores with \<open>ln 3\<close> and
  DQoC-A with \<open>ln W(n) = ln 2\<close>. With two channels, \<open>beta = 2\<close>, rewards 0 and 1 and
  qualities 2 and 1 in the first two cycles, the scores of channel 1 and channel 0
  differ by \<open>1 - ln 3 < 0\<close> for QoC-A and by \<open>1 - ln 2 > 0\<close> for DQoC-A: QoC-A selects
  channel 0 and DQoC-A channel 1.
\<close>

lemma ln3_ge_1: "1 \<le> ln (3::real)"
proof -
  have "ln (exp 1) \<le> ln (3::real)"
    using exp_le by (intro ln_mono) simp_all
  then show ?thesis by simp
qed

lemma two_rounds:
  assumes "ty = QOC_A \<or> ty = DQOC_A"
  shows "bandit_run (BanditAlgorithm_init 2 ty 0.6 2 1 1) [(0, 2), (1, 1)]
         = Some ([0, 1],
             \<lparr> m_K = 2, m_n = 2, m_T_i = [1, 1], m_R_i = [0, 1], m_G_i = [2, 1],
               m_rewards = [[0], [1]], m_qualities = [[2], [1]], m_channelHistory = [0, 1],
               m_alpha = 0.6, m_beta = 2, m_lambda = 1, m_lambdaG = 1, m_type = ty,
               m_currentChannel = 0 \<rparr>)"
  using assms
  by (auto simp: BanditAlgorithm_init_def SelectChannel_def sized_def Let_def
      SelectChannelQoCA_def SelectChannelDQoCA_def UpdateReward_def UpdateEmpiricalMeans_def
      replicate_two)

lemma qoca_third:
  "SelectChannelQoCA
     \<lparr> m_K = 2, m_n = 3, m_T_i = [1, 1], m_R_i = [0, 1], m_G_i = [2, 1],
       m_rewards = [[0], [1]], m_qualities = [[2], [1]], m_channelHistory = [0, 1],
       m_alpha = 0.6, m_beta = 2, m_lambda = 1, m_lambdaG = 1, m_type = QOC_A,
       m_currentChannel = 0 \<rparr> = 0"
proof -
  have n: "\<not> ln (3::real) < 1" using ln3_ge_1 by simp
  show ?thesis
    by (simp add: SelectChannelQoCA_def CalculateGmax_def upt_rec Let_def exceeds_def n)
qed

lemma dqoca_third:
  "SelectChannelDQoCA
     \<lparr> m_K = 2, m_n = 3, m_T_i = [1, 1], m_R_i = [0, 1], m_G_i = [2, 1],
       m_rewards = [[0], [1]], m_qualities = [[2], [1]], m_channelHistory = [0, 1],
       m_alpha = 0.6, m_beta = 2, m_lambda = 1, m_lambdaG = 1, m_type = DQOC_A,
       m_currentChannel = 0 \<rparr> = 1"
  by (simp add: SelectChannelDQoCA_def W_n_of_def N_i_of_def N_g_i_of_def discounted_count_def
      G_max_disc_of_def G_i_disc_of_def R_i_disc_of_def discounted_sums_def
      upt_rec Let_def exceeds_def ln_2_less_1)

lemma bandit_run_append:
  "bandit_run s (xs @ ys)
   = (case bandit_run s xs of
        None \<Rightarrow> None
      | Some (cs, s1) \<Rightarrow>
          (case bandit_run s1 ys of None \<Rightarrow> None | Some (ds, s2) \<Rightarrow> Some (cs @ ds, s2)))"
proof (induction xs arbitrary: s)
  case Nil
  then show ?case by (simp split: option.splits)
next
  case (Cons x xs)
  obtain reward quality where x: "x = (reward, quality)" by (cases x)
  show ?case
    by (simp add: x Cons split: option.splits prod.splits)
qed

lemma third_round_qoca:
  "\<exists>s3. bandit_run
          \<lparr> m_K = 2, m_n = 2, m_T_i = [1, 1], m_R_i = [0, 1], m_G_i = [2, 1],
            m_rewards = [[0], [1]], m_qualities = [[2], [1]], m_channelHistory = [0, 1],
            m_alpha = 0.6, m_beta = 2, m_lambda = 1, m_lambdaG = 1, m_type = QOC_A,
            m_currentChannel = 0 \<rparr> [(0, 0)] = Some ([0], s3)"
  using qoca_third by (simp add: SelectChannel_def sized_def Let_def UpdateReward_def)

lemma third_round_dqoca:
  "\<exists>s3. bandit_run
          \<lparr> m_K = 2, m_n = 2, m_T_i = [1, 1], m_R_i = [0, 1], m_G_i = [2, 1],
            m_rewards = [[0], [1]], m_qualities = [[2], [1]], m_channelHistory = [0, 1],
            m_alpha = 0.6, m_beta = 2, m_lambda = 1, m_lambdaG = 1, m_type = DQOC_A,
            m_currentChannel = 0 \<rparr> [(0, 0)] = Some ([1], s3)"
  using dqoca_third by (simp add: SelectChannel_def sized_def Let_def UpdateReward_def)

theorem DQoCA_selection_differs:
  "map_option fst (bandit_run (BanditAlgorithm_init 2 QOC_A 0.6 2 1 1) [(0, 2), (1, 1), (0, 0)])
     = Some [0, 1, 0]
   \<and> map_option fst (bandit_run (BanditAlgorithm_init 2 DQOC_A 0.6 2 1 1) [(0, 2), (1, 1), (0, 0)])
     = Some [0, 1, 1]"
proof -
  have q2: "bandit_run (BanditAlgorithm_init 2 QOC_A 0.6 2 1 1) [(0, 2), (1, 1)]
         = Some ([0, 1],
             \<lparr> m_K = 2, m_n = 2, m_T_i = [1, 1], m_R_i = [0, 1], m_G_i = [2, 1],
               m_rewards = [[0], [1]], m_qualities = [[2], [1]], m_channelHistory = [0, 1],
               m_alpha = 0.6, m_beta = 2, m_lambda = 1, m_lambdaG = 1, m_type = QOC_A,
               m_currentChannel = 0 \<rparr>)"
    by (rule two_rounds) simp
  have d2: "bandit_run (BanditAlgorithm_init 2 DQOC_A 0.6 2 1 1) [(0, 2), (1, 1)]
         = Some ([0, 1],
             \<lparr> m_K = 2, m_n = 2, m_T_i = [1, 1], m_R_i = [0, 1], m_G_i = [2, 1],
               m_rewards = [[0], [1]], m_qualities = [[2], [1]], m_channelHistory = [0, 1],
               m_alpha = 0.6, m_beta = 2, m_lambda = 1, m_lambdaG = 1, m_type = DQOC_A,
               m_currentChannel = 0 \<rparr>)"
    by (rule two_rounds) simp
  obtain q3 where q3: "bandit_run
          \<lparr> m_K = 2, m_n = 2, m_T_i = [1, 1], m_R_i = [0, 1], m_G_i = [2, 1],
            m_rewards = [[0], [1]], m_qualities = [[2], [1]], m_channelHistory = [0, 1],
            m_alpha = 0.6, m_beta = 2, m_lambda = 1, m_lambdaG = 1, m_type = QOC_A,
            m_currentChannel = 0 \<rparr> [(0, 0)] = Some ([0], q3)"
    using third_round_qoca by blast
  obtain d3 where d3: "bandit_run
          \<lparr> m_K = 2, m_n = 2, m_T_i = [1, 1], m_R_i = [0, 1], m_G_i = [2, 1],
            m_rewards = [[0], [1]], m_qualities = [[2], [1]], m_channelHistory = [0, 1],
            m_alpha = 0.6, m_beta = 2, m_lambda = 1, m_lambdaG = 1, m_type = DQOC_A,
            m_currentChannel = 0 \<rparr> [(0, 0)] = Some ([1], d3)"
    using third_round_dqoca by blast
  have q: "bandit_run (BanditAlgorithm_init 2 QOC_A 0.6 2 1 1) ([(0, 2), (1, 1)] @ [(0, 0)])
           = Some ([0, 1] @ [0], q3)"
    by (simp only: bandit_run_append q2 q3 option.case prod.case)
  have d: "bandit_run (BanditAlgorithm_init 2 DQOC_A 0.6 2 1 1) ([(0, 2), (1, 1)] @ [(0, 0)])
           = Some ([0, 1] @ [1], d3)"
    by (simp only: bandit_run_append d2 d3 option.case prod.case)
  show ?thesis using q d by simp
qed

section \<open>Averages before any transmission\<close>


















section \<open>Forced exploration\<close>

text \<open>
  A sequence of selections among \<open>K\<close> arms explores first when every selection made
  while some arm is still unselected picks an unselected arm; a prefix of such a
  sequence explores first as well.
\<close>

lemma explores_first_prefix:
  assumes "take K sels = [0..<min K (length sels)]"
  shows "explores_first K sels"
  unfolding explores_first_def
proof (intro allI impI)
  fix j assume j: "j < length sels" and miss: "\<exists>c<K. c \<notin> set (take j sels)"
  show "sels ! j < K \<and> sels ! j \<notin> set (take j sels)"
  proof (cases "j < K")
    case True
    then have jm: "j < min K (length sels)" using j by simp
    have "sels ! j = take K sels ! j" using True by simp
    also have "\<dots> = [0..<min K (length sels)] ! j" using assms by simp
    also have "\<dots> = j" using jm by simp
    finally have e: "sels ! j = j" .
    have "take j sels = take j (take K sels)" using True by (simp add: min_def)
    also have "\<dots> = take j [0..<min K (length sels)]" using assms by simp
    also have "\<dots> = [0..<j]" using jm by (simp add: take_upt)
    finally have "take j sels = [0..<j]" .
    then show ?thesis using e True by simp
  next
    case False
    then have K: "K \<le> j" by simp
    then have "min K (length sels) = K" using j by simp
    then have tk: "take K sels = [0..<K]" using assms by simp
    have "set (take K sels) \<subseteq> set (take j sels)" using K by (rule set_take_subset_set_take)
    then have "\<forall>c<K. c \<in> set (take j sels)" using tk by auto
    then show ?thesis using miss by blast
  qed
qed

lemma QoCA_loop_first_untried:
  assumes "\<exists>i\<in>set ids. m_T_i s ! i = 0"
  shows "Some (QoCA_loop s G ids m b) = find (\<lambda>i. m_T_i s ! i = 0) ids"
  using assms
proof (induction ids arbitrary: m b)
  case Nil
  then show ?case by simp
next
  case (Cons i ids)
  show ?case
  proof (cases "m_T_i s ! i = 0")
    case True
    then show ?thesis by simp
  next
    case False
    then have "\<exists>i\<in>set ids. m_T_i s ! i = 0" using Cons.prems by auto
    from Cons.IH [OF this] show ?thesis using False by (simp add: Let_def)
  qed
qed

lemma DQoCA_loop_first_untried:
  assumes "\<exists>i\<in>set ids. N_i_of s i = 0"
  shows "Some (DQoCA_loop s W G ids m b) = find (\<lambda>i. N_i_of s i = 0) ids"
  using assms
proof (induction ids arbitrary: m b)
  case Nil
  then show ?case by simp
next
  case (Cons i ids)
  show ?case
  proof (cases "N_i_of s i = 0")
    case True
    then show ?thesis by simp
  next
    case False
    then have "\<exists>i\<in>set ids. N_i_of s i = 0" using Cons.prems by auto
    from Cons.IH [OF this] show ?thesis using False by (simp add: Let_def)
  qed
qed

lemma UCB_loop_range: "UCB_loop s ids m b \<in> insert b (set ids)"
proof (induction ids arbitrary: m b)
  case Nil
  then show ?case by simp
next
  case (Cons i ids)
  show ?case
    using Cons.IH [of "Some (m_R_i s ! i + m_alpha s * sqrt (ln (real (m_n s)) / real (m_T_i s ! i)))" i]
      Cons.IH [of m b]
    by (auto simp: Let_def)
qed

lemma QoCA_loop_range: "QoCA_loop s G ids m b \<in> insert b (set ids)"
proof (induction ids arbitrary: m b)
  case Nil
  then show ?case by simp
next
  case (Cons i ids)
  have a: "QoCA_loop s G ids m' i \<in> insert i (set ids)" for m' by (rule Cons.IH)
  have b: "QoCA_loop s G ids m b \<in> insert b (set ids)" by (rule Cons.IH)
  show ?case using a b by (auto simp: Let_def)
qed

lemma DQoCA_loop_range: "DQoCA_loop s W G ids m b \<in> insert b (set ids)"
proof (induction ids arbitrary: m b)
  case Nil
  then show ?case by simp
next
  case (Cons i ids)
  have a: "DQoCA_loop s W G ids m' i \<in> insert i (set ids)" for m' by (rule Cons.IH)
  have b: "DQoCA_loop s W G ids m b \<in> insert b (set ids)" by (rule Cons.IH)
  show ?case using a b by (auto simp: Let_def)
qed

lemma select_in_range:
  assumes "0 < m_K s" and "0 < m_n s" and "m_n s < 2 ^ 32"
  shows "SelectChannelUCB s < m_K s" and "SelectChannelQoCA s < m_K s"
    and "SelectChannelDQoCA s < m_K s"
proof -
  have init: "(m_n s + 2 ^ 32 - 1) mod 2 ^ 32 < m_K s" if "m_n s \<le> m_K s"
  proof -
    obtain k where k: "m_n s = k + 1" using assms(2) by (cases "m_n s") auto
    have "(k + 1 + 2 ^ 32 - 1) mod 2 ^ 32 = k" using assms(3) k by simp
    then show ?thesis using that unfolding k by simp
  qed
  have r: "x \<in> insert 0 (set [0..<m_K s]) \<Longrightarrow> x < m_K s" for x using assms(1) by auto
  show "SelectChannelUCB s < m_K s"
    using init r [OF UCB_loop_range] by (simp add: SelectChannelUCB_def)
  show "SelectChannelQoCA s < m_K s"
    using init r [OF QoCA_loop_range] by (simp add: SelectChannelQoCA_def)
  show "SelectChannelDQoCA s < m_K s"
    using init r [OF DQoCA_loop_range] by (simp add: SelectChannelDQoCA_def)
qed

lemma bandit_step:
  assumes "sized s" and "0 < m_K s" and "m_n s + 1 < 2 ^ 32" and "m_type s \<noteq> UNIFORM"
  shows "\<exists>c s1 s2. SelectChannel s = Some (c, s1) \<and> UpdateReward s1 c reward quality = Some s2
           \<and> sized s2 \<and> m_K s2 = m_K s \<and> m_type s2 = m_type s \<and> m_n s2 = m_n s + 1"
proof -
  let ?s1 = "s\<lparr>m_n := (m_n s + 1) mod 2 ^ 32\<rparr>"
  have n1: "m_n ?s1 = m_n s + 1" using assms(3) by simp
  have p: "0 < m_K ?s1" "0 < m_n ?s1" "m_n ?s1 < 2 ^ 32" using assms(2,3) n1 by simp_all
  note r = select_in_range [OF p]
  obtain c where sel: "SelectChannel s = Some (c, ?s1)" and c: "c < m_K s"
  proof (cases "m_type s")
    case UNIFORM
    then show ?thesis using assms(4) by simp
  next
    case UCB
    then have "SelectChannel s = Some (SelectChannelUCB ?s1, ?s1)"
      unfolding SelectChannel_def Let_def using assms(1) by simp
    then show ?thesis using r(1) that by simp
  next
    case QOC_A
    then have "SelectChannel s = Some (SelectChannelQoCA ?s1, ?s1)"
      unfolding SelectChannel_def Let_def using assms(1) by simp
    then show ?thesis using r(2) that by simp
  next
    case DQOC_A
    then have "SelectChannel s = Some (SelectChannelDQoCA ?s1, ?s1)"
      unfolding SelectChannel_def Let_def using assms(1) by simp
    then show ?thesis using r(3) that by simp
  qed
  have "sized ?s1 \<and> c < m_K ?s1" using assms(1) c by (simp add: sized_def)
  then obtain s2 where upd: "UpdateReward ?s1 c reward quality = Some s2"
    by (simp add: UpdateReward_def)
  note k = UpdateReward_keeps [OF upd]
  show ?thesis using sel upd k n1 by simp
qed

lemma bandit_run_total:
  assumes "sized s" and "0 < m_K s" and "m_n s + length obs < 2 ^ 32" and "m_type s \<noteq> UNIFORM"
  shows "\<exists>chans s'. bandit_run s obs = Some (chans, s') \<and> length chans = length obs"
  using assms
proof (induction obs arbitrary: s)
  case Nil
  then show ?case by simp
next
  case (Cons ob obs)
  obtain reward quality where ob: "ob = (reward, quality)" by (cases ob)
  have "m_n s + 1 < 2 ^ 32" using Cons.prems(3) by simp
  from bandit_step [OF Cons.prems(1,2) this Cons.prems(4), of reward quality]
  obtain c s1 s2 where st: "SelectChannel s = Some (c, s1)"
    "UpdateReward s1 c reward quality = Some s2"
    "sized s2" "m_K s2 = m_K s" "m_type s2 = m_type s" "m_n s2 = m_n s + 1"
    by blast
  have "\<exists>chans s'. bandit_run s2 obs = Some (chans, s') \<and> length chans = length obs"
    using st Cons.prems by (intro Cons.IH) simp_all
  then obtain chans s' where "bandit_run s2 obs = Some (chans, s')" "length chans = length obs"
    by blast
  then show ?case using st ob by simp
qed

lemma bandit_run_keeps:
  assumes "bandit_run s obs = Some (chans, s')" and "m_n s + length obs < 2 ^ 32"
  shows "(sized s \<longrightarrow> sized s') \<and> m_K s' = m_K s \<and> m_type s' = m_type s
         \<and> m_n s' = m_n s + length obs"
  using assms
proof (induction obs arbitrary: s chans)
  case Nil
  then show ?case by simp
next
  case (Cons ob obs)
  obtain reward quality where ob: "ob = (reward, quality)" by (cases ob)
  from Cons.prems(1) obtain c s1 s2 rest where
    sel: "SelectChannel s = Some (c, s1)" and upd: "UpdateReward s1 c reward quality = Some s2"
    and r: "bandit_run s2 obs = Some (rest, s')"
    by (auto simp: ob split: option.splits prod.splits)
  have s1: "m_K s1 = m_K s \<and> m_type s1 = m_type s \<and> m_n s1 = m_n s + 1"
    using sel Cons.prems(2)
    by (auto simp: SelectChannel_def SelectChannelUniform_def Let_def
        split: if_splits AlgorithmType.splits)
  note k = UpdateReward_keeps [OF upd]
  have n2: "m_n s2 + length obs < 2 ^ 32" using k s1 Cons.prems(2) by simp
  from Cons.IH [OF r n2] show ?case using k s1 by simp
qed

lemma bandit_run_lockstep:
  assumes "0 < K" and "K < 2 ^ 32" and "length obs < 2 ^ 32" and "ty \<noteq> UNIFORM"
  shows "\<exists>chans s'. bandit_run (BanditAlgorithm_init K ty alpha beta lambda lambdaG) obs
                       = Some (chans, s')
           \<and> length chans = length obs
           \<and> take K chans = [0..<min K (length obs)]
           \<and> explores_first K chans"
proof -
  let ?s = "BanditAlgorithm_init K ty alpha beta lambda lambdaG"
  let ?a = "take K obs" and ?b = "drop K obs"
  have s: "sized ?s" "m_n ?s = 0" "m_K ?s = K" "m_type ?s = ty"
    by (simp_all add: BanditAlgorithm_init_def sized_def)
  have la: "length ?a = min K (length obs)" by (simp add: min.commute)
  have "m_n ?s + length ?a \<le> m_K ?s" using s by simp
  from bandit_run_init_phase [OF s(1) _ this] assms s
  obtain s1 where r1: "bandit_run ?s ?a = Some ([0..<length ?a], s1)" by auto
  have n1: "m_n ?s + length ?a < 2 ^ 32" using s assms(2) by simp
  note k1 = bandit_run_keeps [OF r1 n1]
  have "m_n s1 + length ?b < 2 ^ 32" using k1 s assms(3) by simp
  moreover have "sized s1" using k1 s by simp
  moreover have "0 < m_K s1" "m_type s1 \<noteq> UNIFORM" using k1 s assms by simp_all
  ultimately obtain rest s' where r2: "bandit_run s1 ?b = Some (rest, s')"
    and lr: "length rest = length ?b"
    using bandit_run_total [of s1 ?b] by blast
  have "bandit_run ?s (?a @ ?b) = Some ([0..<length ?a] @ rest, s')"
    by (simp only: bandit_run_append r1 r2 option.case prod.case)
  then have run: "bandit_run ?s obs = Some ([0..<length ?a] @ rest, s')" by simp
  let ?chans = "[0..<length ?a] @ rest"
  have len: "length ?chans = length obs" using lr by simp
  have "rest = []" if "\<not> K \<le> length obs" using lr that by simp
  then have "take K ?chans = [0..<length ?a]" using la by (cases "K \<le> length obs") simp_all
  then have tk: "take K ?chans = [0..<min K (length obs)]" using la by simp
  then have "take K ?chans = [0..<min K (length ?chans)]" using len by simp
  then have "explores_first K ?chans" by (rule explores_first_prefix)
  then show ?thesis using run len tk by blast
qed

text \<open>
  In the lockstep loop of \<^verbatim>\<open>RunSimulation\<close> the counter \<open>T_i\<close> of a channel is the
  number of times the channel was selected, so that the selections explore first.
\<close>

lemma bandit_run_counts:
  assumes "consistent s" and "bandit_run s obs = Some (chans, s')"
    and "length (m_channelHistory s) + length obs < 2 ^ 32"
  shows "consistent s' \<and> m_channelHistory s' = m_channelHistory s @ chans"
  using assms
proof (induction obs arbitrary: s chans)
  case Nil
  then show ?case by simp
next
  case (Cons ob obs)
  obtain reward quality where ob: "ob = (reward, quality)" by (cases ob)
  from Cons.prems(2) obtain c s1 s2 rest where
    sel: "SelectChannel s = Some (c, s1)" and upd: "UpdateReward s1 c reward quality = Some s2"
    and r: "bandit_run s2 obs = Some (rest, s')" and ch: "chans = c # rest"
    by (auto simp: ob split: option.splits prod.splits)
  have c1: "consistent s1" using Cons.prems(1) sel by (rule consistent_SelectChannel)
  have h1: "m_channelHistory s1 = m_channelHistory s" using SelectChannel_keeps(1) [OF sel] .
  have l1: "length (m_channelHistory s1) + 1 < 2 ^ 32" using h1 Cons.prems(3) by simp
  have c2: "consistent s2" using c1 upd l1 by (rule consistent_UpdateReward)
  have h2: "m_channelHistory s2 = m_channelHistory s @ [c]"
    using upd h1 by (auto simp: UpdateReward_def UpdateEmpiricalMeans_def Let_def split: if_splits)
  have l2: "length (m_channelHistory s2) + length obs < 2 ^ 32" using h2 Cons.prems(3) by simp
  from Cons.IH [OF c2 r l2] show ?case using h2 ch by simp
qed

lemma bandit_run_lockstep_counts:
  assumes "bandit_run (BanditAlgorithm_init K ty alpha beta lambda lambdaG) obs = Some (chans, s')"
    and "length obs < 2 ^ 32" and "c < K"
  shows "m_T_i s' ! c = count_list chans c"
proof -
  let ?s = "BanditAlgorithm_init K ty alpha beta lambda lambdaG"
  have h: "m_channelHistory ?s = []" by (simp add: BanditAlgorithm_init_def)
  from bandit_run_counts [OF consistent_init assms(1)] assms(2) h
  have c: "consistent s'" and hist: "m_channelHistory s' = chans" by simp_all
  have "m_K s' = K"
  proof -
    have "m_n ?s + length obs < 2 ^ 32" using assms(2) by (simp add: BanditAlgorithm_init_def)
    from bandit_run_keeps [OF assms(1) this] show ?thesis by (simp add: BanditAlgorithm_init_def)
  qed
  then show ?thesis using c hist assms(3) by (simp add: consistent_def)
qed

text \<open>
  lora-ucb1-simulation.cc: an untried pair scores plus infinity, which no later score
  exceeds; \<^verbatim>\<open>StartApplication\<close> under the name UCB1-tuned transmits once on every
  pair.
\<close>

lemma UCB1_loop_top:
  "UCB1_loop ucbStats n pairs (PlusInfinity, c, t) = (PlusInfinity, c, t)"
proof (induction pairs)
  case Nil
  then show ?case by simp
next
  case (Cons p pairs)
  obtain ch tp where p: "p = (ch, tp)" by (cases p)
  have "\<not> greater x PlusInfinity" for x by (cases x) simp_all
  then show ?case using Cons by (simp add: p)
qed

lemma UCB1_loop_first_untried:
  assumes "\<exists>p\<in>set pairs. selectionsCount (at_map ucbStats UCBStats_init p) = 0"
    and "bestScore \<noteq> PlusInfinity"
  shows "Some (snd (UCB1_loop ucbStats n pairs (bestScore, c, t)))
         = find (\<lambda>p. selectionsCount (at_map ucbStats UCBStats_init p) = 0) pairs"
  using assms
proof (induction pairs arbitrary: bestScore c t)
  case Nil
  then show ?case by simp
next
  case (Cons p pairs)
  obtain ch tp where p: "p = (ch, tp)" by (cases p)
  show ?case
  proof (cases "selectionsCount (at_map ucbStats UCBStats_init (ch, tp)) = 0")
    case True
    then have sc: "CalculateUCBScore ucbStats ch tp n = PlusInfinity"
      by (simp add: CalculateUCBScore_def)
    have "greater PlusInfinity bestScore" using Cons.prems(2) by (cases bestScore) simp_all
    then show ?thesis using True sc by (simp add: p UCB1_loop_top)
  next
    case False
    then obtain x where sc: "CalculateUCBScore ucbStats ch tp n = Finite x"
      by (simp add: CalculateUCBScore_def Let_def)
    have ex: "\<exists>p\<in>set pairs. selectionsCount (at_map ucbStats UCBStats_init p) = 0"
      using Cons.prems(1) False p by auto
    have a: "Some (snd (UCB1_loop ucbStats n pairs (Finite x, ch, tp)))
             = find (\<lambda>p. selectionsCount (at_map ucbStats UCBStats_init p) = 0) pairs"
      using ex by (intro Cons.IH) simp_all
    have b: "Some (snd (UCB1_loop ucbStats n pairs (bestScore, c, t)))
             = find (\<lambda>p. selectionsCount (at_map ucbStats UCBStats_init p) = 0) pairs"
      using ex Cons.prems(2) by (intro Cons.IH)
    show ?thesis using False a b by (simp add: p sc)
  qed
qed

lemma SelectTransmissionParametersUCB1_first_untried:
  assumes "\<exists>p\<in>set (arm_pairs channels powers). selectionsCount (at_map ucbStats UCBStats_init p) = 0"
  shows "SelectTransmissionParametersUCB1 ucbStats n channels powers
         = find (\<lambda>p. selectionsCount (at_map ucbStats UCBStats_init p) = 0) (arm_pairs channels powers)"
proof -
  from assms have ne: "channels \<noteq> []" "powers \<noteq> []" by (auto simp: arm_pairs_def)
  then obtain ch0 cs tp0 ts where cp: "channels = ch0 # cs" "powers = tp0 # ts"
    by (cases channels; cases powers) auto
  have v: "vec_at channels 0 = Some ch0" "vec_at powers 0 = Some tp0"
    by (simp_all add: cp vec_at_def)
  have "Some (snd (UCB1_loop ucbStats n (arm_pairs channels powers) (MinusInfinity, ch0, tp0)))
        = find (\<lambda>p. selectionsCount (at_map ucbStats UCBStats_init p) = 0) (arm_pairs channels powers)"
    using assms by (intro UCB1_loop_first_untried) simp_all
  moreover obtain x a b where
    l: "UCB1_loop ucbStats n (arm_pairs channels powers) (MinusInfinity, ch0, tp0) = (x, a, b)"
    by (cases "UCB1_loop ucbStats n (arm_pairs channels powers) (MinusInfinity, ch0, tp0)")
  ultimately show ?thesis
    by (simp add: SelectTransmissionParametersUCB1_def v)
qed

lemma init_ucbStats_untried:
  "selectionsCount (at_map (init_ucbStats channels powers) UCBStats_init p) = 0"
proof -
  have "\<forall>v. map_of (fold (\<lambda>key m. AList.update key UCBStats_init m) keys m) p = Some v
            \<longrightarrow> v = UCBStats_init"
    if "\<forall>v. map_of m p = Some v \<longrightarrow> v = UCBStats_init"
    for keys :: "(real \<times> int) list" and m
    using that
  proof (induction keys arbitrary: m)
    case Nil
    then show ?case by simp
  next
    case (Cons k keys)
    have "\<forall>v. map_of (AList.update k UCBStats_init m) p = Some v \<longrightarrow> v = UCBStats_init"
      using Cons.prems by (simp add: update_conv')
    from Cons.IH [OF this] show ?case by simp
  qed
  from this [of "[]" "arm_pairs channels powers"]
  have "at_map (init_ucbStats channels powers) UCBStats_init p = UCBStats_init"
    by (auto simp: init_ucbStats_def at_map_def split: option.splits)
  then show ?thesis by (simp add: UCBStats_init_def)
qed

lemma UpdateStatistics_stats_count:
  "selectionsCount (at_map (UpdateStatistics_stats stats ch tp success e) UCBStats_init p)
   = (if p = (ch, tp) then selectionsCount (at_map stats UCBStats_init (ch, tp)) + 1
      else selectionsCount (at_map stats UCBStats_init p))"
  by (simp add: UpdateStatistics_stats_def Let_def at_map_update)

lemma exploration_fold:
  fixes xs :: "(nat \<times> real \<times> int) list"
  assumes "fold (\<lambda>(k, (ch, tp)) (stats, attempts).
                   (case outcome k of
                      (success, E_ToA_val) \<Rightarrow>
                        (UpdateStatistics_stats stats ch tp success E_ToA_val,
                         attempts @ [(ch, tp, success)])))
                xs (stats, att) = (stats', att')"
    and "\<forall>p. 0 \<le> selectionsCount (at_map stats UCBStats_init p)"
  shows "map (\<lambda>(ch, tp, success). (ch, tp)) att'
           = map (\<lambda>(ch, tp, success). (ch, tp)) att @ map snd xs
         \<and> (\<forall>p. selectionsCount (at_map stats UCBStats_init p)
                  \<le> selectionsCount (at_map stats' UCBStats_init p))
         \<and> (\<forall>p\<in>set (map snd xs). 1 \<le> selectionsCount (at_map stats' UCBStats_init p))"
  using assms
proof (induction xs arbitrary: stats att)
  case Nil
  then show ?case by simp
next
  case (Cons x xs)
  obtain k ch tp where x: "x = (k, ch, tp)" by (cases x)
  obtain success e where o: "outcome k = (success, e)" by (cases "outcome k")
  let ?stats1 = "UpdateStatistics_stats stats ch tp success e"
  let ?att1 = "att @ [(ch, tp, success)]"
  have run1: "fold (\<lambda>(k, (ch, tp)) (stats, attempts).
                   (case outcome k of
                      (success, E_ToA_val) \<Rightarrow>
                        (UpdateStatistics_stats stats ch tp success E_ToA_val,
                         attempts @ [(ch, tp, success)])))
                xs (?stats1, ?att1) = (stats', att')"
    using Cons.prems(1) by (simp add: x o)
  have nn1: "\<forall>p. 0 \<le> selectionsCount (at_map ?stats1 UCBStats_init p)"
    using Cons.prems(2) by (simp add: UpdateStatistics_stats_count)
  have mono1: "selectionsCount (at_map stats UCBStats_init p)
                 \<le> selectionsCount (at_map ?stats1 UCBStats_init p)" for p
    by (simp add: UpdateStatistics_stats_count)
  have one: "1 \<le> selectionsCount (at_map ?stats1 UCBStats_init (ch, tp))"
    using Cons.prems(2) by (simp add: UpdateStatistics_stats_count)
  note ih = Cons.IH [OF run1 nn1]
  have ih1: "map (\<lambda>(ch, tp, success). (ch, tp)) att'
             = map (\<lambda>(ch, tp, success). (ch, tp)) ?att1 @ map snd xs"
    using ih by (rule conjunct1)
  have ih2: "selectionsCount (at_map ?stats1 UCBStats_init p)
                 \<le> selectionsCount (at_map stats' UCBStats_init p)" for p
    using ih by blast
  have ih3: "\<forall>p\<in>set (map snd xs). 1 \<le> selectionsCount (at_map stats' UCBStats_init p)"
    using ih by blast
  have a: "map (\<lambda>(ch, tp, success). (ch, tp)) att'
           = map (\<lambda>(ch, tp, success). (ch, tp)) att @ map snd (x # xs)"
    using ih1 by (simp add: x)
  have b: "\<forall>p. selectionsCount (at_map stats UCBStats_init p)
               \<le> selectionsCount (at_map stats' UCBStats_init p)"
    using ih2 mono1 order_trans by blast
  have "1 \<le> selectionsCount (at_map stats' UCBStats_init (ch, tp))"
    using one ih2 [of "(ch, tp)"] by simp
  then have c: "\<forall>p\<in>set (map snd (x # xs)). 1 \<le> selectionsCount (at_map stats' UCBStats_init p)"
    using ih3 by (simp add: x)
  show ?case using a b c by blast
qed

lemma StartApplication_explores:
  assumes "StartApplication ''UCB1-tuned'' channels powers outcome (init_ucbStats channels powers)
           = (stats', attempts)"
  shows "map (\<lambda>(ch, tp, success). (ch, tp)) attempts = arm_pairs channels powers"
    and "\<forall>p\<in>set (arm_pairs channels powers). 1 \<le> selectionsCount (at_map stats' UCBStats_init p)"
proof -
  have f: "fold (\<lambda>(k, (ch, tp)) (stats, attempts).
                   (case outcome k of
                      (success, E_ToA_val) \<Rightarrow>
                        (UpdateStatistics_stats stats ch tp success E_ToA_val,
                         attempts @ [(ch, tp, success)])))
                (enumerate 0 (arm_pairs channels powers)) (init_ucbStats channels powers, [])
           = (stats', attempts)"
    using assms by (simp add: StartApplication_def)
  have nn: "\<forall>p. 0 \<le> selectionsCount (at_map (init_ucbStats channels powers) UCBStats_init p)"
    by (simp add: init_ucbStats_untried)
  have m: "map snd (enumerate 0 (arm_pairs channels powers)) = arm_pairs channels powers"
    by simp
  show "map (\<lambda>(ch, tp, success). (ch, tp)) attempts = arm_pairs channels powers"
    using exploration_fold [OF f nn] m by simp
  show "\<forall>p\<in>set (arm_pairs channels powers). 1 \<le> selectionsCount (at_map stats' UCBStats_init p)"
    using exploration_fold [OF f nn] m by simp
qed

text \<open>
  tow-lorawan-simulation.cc: an arm of \<^verbatim>\<open>UCB1TunedAlgorithm\<close> with no pull scores
  \<^verbatim>\<open>DBL_MAX\<close>, which the score of a pulled arm with a mean of at most half of
  \<^verbatim>\<open>DBL_MAX\<close> does not exceed.
\<close>

lemma ln_nat_nonneg: "0 \<le> ln (real (n::nat))"
  by (cases n) simp_all

lemma CalculateUCB1Tuned_tried_below_max:
  assumes "pulls arm \<noteq> 0" and "mean arm \<le> DBL_MAX / 2" and "time < 2 ^ 32"
  shows "CalculateUCB1Tuned arm time < DBL_MAX"
proof -
  let ?n = "real (pulls arm)"
  let ?c = "ln (real time) / ?n"
  let ?V = "variance arm + sqrt (2 * ?c)"
  have n1: "1 \<le> ?n" using assms(1) by simp
  have l0: "0 \<le> ln (real time)" by (rule ln_nat_nonneg)
  have lT: "ln (real time) \<le> 2 ^ 32"
  proof (cases "time = 0")
    case True
    then show ?thesis by simp
  next
    case False
    then have "0 < real time" by simp
    then have "ln (real time) \<le> real time - 1" by (rule ln_le_minus_one)
    moreover have "real time < 2 ^ 32"
    proof -
      have "real time < real (2 ^ 32 :: nat)" using assms(3) by (simp only: of_nat_less_iff)
      then show ?thesis by simp
    qed
    ultimately show ?thesis by simp
  qed
  have c0: "0 \<le> ?c" using l0 n1 by simp
  have "?c \<le> ln (real time) / 1" using l0 n1 by (intro divide_left_mono) simp_all
  then have cT: "?c \<le> 2 ^ 32" using lT by simp
  have "min 0.25 ?V \<le> 0.25" by (rule min.cobounded1)
  then have "?c * min 0.25 ?V \<le> ?c * 0.25" using c0 by (rule mult_left_mono)
  also have "\<dots> \<le> ?c" using c0 by simp
  finally have "?c * min 0.25 ?V \<le> 2 ^ 32" using cT by simp
  then have "sqrt (?c * min 0.25 ?V) \<le> sqrt (2 ^ 32)" by (rule real_sqrt_le_mono)
  moreover have "sqrt ((2::real) ^ 32) = 2 ^ 16"
    using real_sqrt_abs [of "2 ^ 16"] by (simp add: power2_eq_square)
  ultimately have "CalculateUCB1Tuned arm time \<le> DBL_MAX / 2 + 2 ^ 16"
    using assms(1,2) by (simp add: CalculateUCB1Tuned_def Let_def)
  also have "\<dots> < DBL_MAX / 2 + DBL_MAX / 2"
  proof -
    have "(2::real) ^ 16 < 2 ^ 18" by simp
    then show ?thesis using DBL_MAX_big by linarith
  qed
  finally show ?thesis by simp
qed

lemma UCB1Tuned_loop_top:
  assumes "\<forall>k\<in>set ids. CalculateUCB1Tuned (arms ! k) time \<le> DBL_MAX"
  shows "UCB1Tuned_loop arms time ids (DBL_MAX, b) = (DBL_MAX, b)"
  using assms by (induction ids) simp_all

lemma UCB1Tuned_loop_first_untried:
  assumes "\<exists>k\<in>set ids. pulls (arms ! k) = 0"
    and "\<forall>k\<in>set ids. pulls (arms ! k) \<noteq> 0 \<longrightarrow> CalculateUCB1Tuned (arms ! k) time < DBL_MAX"
    and "m < DBL_MAX"
  shows "Some (snd (UCB1Tuned_loop arms time ids (m, b))) = find (\<lambda>k. pulls (arms ! k) = 0) ids"
  using assms
proof (induction ids arbitrary: m b)
  case Nil
  then show ?case by simp
next
  case (Cons k ids)
  have le: "\<forall>j\<in>set ids. CalculateUCB1Tuned (arms ! j) time \<le> DBL_MAX"
  proof
    fix j assume j: "j \<in> set ids"
    show "CalculateUCB1Tuned (arms ! j) time \<le> DBL_MAX"
    proof (cases "pulls (arms ! j) = 0")
      case True
      then show ?thesis by (simp add: CalculateUCB1Tuned_def)
    next
      case False
      then show ?thesis using Cons.prems(2) j by (simp add: less_imp_le)
    qed
  qed
  show ?case
  proof (cases "pulls (arms ! k) = 0")
    case True
    then have sc: "CalculateUCB1Tuned (arms ! k) time = DBL_MAX" by (simp add: CalculateUCB1Tuned_def)
    show ?thesis using True sc Cons.prems(3) UCB1Tuned_loop_top [OF le] by simp
  next
    case False
    then have lt: "CalculateUCB1Tuned (arms ! k) time < DBL_MAX" using Cons.prems(2) by simp
    have ex: "\<exists>k\<in>set ids. pulls (arms ! k) = 0" using Cons.prems(1) False by auto
    have p2: "\<forall>k\<in>set ids. pulls (arms ! k) \<noteq> 0 \<longrightarrow> CalculateUCB1Tuned (arms ! k) time < DBL_MAX"
      using Cons.prems(2) by simp
    have a: "Some (snd (UCB1Tuned_loop arms time ids (CalculateUCB1Tuned (arms ! k) time, k)))
             = find (\<lambda>k. pulls (arms ! k) = 0) ids"
      using ex p2 lt by (rule Cons.IH)
    have b: "Some (snd (UCB1Tuned_loop arms time ids (m, b)))
             = find (\<lambda>k. pulls (arms ! k) = 0) ids"
      using ex p2 Cons.prems(3) by (rule Cons.IH)
    show ?thesis using False a b by simp
  qed
qed

lemma UCB1Tuned_best_first_untried:
  assumes "\<exists>k<D. pulls (arms ! k) = 0"
    and "\<forall>k<D. pulls (arms ! k) \<noteq> 0 \<longrightarrow> CalculateUCB1Tuned (arms ! k) time < DBL_MAX"
  shows "Some (UCB1Tuned_best arms D time) = find (\<lambda>k. pulls (arms ! k) = 0) [0..<D]"
proof -
  from assms(1) have D: "0 < D" by auto
  then have upt: "[0..<D] = 0 # [1..<D]" by (simp add: upt_rec)
  have le: "\<forall>j\<in>set [1..<D]. CalculateUCB1Tuned (arms ! j) time \<le> DBL_MAX"
  proof
    fix j assume j: "j \<in> set [1..<D]"
    show "CalculateUCB1Tuned (arms ! j) time \<le> DBL_MAX"
    proof (cases "pulls (arms ! j) = 0")
      case True
      then show ?thesis by (simp add: CalculateUCB1Tuned_def)
    next
      case False
      then show ?thesis using assms(2) j by (simp add: less_imp_le)
    qed
  qed
  show ?thesis
  proof (cases "pulls (arms ! 0) = 0")
    case True
    then have "CalculateUCB1Tuned (arms ! 0) time = DBL_MAX" by (simp add: CalculateUCB1Tuned_def)
    then show ?thesis
      using True UCB1Tuned_loop_top [OF le] by (simp add: UCB1Tuned_best_def upt)
  next
    case False
    then have lt: "CalculateUCB1Tuned (arms ! 0) time < DBL_MAX" using assms(2) D by simp
    have ex: "\<exists>k\<in>set [1..<D]. pulls (arms ! k) = 0"
    proof -
      from assms(1) obtain k where k: "k < D" "pulls (arms ! k) = 0" by blast
      have "k \<noteq> 0"
      proof
        assume "k = 0"
        then show False using k(2) False by simp
      qed
      then show ?thesis using k by auto
    qed
    have p2: "\<forall>k\<in>set [1..<D]. pulls (arms ! k) \<noteq> 0 \<longrightarrow> CalculateUCB1Tuned (arms ! k) time < DBL_MAX"
      using assms(2) by simp
    from UCB1Tuned_loop_first_untried [OF ex p2 lt, of 0]
    show ?thesis using False by (simp add: UCB1Tuned_best_def upt)
  qed
qed

lemma find_first_props:
  assumes "\<exists>x\<in>set xs. P x"
  shows "\<exists>i<length xs. find P xs = Some (xs ! i) \<and> P (xs ! i) \<and> (\<forall>j<i. \<not> P (xs ! j))"
proof -
  from assms obtain x where "find P xs = Some x"
    by (cases "find P xs") (auto simp: find_None_iff)
  then show ?thesis by (auto simp: find_Some_iff)
qed

text \<open>
  Claim C2, as the code has it. The policies of the UCB family give untried arms
  priority; the remaining policies do not.

  d-lora-simulation.cc, \<^verbatim>\<open>DLoRaAgent::SelectArm\<close>: when some arm of the set has 0
  selections and the mean rewards are at most half the largest double, the arm returned
  is the first arm of the set with 0 selections; from the initial statistics the first
  decisions select the arms of a duplicate-free set in list order, each once.

  lorawan\_qoca\_simulation.cc, \<^verbatim>\<open>SelectChannelUCB\<close>, \<^verbatim>\<open>SelectChannelQoCA\<close> and
  \<^verbatim>\<open>SelectChannelDQoCA\<close>: in the initial phase (\<open>0 < m_n \<le> m_K\<close>) each returns
  \<open>m_n - 1\<close>, whatever the counters hold; past it, UCB and QoC-A return the first channel
  with \<open>T_i = 0\<close> when there is one, and DQoC-A the first channel whose discounted count
  is 0. In the select-then-update loop of \<^verbatim>\<open>RunSimulation\<close>, from the constructed state
  and for each of the three policies, every cycle returns a selection, the first \<open>K\<close>
  cycles select the channels 0, 1, ..., K - 1 in order, every selection made while some
  channel is unselected picks an unselected channel, and \<open>T_i\<close> counts the selections
  of channel \<open>i\<close>.

  lora-ucb1-simulation.cc: \<^verbatim>\<open>SelectTransmissionParametersUCB1\<close> returns the first pair
  (channels outermost) with 0 selections when there is one, and \<^verbatim>\<open>StartApplication\<close>
  under the name UCB1-tuned attempts exactly one transmission on every pair, in that
  order, leaving every pair with at least one selection.

  tow-lorawan-simulation.cc, \<^verbatim>\<open>UCB1TunedAlgorithm::SelectChannelAndSF\<close>: while the time is
  below the number of channels or of spreading factors, the pair returned is the time
  modulo each number; past that phase it is the best arm of each dimension, which is the
  first arm with 0 pulls when there is one and the means are at most half of
  \<^verbatim>\<open>DBL_MAX\<close>.
\<close>

theorem forced_exploration_UCB:
  "((\<exists>arm\<in>set armSet. at_map numSelections 0 arm = 0)
      \<and> (\<forall>arm\<in>set armSet. at_map expectedRewards 0 arm \<le> DBL_MAX / 2) \<longrightarrow>
        SelectArm expectedRewards numSelections armSet
          = find (\<lambda>arm. at_map numSelections 0 arm = 0) armSet
        \<and> (\<exists>arm\<in>set armSet. SelectArm expectedRewards numSelections armSet = Some arm
                             \<and> at_map numSelections 0 arm = 0))
   \<and> (distinct armSet \<and> (\<forall>r\<in>set rewards. r \<le> DBL_MAX / 2) \<and> length rewards \<le> length armSet \<longrightarrow>
        (\<exists>er' ns'. dimension_run armSet (init_rewards armSet) (init_selections armSet) rewards
                     = Some (take (length rewards) armSet, er', ns')))
   \<and> (0 < m_n s \<and> m_n s \<le> m_K s \<and> m_n s < 2 ^ 32 \<longrightarrow>
        SelectChannelUCB s = m_n s - 1 \<and> SelectChannelQoCA s = m_n s - 1
        \<and> SelectChannelDQoCA s = m_n s - 1)
   \<and> (m_K s < m_n s \<and> (\<exists>i<m_K s. m_T_i s ! i = 0) \<longrightarrow>
        (\<exists>i<m_K s. SelectChannelUCB s = i \<and> SelectChannelQoCA s = i
                    \<and> m_T_i s ! i = 0 \<and> (\<forall>j<i. m_T_i s ! j \<noteq> 0)))
   \<and> (m_K s < m_n s \<and> (\<exists>i<m_K s. N_i_of s i = 0) \<longrightarrow>
        (\<exists>i<m_K s. SelectChannelDQoCA s = i \<and> N_i_of s i = 0 \<and> (\<forall>j<i. N_i_of s j \<noteq> 0)))
   \<and> (ty \<noteq> UNIFORM \<and> length obs \<le> K \<and> K < 2 ^ 32 \<longrightarrow>
        (\<exists>s'. bandit_run (BanditAlgorithm_init K ty alpha beta lambda lambdaG) obs
               = Some ([0..<length obs], s')))
   \<and> (ty \<noteq> UNIFORM \<and> 0 < K \<and> K < 2 ^ 32 \<and> length obs < 2 ^ 32 \<longrightarrow>
        (\<exists>selected s'. bandit_run (BanditAlgorithm_init K ty alpha beta lambda lambdaG) obs
                          = Some (selected, s')
           \<and> length selected = length obs
           \<and> take K selected = [0..<min K (length obs)]
           \<and> explores_first K selected
           \<and> (\<forall>c<K. m_T_i s' ! c = count_list selected c)))
   \<and> ((\<exists>p\<in>set (arm_pairs channels powers). selectionsCount (at_map ucbStats UCBStats_init p) = 0) \<longrightarrow>
        SelectTransmissionParametersUCB1 ucbStats totalSelections channels powers
          = find (\<lambda>p. selectionsCount (at_map ucbStats UCBStats_init p) = 0)
                 (arm_pairs channels powers)
        \<and> (\<exists>p\<in>set (arm_pairs channels powers).
              SelectTransmissionParametersUCB1 ucbStats totalSelections channels powers = Some p
              \<and> selectionsCount (at_map ucbStats UCBStats_init p) = 0))
   \<and> (StartApplication ''UCB1-tuned'' channels powers outcome (init_ucbStats channels powers)
         = (stats', attempts) \<longrightarrow>
        map (\<lambda>(ch, tp, success). (ch, tp)) attempts = arm_pairs channels powers
        \<and> (\<forall>p\<in>set (arm_pairs channels powers).
              1 \<le> selectionsCount (at_map stats' UCBStats_init p)))
   \<and> (time < numChannels \<and> 0 < numSF \<longrightarrow>
        SelectChannelAndSF_UCB1Tuned numChannels numSF arms sfArms time
          = Some (time, time mod numSF))
   \<and> (time < numSF \<and> 0 < numChannels \<longrightarrow>
        SelectChannelAndSF_UCB1Tuned numChannels numSF arms sfArms time
          = Some (time mod numChannels, time))
   \<and> (numChannels \<le> time \<and> numSF \<le> time \<and> 1 \<le> numChannels \<and> numChannels \<le> length arms
        \<and> 1 \<le> numSF \<and> numSF \<le> length sfArms \<longrightarrow>
        SelectChannelAndSF_UCB1Tuned numChannels numSF arms sfArms time
          = Some (UCB1Tuned_best arms numChannels time, UCB1Tuned_best sfArms numSF time))
   \<and> ((\<exists>k<D. pulls (arms ! k) = 0) \<and> (\<forall>k<D. mean (arms ! k) \<le> DBL_MAX / 2) \<and> time < 2 ^ 32 \<longrightarrow>
        (\<exists>k<D. UCB1Tuned_best arms D time = k \<and> pulls (arms ! k) = 0
                \<and> (\<forall>j<k. pulls (arms ! j) \<noteq> 0)))"
proof -
  have A: "(\<exists>arm\<in>set armSet. at_map numSelections 0 arm = 0)
      \<and> (\<forall>arm\<in>set armSet. at_map expectedRewards 0 arm \<le> DBL_MAX / 2) \<longrightarrow>
        SelectArm expectedRewards numSelections armSet
          = find (\<lambda>arm. at_map numSelections 0 arm = 0) armSet
        \<and> (\<exists>arm\<in>set armSet. SelectArm expectedRewards numSelections armSet = Some arm
                             \<and> at_map numSelections 0 arm = 0)"
  proof
    assume h: "(\<exists>arm\<in>set armSet. at_map numSelections 0 arm = 0)
      \<and> (\<forall>arm\<in>set armSet. at_map expectedRewards 0 arm \<le> DBL_MAX / 2)"
    then have e: "SelectArm expectedRewards numSelections armSet
          = find (\<lambda>arm. at_map numSelections 0 arm = 0) armSet"
      by (intro SelectArm_first_untried) auto
    from h obtain x where "find (\<lambda>arm. at_map numSelections 0 arm = 0) armSet = Some x"
      by (cases "find (\<lambda>arm. at_map numSelections 0 arm = 0) armSet") (auto simp: find_None_iff)
    then have "SelectArm expectedRewards numSelections armSet = Some x
               \<and> x \<in> set armSet \<and> at_map numSelections 0 x = 0"
      using e by (auto simp: find_Some_iff)
    then show "SelectArm expectedRewards numSelections armSet
          = find (\<lambda>arm. at_map numSelections 0 arm = 0) armSet
        \<and> (\<exists>arm\<in>set armSet. SelectArm expectedRewards numSelections armSet = Some arm
                             \<and> at_map numSelections 0 arm = 0)"
      using e by blast
  qed
  have B: "distinct armSet \<and> (\<forall>r\<in>set rewards. r \<le> DBL_MAX / 2) \<and> length rewards \<le> length armSet \<longrightarrow>
        (\<exists>er' ns'. dimension_run armSet (init_rewards armSet) (init_selections armSet) rewards
                     = Some (take (length rewards) armSet, er', ns'))"
    using dimension_run_from_init [of armSet rewards] by blast
  have C0: "0 < m_n s \<and> m_n s \<le> m_K s \<and> m_n s < 2 ^ 32 \<longrightarrow>
        SelectChannelUCB s = m_n s - 1 \<and> SelectChannelQoCA s = m_n s - 1
        \<and> SelectChannelDQoCA s = m_n s - 1"
  proof
    assume h: "0 < m_n s \<and> m_n s \<le> m_K s \<and> m_n s < 2 ^ 32"
    then obtain k where k: "m_n s = k + 1" by (cases "m_n s") auto
    have "(k + 1 + 2 ^ 32 - 1) mod 2 ^ 32 = k" using h k by simp
    then have "(m_n s + 2 ^ 32 - 1) mod 2 ^ 32 = m_n s - 1" unfolding k by simp
    then show "SelectChannelUCB s = m_n s - 1 \<and> SelectChannelQoCA s = m_n s - 1
        \<and> SelectChannelDQoCA s = m_n s - 1"
      using h by (simp add: SelectChannelUCB_def SelectChannelQoCA_def SelectChannelDQoCA_def)
  qed
  have C: "m_K s < m_n s \<and> (\<exists>i<m_K s. m_T_i s ! i = 0) \<longrightarrow>
        (\<exists>i<m_K s. SelectChannelUCB s = i \<and> SelectChannelQoCA s = i
                    \<and> m_T_i s ! i = 0 \<and> (\<forall>j<i. m_T_i s ! j \<noteq> 0))"
  proof
    assume h: "m_K s < m_n s \<and> (\<exists>i<m_K s. m_T_i s ! i = 0)"
    then have ex: "\<exists>i\<in>set [0..<m_K s]. m_T_i s ! i = 0" by auto
    from UCB_loop_first_untried [OF ex, of None 0] h
    have u: "find (\<lambda>i. m_T_i s ! i = 0) [0..<m_K s] = Some (SelectChannelUCB s)"
      by (simp add: SelectChannelUCB_def)
    from QoCA_loop_first_untried [OF ex, of "CalculateGmax s" None 0] h
    have q: "find (\<lambda>i. m_T_i s ! i = 0) [0..<m_K s] = Some (SelectChannelQoCA s)"
      by (simp add: SelectChannelQoCA_def)
    from u q have "SelectChannelQoCA s = SelectChannelUCB s" by simp
    then show "\<exists>i<m_K s. SelectChannelUCB s = i \<and> SelectChannelQoCA s = i
                    \<and> m_T_i s ! i = 0 \<and> (\<forall>j<i. m_T_i s ! j \<noteq> 0)"
      using u by (auto simp: find_Some_iff)
  qed
  have C': "m_K s < m_n s \<and> (\<exists>i<m_K s. N_i_of s i = 0) \<longrightarrow>
        (\<exists>i<m_K s. SelectChannelDQoCA s = i \<and> N_i_of s i = 0 \<and> (\<forall>j<i. N_i_of s j \<noteq> 0))"
  proof
    assume h: "m_K s < m_n s \<and> (\<exists>i<m_K s. N_i_of s i = 0)"
    then have ex: "\<exists>i\<in>set [0..<m_K s]. N_i_of s i = 0" by auto
    from DQoCA_loop_first_untried [OF ex, of "W_n_of s" "G_max_disc_of s" None 0] h
    have "find (\<lambda>i. N_i_of s i = 0) [0..<m_K s] = Some (SelectChannelDQoCA s)"
      by (simp add: SelectChannelDQoCA_def)
    then show "\<exists>i<m_K s. SelectChannelDQoCA s = i \<and> N_i_of s i = 0 \<and> (\<forall>j<i. N_i_of s j \<noteq> 0)"
      by (auto simp: find_Some_iff)
  qed
  have D: "ty \<noteq> UNIFORM \<and> length obs \<le> K \<and> K < 2 ^ 32 \<longrightarrow>
        (\<exists>s'. bandit_run (BanditAlgorithm_init K ty alpha beta lambda lambdaG) obs
               = Some ([0..<length obs], s'))"
  proof
    let ?s = "BanditAlgorithm_init K ty alpha beta lambda lambdaG"
    assume h: "ty \<noteq> UNIFORM \<and> length obs \<le> K \<and> K < 2 ^ 32"
    have "sized ?s" "m_n ?s = 0" "m_K ?s = K" "m_type ?s = ty"
      by (simp_all add: BanditAlgorithm_init_def sized_def)
    with h bandit_run_init_phase [of ?s obs]
    show "\<exists>s'. bandit_run ?s obs = Some ([0..<length obs], s')" by simp
  qed
  have E: "ty \<noteq> UNIFORM \<and> 0 < K \<and> K < 2 ^ 32 \<and> length obs < 2 ^ 32 \<longrightarrow>
        (\<exists>selected s'. bandit_run (BanditAlgorithm_init K ty alpha beta lambda lambdaG) obs
                          = Some (selected, s')
           \<and> length selected = length obs
           \<and> take K selected = [0..<min K (length obs)]
           \<and> explores_first K selected
           \<and> (\<forall>c<K. m_T_i s' ! c = count_list selected c))"
  proof
    assume h: "ty \<noteq> UNIFORM \<and> 0 < K \<and> K < 2 ^ 32 \<and> length obs < 2 ^ 32"
    then obtain selected s' where
      r: "bandit_run (BanditAlgorithm_init K ty alpha beta lambda lambdaG) obs = Some (selected, s')"
         "length selected = length obs" "take K selected = [0..<min K (length obs)]"
         "explores_first K selected"
      using bandit_run_lockstep [of K obs ty alpha beta lambda lambdaG] by blast
    have "\<forall>c<K. m_T_i s' ! c = count_list selected c"
      using bandit_run_lockstep_counts [OF r(1)] h by blast
    then show "\<exists>selected s'. bandit_run (BanditAlgorithm_init K ty alpha beta lambda lambdaG) obs
                          = Some (selected, s')
           \<and> length selected = length obs
           \<and> take K selected = [0..<min K (length obs)]
           \<and> explores_first K selected
           \<and> (\<forall>c<K. m_T_i s' ! c = count_list selected c)"
      using r by blast
  qed
  have F: "(\<exists>p\<in>set (arm_pairs channels powers). selectionsCount (at_map ucbStats UCBStats_init p) = 0) \<longrightarrow>
        SelectTransmissionParametersUCB1 ucbStats totalSelections channels powers
          = find (\<lambda>p. selectionsCount (at_map ucbStats UCBStats_init p) = 0)
                 (arm_pairs channels powers)
        \<and> (\<exists>p\<in>set (arm_pairs channels powers).
              SelectTransmissionParametersUCB1 ucbStats totalSelections channels powers = Some p
              \<and> selectionsCount (at_map ucbStats UCBStats_init p) = 0)"
  proof
    assume h: "\<exists>p\<in>set (arm_pairs channels powers). selectionsCount (at_map ucbStats UCBStats_init p) = 0"
    note e = SelectTransmissionParametersUCB1_first_untried [OF h, of totalSelections]
    from find_first_props [of "arm_pairs channels powers"
        "\<lambda>p. selectionsCount (at_map ucbStats UCBStats_init p) = 0", OF h]
    obtain i where i: "i < length (arm_pairs channels powers)"
      "find (\<lambda>p. selectionsCount (at_map ucbStats UCBStats_init p) = 0) (arm_pairs channels powers)
       = Some (arm_pairs channels powers ! i)"
      "selectionsCount (at_map ucbStats UCBStats_init (arm_pairs channels powers ! i)) = 0"
      by blast
    have "arm_pairs channels powers ! i \<in> set (arm_pairs channels powers)" using i(1) by simp
    then show "SelectTransmissionParametersUCB1 ucbStats totalSelections channels powers
          = find (\<lambda>p. selectionsCount (at_map ucbStats UCBStats_init p) = 0)
                 (arm_pairs channels powers)
        \<and> (\<exists>p\<in>set (arm_pairs channels powers).
              SelectTransmissionParametersUCB1 ucbStats totalSelections channels powers = Some p
              \<and> selectionsCount (at_map ucbStats UCBStats_init p) = 0)"
      using e i(2,3) by auto
  qed
  have G: "StartApplication ''UCB1-tuned'' channels powers outcome (init_ucbStats channels powers)
         = (stats', attempts) \<longrightarrow>
        map (\<lambda>(ch, tp, success). (ch, tp)) attempts = arm_pairs channels powers
        \<and> (\<forall>p\<in>set (arm_pairs channels powers).
              1 \<le> selectionsCount (at_map stats' UCBStats_init p))"
    using StartApplication_explores [of channels powers outcome stats' attempts] by blast
  have H1: "time < numChannels \<and> 0 < numSF \<longrightarrow>
        SelectChannelAndSF_UCB1Tuned numChannels numSF arms sfArms time
          = Some (time, time mod numSF)"
    by (simp add: SelectChannelAndSF_UCB1Tuned_def)
  have H2: "time < numSF \<and> 0 < numChannels \<longrightarrow>
        SelectChannelAndSF_UCB1Tuned numChannels numSF arms sfArms time
          = Some (time mod numChannels, time)"
    by (simp add: SelectChannelAndSF_UCB1Tuned_def)
  have H3: "numChannels \<le> time \<and> numSF \<le> time \<and> 1 \<le> numChannels \<and> numChannels \<le> length arms
        \<and> 1 \<le> numSF \<and> numSF \<le> length sfArms \<longrightarrow>
        SelectChannelAndSF_UCB1Tuned numChannels numSF arms sfArms time
          = Some (UCB1Tuned_best arms numChannels time, UCB1Tuned_best sfArms numSF time)"
    by (simp add: SelectChannelAndSF_UCB1Tuned_def)
  have H4: "(\<exists>k<D. pulls (arms ! k) = 0) \<and> (\<forall>k<D. mean (arms ! k) \<le> DBL_MAX / 2) \<and> time < 2 ^ 32 \<longrightarrow>
        (\<exists>k<D. UCB1Tuned_best arms D time = k \<and> pulls (arms ! k) = 0
                \<and> (\<forall>j<k. pulls (arms ! j) \<noteq> 0))"
  proof
    assume h: "(\<exists>k<D. pulls (arms ! k) = 0) \<and> (\<forall>k<D. mean (arms ! k) \<le> DBL_MAX / 2) \<and> time < 2 ^ 32"
    have b: "\<forall>k<D. pulls (arms ! k) \<noteq> 0 \<longrightarrow> CalculateUCB1Tuned (arms ! k) time < DBL_MAX"
      using h CalculateUCB1Tuned_tried_below_max by blast
    from h have ex: "\<exists>k<D. pulls (arms ! k) = 0" by blast
    from UCB1Tuned_best_first_untried [OF ex b]
    have "find (\<lambda>k. pulls (arms ! k) = 0) [0..<D] = Some (UCB1Tuned_best arms D time)" by simp
    then show "\<exists>k<D. UCB1Tuned_best arms D time = k \<and> pulls (arms ! k) = 0
                \<and> (\<forall>j<k. pulls (arms ! j) \<noteq> 0)"
      by (auto simp: find_Some_iff)
  qed
  show ?thesis
    using A B C0 C C' D E F G H1 H2 H3 H4 by blast
qed

theorem forced_exploration_UCB_witness:
  "at_map [(7 :: int, 2 :: nat), (8, 0), (9, 0)] 0 8 = 0
   \<and> at_map [(7 :: int, 1 :: real), (8, 0), (9, 0)] 0 7 \<le> DBL_MAX / 2
   \<and> at_map [(7 :: int, 1 :: real), (8, 0), (9, 0)] 0 8 \<le> DBL_MAX / 2
   \<and> at_map [(7 :: int, 1 :: real), (8, 0), (9, 0)] 0 9 \<le> DBL_MAX / 2
   \<and> SelectArm [(7 :: int, 1), (8, 0), (9, 0)] [(7, 2), (8, 0), (9, 0)] [7, 8, 9] = Some 8
   \<and> distinct [7, 8, 9 :: int] \<and> (1 :: real) \<le> DBL_MAX / 2 \<and> (0 :: real) \<le> DBL_MAX / 2
   \<and> length [1, 0 :: real] \<le> length [7, 8, 9 :: int]
   \<and> map_option fst (dimension_run [7, 8, 9 :: int] (init_rewards [7, 8, 9])
                         (init_selections [7, 8, 9]) [1, 0]) = Some [7, 8]
   \<and> 0 < m_n ((BanditAlgorithm_init 3 UCB 1 1 1 1)\<lparr>m_n := 2, m_T_i := [0, 5, 0]\<rparr>)
   \<and> m_n ((BanditAlgorithm_init 3 UCB 1 1 1 1)\<lparr>m_n := 2, m_T_i := [0, 5, 0]\<rparr>)
       \<le> m_K ((BanditAlgorithm_init 3 UCB 1 1 1 1)\<lparr>m_n := 2, m_T_i := [0, 5, 0]\<rparr>)
   \<and> SelectChannelUCB ((BanditAlgorithm_init 3 UCB 1 1 1 1)\<lparr>m_n := 2, m_T_i := [0, 5, 0]\<rparr>) = 1
   \<and> SelectChannelQoCA ((BanditAlgorithm_init 3 UCB 1 1 1 1)\<lparr>m_n := 2, m_T_i := [0, 5, 0]\<rparr>) = 1
   \<and> SelectChannelDQoCA ((BanditAlgorithm_init 3 UCB 1 1 1 1)\<lparr>m_n := 2, m_T_i := [0, 5, 0]\<rparr>) = 1
   \<and> m_K ((BanditAlgorithm_init 2 UCB 1 1 1 1)\<lparr>m_n := 5, m_T_i := [3, 0]\<rparr>)
       < m_n ((BanditAlgorithm_init 2 UCB 1 1 1 1)\<lparr>m_n := 5, m_T_i := [3, 0]\<rparr>)
   \<and> m_T_i ((BanditAlgorithm_init 2 UCB 1 1 1 1)\<lparr>m_n := 5, m_T_i := [3, 0]\<rparr>) ! 1 = 0
   \<and> SelectChannelUCB ((BanditAlgorithm_init 2 UCB 1 1 1 1)\<lparr>m_n := 5, m_T_i := [3, 0]\<rparr>) = 1
   \<and> SelectChannelQoCA ((BanditAlgorithm_init 2 UCB 1 1 1 1)\<lparr>m_n := 5, m_T_i := [3, 0]\<rparr>) = 1
   \<and> N_i_of ((BanditAlgorithm_init 2 UCB 1 1 1 1)\<lparr>m_n := 5, m_T_i := [3, 0]\<rparr>) 0 = 0
   \<and> SelectChannelDQoCA ((BanditAlgorithm_init 2 UCB 1 1 1 1)\<lparr>m_n := 5, m_T_i := [3, 0]\<rparr>) = 0
   \<and> UCB \<noteq> UNIFORM \<and> (0 :: nat) < 3 \<and> (3 :: nat) < 2 ^ 32
   \<and> length [(1 :: real, 1 :: real), (0, 1)] \<le> (3 :: nat)
   \<and> map_option fst (bandit_run (BanditAlgorithm_init 3 UCB 1 1 1 1) [(1, 1), (0, 1)])
       = Some [0, 1]
   \<and> length [(1 :: real, 1 :: real), (0, 1), (1, 1), (1, 1)] < 2 ^ 32
   \<and> map_option (take 3 \<circ> fst)
         (bandit_run (BanditAlgorithm_init 3 UCB 1 1 1 1) [(1, 1), (0, 1), (1, 1), (1, 1)])
       = Some [0, 1, 2]
   \<and> map_option (length \<circ> fst)
         (bandit_run (BanditAlgorithm_init 3 UCB 1 1 1 1) [(1, 1), (0, 1), (1, 1), (1, 1)])
       = Some 4
   \<and> selectionsCount (at_map (UpdateStatistics_stats (init_ucbStats [920.6, 921.0] [- 3, 1])
                                920.6 (- 3) False 1) UCBStats_init (920.6, 1)) = 0
   \<and> SelectTransmissionParametersUCB1
        (UpdateStatistics_stats (init_ucbStats [920.6, 921.0] [- 3, 1]) 920.6 (- 3) False 1)
        1 [920.6, 921.0] [- 3, 1] = Some (920.6, 1)
   \<and> map fst (snd (StartApplication ''UCB1-tuned'' [920.6, 921.0] [- 3, 1] example_outcome
                        (init_ucbStats [920.6, 921.0] [- 3, 1])))
       = [920.6, 920.6, 921.0, 921.0]
   \<and> (1 :: nat) < 5 \<and> (0 :: nat) < 3 \<and> (1 :: nat) < 3 \<and> (0 :: nat) < 5
   \<and> SelectChannelAndSF_UCB1Tuned 5 3 [] [] 1 = Some (1, 1 mod 3)
   \<and> SelectChannelAndSF_UCB1Tuned 5 3 [] [] 1 = Some (1 mod 5, 1)
   \<and> (2 :: nat) \<le> 7 \<and> (1 :: nat) \<le> 7 \<and> (7 :: nat) < 2 ^ 32
   \<and> pulls ([ArmStats_init\<lparr>mean := 1 / 2, pulls := 2\<rparr>, ArmStats_init] ! 1) = 0
   \<and> mean ([ArmStats_init\<lparr>mean := 1 / 2, pulls := 2\<rparr>, ArmStats_init] ! 0) \<le> DBL_MAX / 2
   \<and> mean ([ArmStats_init\<lparr>mean := 1 / 2, pulls := 2\<rparr>, ArmStats_init] ! 1) \<le> DBL_MAX / 2
   \<and> UCB1Tuned_best [ArmStats_init\<lparr>mean := 1 / 2, pulls := 2\<rparr>, ArmStats_init] 2 7 = 1
   \<and> SelectChannelAndSF_UCB1Tuned 2 1 [ArmStats_init\<lparr>mean := 1 / 2, pulls := 2\<rparr>, ArmStats_init]
        [ArmStats_init] 7
       = Some (1, UCB1Tuned_best [ArmStats_init] 1 7)"
proof -
  let ?s1 = "(BanditAlgorithm_init 3 UCB 1 1 1 1)\<lparr>m_n := 2, m_T_i := [0, 5, 0]\<rparr>"
  let ?s2 = "(BanditAlgorithm_init 2 UCB 1 1 1 1)\<lparr>m_n := 5, m_T_i := [3, 0]\<rparr>"
  let ?st = "UpdateStatistics_stats (init_ucbStats [920.6, 921.0] [- 3, 1]) 920.6 (- 3) False 1"
  let ?X = "StartApplication ''UCB1-tuned'' [920.6, 921.0] [- 3, 1] example_outcome
              (init_ucbStats [920.6, 921.0] [- 3, 1])"
  let ?arms = "[ArmStats_init\<lparr>mean := 1 / 2, pulls := 2\<rparr>, ArmStats_init]"
  have big: "(1::real) \<le> DBL_MAX / 2" "(0::real) \<le> DBL_MAX / 2" "(1 / 2::real) \<le> DBL_MAX / 2"
    using DBL_MAX_big by simp_all
  have h1: "\<exists>arm\<in>set [7, 8, 9 :: int]. at_map [(7 :: int, 2 :: nat), (8, 0), (9, 0)] 0 arm = 0"
    by (simp add: at_map_def)
  have h2: "\<forall>arm\<in>set [7, 8, 9 :: int]. at_map [(7 :: int, 1 :: real), (8, 0), (9, 0)] 0 arm \<le> DBL_MAX / 2"
    using big by (simp add: at_map_def)
  have f: "find (\<lambda>arm. at_map [(7 :: int, 2 :: nat), (8, 0), (9, 0)] 0 arm = 0) [7, 8, 9] = Some 8"
    by (simp add: at_map_def)
  have h3: "distinct [7, 8, 9 :: int] \<and> (\<forall>r\<in>set [1, 0 :: real]. r \<le> DBL_MAX / 2)
            \<and> length [1, 0 :: real] \<le> length [7, 8, 9 :: int]"
    using big by simp
  have h4: "0 < m_n ?s1 \<and> m_n ?s1 \<le> m_K ?s1 \<and> m_n ?s1 < 2 ^ 32"
    by (simp add: BanditAlgorithm_init_def)
  have n1: "m_n ?s1 - 1 = 1" by simp
  have h5: "m_K ?s2 < m_n ?s2 \<and> (\<exists>i<m_K ?s2. m_T_i ?s2 ! i = 0)"
    by (auto simp: BanditAlgorithm_init_def intro: exI [of _ 1])
  have N0: "N_i_of ?s2 i = 0" for i
    by (simp add: N_i_of_def discounted_count_def BanditAlgorithm_init_def)
  have h6: "m_K ?s2 < m_n ?s2 \<and> (\<exists>i<m_K ?s2. N_i_of ?s2 i = 0)"
    using N0 by (auto simp: BanditAlgorithm_init_def intro: exI [of _ 0])
  have h7: "UCB \<noteq> UNIFORM \<and> length [(1 :: real, 1 :: real), (0, 1)] \<le> (3 :: nat) \<and> (3 :: nat) < 2 ^ 32"
    by simp
  have h8: "UCB \<noteq> UNIFORM \<and> (0::nat) < 3 \<and> (3 :: nat) < 2 ^ 32
            \<and> length [(1 :: real, 1 :: real), (0, 1), (1, 1), (1, 1)] < 2 ^ 32"
    by simp
  have ap: "arm_pairs [920.6, 921.0] [- 3, 1] = [(920.6, - 3), (920.6, 1), (921.0, - 3), (921.0, 1)]"
    by (simp add: arm_pairs_def)
  have cnt: "selectionsCount (at_map ?st UCBStats_init (920.6, - 3)) = 1"
    "selectionsCount (at_map ?st UCBStats_init (920.6, 1)) = 0"
    by (simp_all add: UpdateStatistics_stats_count init_ucbStats_untried)
  have h9: "\<exists>p\<in>set (arm_pairs [920.6, 921.0] [- 3, 1]). selectionsCount (at_map ?st UCBStats_init p) = 0"
    unfolding ap using cnt(2) by simp
  have f9: "find (\<lambda>p. selectionsCount (at_map ?st UCBStats_init p) = 0)
              (arm_pairs [920.6, 921.0] [- 3, 1]) = Some (920.6, 1)"
    unfolding ap using cnt by simp
  have h10: "?X = (fst ?X, snd ?X)" by simp
  have h11: "(1::nat) < 5 \<and> (0::nat) < 3" "(1::nat) < 3 \<and> (0::nat) < 5" by simp_all
  have h12: "(2::nat) \<le> 7 \<and> (1::nat) \<le> 7 \<and> (1::nat) \<le> 2 \<and> 2 \<le> length ?arms
             \<and> (1::nat) \<le> 1 \<and> 1 \<le> length [ArmStats_init]"
    by simp
  have p1: "pulls (?arms ! 1) = 0" by (simp add: ArmStats_init_def)
  have p0: "pulls (?arms ! 0) \<noteq> 0" by simp
  have m01: "mean (?arms ! 0) \<le> DBL_MAX / 2" "mean (?arms ! 1) \<le> DBL_MAX / 2"
    using big by (simp_all add: ArmStats_init_def)
  have h13: "(\<exists>k<2. pulls (?arms ! k) = 0) \<and> (\<forall>k<2. mean (?arms ! k) \<le> DBL_MAX / 2)
             \<and> (7::nat) < 2 ^ 32"
  proof -
    have a: "\<exists>k<2. pulls (?arms ! k) = 0" using p1 by (intro exI [of _ 1]) simp
    have b: "\<forall>k<2. mean (?arms ! k) \<le> DBL_MAX / 2"
    proof (intro allI impI)
      fix k :: nat assume "k < 2"
      then have "k = 0 \<or> k = 1" by arith
      then show "mean (?arms ! k) \<le> DBL_MAX / 2" using m01 by auto
    qed
    have c: "(7::nat) < 2 ^ 32" by simp
    show ?thesis using a b c by blast
  qed
  note t1 = forced_exploration_UCB [where armSet = "[7, 8, 9 :: int]"
      and numSelections = "[(7, 2), (8, 0), (9, 0)]" and expectedRewards = "[(7, 1), (8, 0), (9, 0)]"
      and rewards = "[1, 0]" and s = ?s1 and ty = UCB and obs = "[(1, 1), (0, 1)]" and K = 3
      and alpha = 1 and beta = 1 and lambda = 1 and lambdaG = 1
      and channels = "[920.6, 921.0]" and powers = "[- 3, 1]" and ucbStats = ?st
      and totalSelections = 1 and outcome = example_outcome and stats' = "fst ?X"
      and attempts = "snd ?X" and time = 1 and numChannels = 5 and numSF = 3
      and arms = "[]" and sfArms = "[]" and D = 0]
  note t2 = forced_exploration_UCB [where armSet = "[7, 8, 9 :: int]"
      and numSelections = "[(7, 2), (8, 0), (9, 0)]" and expectedRewards = "[(7, 1), (8, 0), (9, 0)]"
      and rewards = "[1, 0]" and s = ?s2 and ty = UCB
      and obs = "[(1, 1), (0, 1), (1, 1), (1, 1)]" and K = 3
      and alpha = 1 and beta = 1 and lambda = 1 and lambdaG = 1
      and channels = "[920.6, 921.0]" and powers = "[- 3, 1]" and ucbStats = ?st
      and totalSelections = 1 and outcome = example_outcome and stats' = "fst ?X"
      and attempts = "snd ?X" and time = 7 and numChannels = 2 and numSF = 1
      and arms = ?arms and sfArms = "[ArmStats_init]" and D = 2]
  note t1A = t1 [THEN conjunct1]
  note t1B = t1 [THEN conjunct2, THEN conjunct1]
  note t1C0 = t1 [THEN conjunct2, THEN conjunct2, THEN conjunct1]
  note t1C = t1 [THEN conjunct2, THEN conjunct2, THEN conjunct2, THEN conjunct1]
  note t1Cd = t1 [THEN conjunct2, THEN conjunct2, THEN conjunct2, THEN conjunct2, THEN conjunct1]
  note t1D = t1 [THEN conjunct2, THEN conjunct2, THEN conjunct2, THEN conjunct2, THEN conjunct2, THEN conjunct1]
  note t1E = t1 [THEN conjunct2, THEN conjunct2, THEN conjunct2, THEN conjunct2, THEN conjunct2, THEN conjunct2, THEN conjunct1]
  note t1F = t1 [THEN conjunct2, THEN conjunct2, THEN conjunct2, THEN conjunct2, THEN conjunct2, THEN conjunct2, THEN conjunct2, THEN conjunct1]
  note t1G = t1 [THEN conjunct2, THEN conjunct2, THEN conjunct2, THEN conjunct2, THEN conjunct2, THEN conjunct2, THEN conjunct2, THEN conjunct2, THEN conjunct1]
  note t1H1 = t1 [THEN conjunct2, THEN conjunct2, THEN conjunct2, THEN conjunct2, THEN conjunct2, THEN conjunct2, THEN conjunct2, THEN conjunct2, THEN conjunct2, THEN conjunct1]
  note t1H2 = t1 [THEN conjunct2, THEN conjunct2, THEN conjunct2, THEN conjunct2, THEN conjunct2, THEN conjunct2, THEN conjunct2, THEN conjunct2, THEN conjunct2, THEN conjunct2, THEN conjunct1]
  note t1H3 = t1 [THEN conjunct2, THEN conjunct2, THEN conjunct2, THEN conjunct2, THEN conjunct2, THEN conjunct2, THEN conjunct2, THEN conjunct2, THEN conjunct2, THEN conjunct2, THEN conjunct2, THEN conjunct1]
  note t1H4 = t1 [THEN conjunct2, THEN conjunct2, THEN conjunct2, THEN conjunct2, THEN conjunct2, THEN conjunct2, THEN conjunct2, THEN conjunct2, THEN conjunct2, THEN conjunct2, THEN conjunct2, THEN conjunct2]
  note t2A = t2 [THEN conjunct1]
  note t2B = t2 [THEN conjunct2, THEN conjunct1]
  note t2C0 = t2 [THEN conjunct2, THEN conjunct2, THEN conjunct1]
  note t2C = t2 [THEN conjunct2, THEN conjunct2, THEN conjunct2, THEN conjunct1]
  note t2Cd = t2 [THEN conjunct2, THEN conjunct2, THEN conjunct2, THEN conjunct2, THEN conjunct1]
  note t2D = t2 [THEN conjunct2, THEN conjunct2, THEN conjunct2, THEN conjunct2, THEN conjunct2, THEN conjunct1]
  note t2E = t2 [THEN conjunct2, THEN conjunct2, THEN conjunct2, THEN conjunct2, THEN conjunct2, THEN conjunct2, THEN conjunct1]
  note t2F = t2 [THEN conjunct2, THEN conjunct2, THEN conjunct2, THEN conjunct2, THEN conjunct2, THEN conjunct2, THEN conjunct2, THEN conjunct1]
  note t2G = t2 [THEN conjunct2, THEN conjunct2, THEN conjunct2, THEN conjunct2, THEN conjunct2, THEN conjunct2, THEN conjunct2, THEN conjunct2, THEN conjunct1]
  note t2H1 = t2 [THEN conjunct2, THEN conjunct2, THEN conjunct2, THEN conjunct2, THEN conjunct2, THEN conjunct2, THEN conjunct2, THEN conjunct2, THEN conjunct2, THEN conjunct1]
  note t2H2 = t2 [THEN conjunct2, THEN conjunct2, THEN conjunct2, THEN conjunct2, THEN conjunct2, THEN conjunct2, THEN conjunct2, THEN conjunct2, THEN conjunct2, THEN conjunct2, THEN conjunct1]
  note t2H3 = t2 [THEN conjunct2, THEN conjunct2, THEN conjunct2, THEN conjunct2, THEN conjunct2, THEN conjunct2, THEN conjunct2, THEN conjunct2, THEN conjunct2, THEN conjunct2, THEN conjunct2, THEN conjunct1]
  note t2H4 = t2 [THEN conjunct2, THEN conjunct2, THEN conjunct2, THEN conjunct2, THEN conjunct2, THEN conjunct2, THEN conjunct2, THEN conjunct2, THEN conjunct2, THEN conjunct2, THEN conjunct2, THEN conjunct2]
  have c1: "SelectArm [(7 :: int, 1), (8, 0), (9, 0)] [(7, 2), (8, 0), (9, 0)] [7, 8, 9] = Some 8"
    using mp [OF t1A] h1 h2 f by simp
  have "\<exists>er' ns'. dimension_run [7, 8, 9 :: int] (init_rewards [7, 8, 9]) (init_selections [7, 8, 9])
                    [1, 0] = Some ([7, 8], er', ns')"
    using mp [OF t1B h3] by simp
  then have c2: "map_option fst (dimension_run [7, 8, 9 :: int] (init_rewards [7, 8, 9])
                         (init_selections [7, 8, 9]) [1, 0]) = Some [7, 8]"
    by auto
  have c3: "SelectChannelUCB ?s1 = 1 \<and> SelectChannelQoCA ?s1 = 1 \<and> SelectChannelDQoCA ?s1 = 1"
    using mp [OF t1C0 h4] unfolding n1 .
  have "\<exists>i<m_K ?s2. SelectChannelUCB ?s2 = i \<and> SelectChannelQoCA ?s2 = i
                    \<and> m_T_i ?s2 ! i = 0 \<and> (\<forall>j<i. m_T_i ?s2 ! j \<noteq> 0)"
    using mp [OF t2C h5] .
  then have c4: "SelectChannelUCB ?s2 = 1 \<and> SelectChannelQoCA ?s2 = 1"
    by (auto simp: BanditAlgorithm_init_def less_Suc_eq numeral_2_eq_2)
  have "\<exists>i<m_K ?s2. SelectChannelDQoCA ?s2 = i \<and> N_i_of ?s2 i = 0 \<and> (\<forall>j<i. N_i_of ?s2 j \<noteq> 0)"
    using mp [OF t2Cd h6] .
  then obtain i where i: "SelectChannelDQoCA ?s2 = i" "\<forall>j<i. N_i_of ?s2 j \<noteq> 0" by blast
  have "i = 0" using i(2) N0 by (cases i) auto
  then have c5: "SelectChannelDQoCA ?s2 = 0" using i(1) by simp
  have "\<exists>s'. bandit_run (BanditAlgorithm_init 3 UCB 1 1 1 1) [(1, 1), (0, 1)] = Some ([0, 1], s')"
    using mp [OF t1D h7] by (simp add: upt_rec)
  then have c6: "map_option fst (bandit_run (BanditAlgorithm_init 3 UCB 1 1 1 1) [(1, 1), (0, 1)])
       = Some [0, 1]"
    by auto
  have "\<exists>selected s'. bandit_run (BanditAlgorithm_init 3 UCB 1 1 1 1)
                            [(1, 1), (0, 1), (1, 1), (1, 1)] = Some (selected, s')
           \<and> length selected = length [(1 :: real, 1 :: real), (0, 1), (1, 1), (1, 1)]
           \<and> take 3 selected = [0..<min 3 (length [(1 :: real, 1 :: real), (0, 1), (1, 1), (1, 1)])]
           \<and> explores_first 3 selected
           \<and> (\<forall>c<3. m_T_i s' ! c = count_list selected c)"
    using mp [OF t2E h8] .
  then obtain selected s' where sel:
    "bandit_run (BanditAlgorithm_init 3 UCB 1 1 1 1) [(1, 1), (0, 1), (1, 1), (1, 1)]
       = Some (selected, s')"
    "length selected = length [(1 :: real, 1 :: real), (0, 1), (1, 1), (1, 1)]"
    "take 3 selected = [0..<min 3 (length [(1 :: real, 1 :: real), (0, 1), (1, 1), (1, 1)])]"
    by blast
  have c6': "map_option (take 3 \<circ> fst)
         (bandit_run (BanditAlgorithm_init 3 UCB 1 1 1 1) [(1, 1), (0, 1), (1, 1), (1, 1)])
       = Some [0, 1, 2]"
    "map_option (length \<circ> fst)
         (bandit_run (BanditAlgorithm_init 3 UCB 1 1 1 1) [(1, 1), (0, 1), (1, 1), (1, 1)])
       = Some 4"
    unfolding sel(1) using sel(2,3) by (simp_all add: upt_rec)
  have c7: "SelectTransmissionParametersUCB1 ?st 1 [920.6, 921.0] [- 3, 1] = Some (920.6, 1)"
    using mp [OF t1F h9] f9 by simp
  have "map (\<lambda>(ch, tp, success). (ch, tp)) (snd ?X) = arm_pairs [920.6, 921.0] [- 3, 1]"
    using mp [OF t1G h10] by (rule conjunct1)
  then have "map fst (map (\<lambda>(ch, tp, success). (ch, tp)) (snd ?X)) = [920.6, 920.6, 921.0, 921.0]"
    unfolding ap by simp
  then have c8: "map fst (snd ?X) = [920.6, 920.6, 921.0, 921.0]"
    by (simp add: case_prod_beta comp_def)
  have c9: "SelectChannelAndSF_UCB1Tuned 5 3 [] [] 1 = Some (1, 1 mod 3)"
    using mp [OF t1H1 h11(1)] .
  have c9': "SelectChannelAndSF_UCB1Tuned 5 3 [] [] 1 = Some (1 mod 5, 1)"
    using mp [OF t1H2 h11(2)] .
  have "\<exists>k<2. UCB1Tuned_best ?arms 2 7 = k \<and> pulls (?arms ! k) = 0 \<and> (\<forall>j<k. pulls (?arms ! j) \<noteq> 0)"
    using mp [OF t2H4 h13] .
  then obtain k where k: "k < 2" "UCB1Tuned_best ?arms 2 7 = k" "pulls (?arms ! k) = 0" by blast
  have "k = 1" using k(1,3) p0 by (cases k) auto
  then have c10: "UCB1Tuned_best ?arms 2 7 = 1" using k(2) by simp
  have "SelectChannelAndSF_UCB1Tuned 2 1 ?arms [ArmStats_init] 7
        = Some (UCB1Tuned_best ?arms 2 7, UCB1Tuned_best [ArmStats_init] 1 7)"
    using mp [OF t2H3 h12] .
  then have c11: "SelectChannelAndSF_UCB1Tuned 2 1 ?arms [ArmStats_init] 7
        = Some (1, UCB1Tuned_best [ArmStats_init] 1 7)"
    unfolding c10 .
  have e1: "at_map [(7 :: int, 2 :: nat), (8, 0), (9, 0)] 0 8 = 0" by (simp add: at_map_def)
  have e2: "at_map [(7 :: int, 1 :: real), (8, 0), (9, 0)] 0 7 \<le> DBL_MAX / 2"
    "at_map [(7 :: int, 1 :: real), (8, 0), (9, 0)] 0 8 \<le> DBL_MAX / 2"
    "at_map [(7 :: int, 1 :: real), (8, 0), (9, 0)] 0 9 \<le> DBL_MAX / 2"
    using h2 by simp_all
  have e3: "0 < m_n ?s1" "m_n ?s1 \<le> m_K ?s1" "m_K ?s2 < m_n ?s2" "m_T_i ?s2 ! 1 = 0"
    by (simp_all add: BanditAlgorithm_init_def)
  show ?thesis
    using e1 e2 e3 big h7 h8 c1 c2 c3 c4 c5 c6 c6' N0 [of 0] cnt(2) c7 c8 c9 c9' p1 m01 c10 c11
    by simp
qed

text \<open>
  The claim as stated speaks of every bandit policy. The epsilon-greedy policy of
  lora-ucb1-simulation.cc has no forced exploration: after one (failed) transmission on
  (921.0 MHz, -3 dBm), with the 24 other arms untried, its exploitation branch
  (\<open>u1 = 0.5\<close>, not below epsilon) returns (921.0, -3) again.
\<close>

theorem EpsilonGreedy_repeats_tried_arm:
  "selectionsCount (at_map (UpdateStatistics_stats (init_ucbStats g_channels g_transmissionPowers)
                              921.0 (- 3) False 1) UCBStats_init (920.6, - 3)) = 0
   \<and> selectionsCount (at_map (UpdateStatistics_stats (init_ucbStats g_channels g_transmissionPowers)
                              921.0 (- 3) False 1) UCBStats_init (921.0, - 3)) = 1
   \<and> SelectTransmissionParametersEpsilonGreedy 0.1
        (UpdateStatistics_stats (init_ucbStats g_channels g_transmissionPowers) 921.0 (- 3) False 1)
        g_channels g_transmissionPowers 0.5 0 0 = Some (921.0, - 3)"
  by (simp add: init_ucbStats_def arm_pairs_def g_channels_def g_transmissionPowers_def
      UpdateStatistics_stats_def at_map_def UCBStats_init_def Let_def
      SelectTransmissionParametersEpsilonGreedy_def vec_at_def)

text \<open>
  Nor has the Tug-of-War policy of tow-lorawan-simulation.cc: with 2 channels and 1
  spreading factor, a device that drew channel 0 at time 0 and succeeded selects channel 0
  again at time 1, while channel 1 has never been tried.
\<close>

lemma ToW_first_cycle:
  "SelectChannelAndSF (ToWAlgorithm_Initialize 2 1) 0 0 (0, 0)
   = Some ((0, 0), (ToWAlgorithm_Initialize 2 1)\<lparr>m_deviceStates := [0 \<mapsto> DeviceState_init 2 1]\<rparr>)"
  by (simp add: SelectChannelAndSF_def ToWAlgorithm_Initialize_def DeviceState_init_def Let_def)

lemma ToW_first_update:
  "UpdateReward_tow ((ToWAlgorithm_Initialize 2 1)\<lparr>m_deviceStates := [0 \<mapsto> DeviceState_init 2 1]\<rparr>)
     0 0 0 True 1
   = Some ((ToWAlgorithm_Initialize 2 1)
             \<lparr>m_deviceStates := [0 \<mapsto> (DeviceState_init 2 1)
                  \<lparr>Q_ch := [1, 0], Q_sf := [1], N_ch := [1, 0], N_sf := [1],
                    R_ch := [1, 0], R_sf := [1]\<rparr>]\<rparr>)"
  by (simp add: UpdateReward_tow_def ToWAlgorithm_Initialize_def DeviceState_init_def Let_def
      decay_counts_def to_uint32_def upt_rec numeral_2_eq_2)

lemma ToW_X_second_cycle:
  "CalculateX 0.5 [1, 0] 2 0 1 = 0.5" "CalculateX 0.5 [1, 0] 2 1 1 = - 0.5"
  by (simp_all add: CalculateX_def CalculateOscillation_def Let_def upt_rec)

lemma ToW_repeats_tried_channel:
  "SelectChannelAndSF (ToWAlgorithm_Initialize 2 1) 0 0 (0, 0)
   = Some ((0, 0), (ToWAlgorithm_Initialize 2 1)\<lparr>m_deviceStates := [0 \<mapsto> DeviceState_init 2 1]\<rparr>)
   \<and> UpdateReward_tow ((ToWAlgorithm_Initialize 2 1)\<lparr>m_deviceStates := [0 \<mapsto> DeviceState_init 2 1]\<rparr>)
        0 0 0 True 1
      = Some ((ToWAlgorithm_Initialize 2 1)
             \<lparr>m_deviceStates := [0 \<mapsto> (DeviceState_init 2 1)
                  \<lparr>Q_ch := [1, 0], Q_sf := [1], N_ch := [1, 0], N_sf := [1],
                    R_ch := [1, 0], R_sf := [1]\<rparr>]\<rparr>)
   \<and> map_option fst
        (SelectChannelAndSF
           ((ToWAlgorithm_Initialize 2 1)
             \<lparr>m_deviceStates := [0 \<mapsto> (DeviceState_init 2 1)
                  \<lparr>Q_ch := [1, 0], Q_sf := [1], N_ch := [1, 0], N_sf := [1],
                    R_ch := [1, 0], R_sf := [1]\<rparr>]\<rparr>)
           0 1 (1, 0))
      = Some (0, 0)"
proof -
  have b: "ToW_best 0.5 [1, 0] 2 1 = 0"
    using ToW_X_second_cycle by (simp add: ToW_best_def upt_rec)
  have "map_option fst
        (SelectChannelAndSF
           ((ToWAlgorithm_Initialize 2 1)
             \<lparr>m_deviceStates := [0 \<mapsto> (DeviceState_init 2 1)
                  \<lparr>Q_ch := [1, 0], Q_sf := [1], N_ch := [1, 0], N_sf := [1],
                    R_ch := [1, 0], R_sf := [1]\<rparr>]\<rparr>)
           0 1 (1, 0))
      = Some (0, 0)"
    using b by (simp add: SelectChannelAndSF_def ToWAlgorithm_Initialize_def Let_def ToW_best_def)
  then show ?thesis using ToW_first_cycle ToW_first_update by simp
qed

end
